(* ===== verification/Prelude.thy ===== *)
theory Prelude
  imports Complex_Main "HOL-Library.AList" "HOL-Library.List_Lexorder" "HOL-Library.Char_ord"
begin

text \<open>
  What the other theories share: Python's exceptions as a datatype and computations that may
  raise as a sum, the string methods the source uses (\<open>strip\<close>, \<open>split\<close>, \<open>partition\<close>,
  \<open>lower\<close>, \<open>startswith\<close>, \<open>in\<close>, \<open>repr\<close>, \<open>int\<close>, \<open>str\<close> of an integer), insertion-ordered
  dictionaries as association lists, and the few list idioms (\<open>dict.fromkeys\<close>, \<open>max(key=)\<close>,
  \<open>round(x, 4)\<close>) of the code.

  A Python \<open>str\<close> is modelled by the list of its UTF-8 bytes, so \<open>.encode()\<close> is the identity
  and the case and white-space methods are those of the ASCII range.
\<close>

named_theorems py_simps \<open>unfolding rules of the modelled Python primitives\<close>
named_theorems dict_simps \<open>lookups in insertion-ordered dictionaries\<close>

section \<open>Exceptions and results\<close>

text \<open>
  The exceptions the source raises or distinguishes in an \<open>except\<close> clause. \<open>HTTPException\<close>
  carries the status code, \<open>OtherError\<close> stands for an exception of library code that no clause
  names (it is only ever caught by \<open>except Exception\<close>).
\<close>

datatype exn =
    ScannerError string
  | RuntimeError string
  | ValueError string
  | KeyError string
  | TypeError string
  | AttributeError string
  | IndexError string
  | BinasciiError string
  | UnicodeDecodeError string
  | JSONDecodeError string
  | ClamdConnectionError string
  | BrokenPipeError string
  | ConnectionResetError string
  | BufferTooLongError string
  | OSError string
  | FileError string
  | DecryptionError string
  | SSRFValidationError string
  | RequestException string
  | JWTError string
  | ResultMissing string
  | HTTPException nat string
  | OtherError string

type_synonym 'a result = "exn + 'a"

text \<open>\<open>str(exc)\<close>: the message.\<close>

fun exn_str :: "exn \<Rightarrow> string" where
  "exn_str (ScannerError s) = s"
| "exn_str (RuntimeError s) = s"
| "exn_str (ValueError s) = s"
| "exn_str (KeyError s) = s"
| "exn_str (TypeError s) = s"
| "exn_str (AttributeError s) = s"
| "exn_str (IndexError s) = s"
| "exn_str (BinasciiError s) = s"
| "exn_str (UnicodeDecodeError s) = s"
| "exn_str (JSONDecodeError s) = s"
| "exn_str (ClamdConnectionError s) = s"
| "exn_str (BrokenPipeError s) = s"
| "exn_str (ConnectionResetError s) = s"
| "exn_str (BufferTooLongError s) = s"
| "exn_str (OSError s) = s"
| "exn_str (FileError s) = s"
| "exn_str (DecryptionError s) = s"
| "exn_str (SSRFValidationError s) = s"
| "exn_str (RequestException s) = s"
| "exn_str (JWTError s) = s"
| "exn_str (ResultMissing s) = s"
| "exn_str (HTTPException n s) = s"
| "exn_str (OtherError s) = s"

text \<open>The part of Python's exception hierarchy that an \<open>except ValueError\<close> sees.\<close>

fun is_value_error :: "exn \<Rightarrow> bool" where
  "is_value_error (ValueError _) = True"
| "is_value_error (BinasciiError _) = True"
| "is_value_error (UnicodeDecodeError _) = True"
| "is_value_error (JSONDecodeError _) = True"
| "is_value_error _ = False"

text \<open>Sequencing: the first exception ends the computation.\<close>

definition rbind :: "'a result \<Rightarrow> ('a \<Rightarrow> 'b result) \<Rightarrow> 'b result" where
  "rbind r f = (case r of Inl e \<Rightarrow> Inl e | Inr x \<Rightarrow> f x)"

lemma rbind_simps [simp, py_simps]:
  "rbind (Inl e) f = Inl e"
  "rbind (Inr x) f = f x"
  by (simp_all add: rbind_def)

lemma rbind_Inr_iff: "rbind r f = Inr y \<longleftrightarrow> (\<exists>x. r = Inr x \<and> f x = Inr y)"
  by (cases r) simp_all

lemma rbind_Inl_iff: "rbind r f = Inl e \<longleftrightarrow> r = Inl e \<or> (\<exists>x. r = Inr x \<and> f x = Inl e)"
  by (cases r) auto

text \<open>A \<open>for\<close> loop that runs a check on each element and may raise.\<close>

fun for_each :: "('a \<Rightarrow> unit result) \<Rightarrow> 'a list \<Rightarrow> unit result" where
  "for_each f [] = Inr ()"
| "for_each f (x # xs) = rbind (f x) (\<lambda>_. for_each f xs)"

lemma for_each_Inr_iff: "for_each f xs = Inr u \<longleftrightarrow> (\<forall>x\<in>set xs. f x = Inr ())"
  by (induction xs) (auto simp: rbind_Inr_iff)

lemma for_each_InlD: "for_each f xs = Inl e \<Longrightarrow> \<exists>x\<in>set xs. f x = Inl e"
  by (induction xs) (auto simp: rbind_Inl_iff)

section \<open>Strings\<close>

definition is_space :: "char \<Rightarrow> bool" where
  "is_space c = (let n = (of_char c :: nat) in (9 \<le> n \<and> n \<le> 13) \<or> (28 \<le> n \<and> n \<le> 32))"

definition str_strip :: "string \<Rightarrow> string" where
  "str_strip s = rev (dropWhile is_space (rev (dropWhile is_space s)))"

fun str_split :: "char \<Rightarrow> string \<Rightarrow> string list" where
  "str_split c [] = [[]]"
| "str_split c (x # xs) =
     (if x = c then [] # str_split c xs
      else (case str_split c xs of [] \<Rightarrow> [[x]] | y # ys \<Rightarrow> (x # y) # ys))"

text \<open>\<open>s.partition(c)\<close> without the separator itself: the second part is empty when the
  separator does not occur.\<close>

definition str_partition :: "char \<Rightarrow> string \<Rightarrow> string \<times> string" where
  "str_partition c s = (takeWhile (\<lambda>x. x \<noteq> c) s, drop 1 (dropWhile (\<lambda>x. x \<noteq> c) s))"

definition ascii_lower :: "char \<Rightarrow> char" where
  "ascii_lower c = (let n = (of_char c :: nat) in if 65 \<le> n \<and> n \<le> 90 then char_of (n + 32) else c)"

definition ascii_upper :: "char \<Rightarrow> char" where
  "ascii_upper c = (let n = (of_char c :: nat) in if 97 \<le> n \<and> n \<le> 122 then char_of (n - 32) else c)"

definition str_lower :: "string \<Rightarrow> string" where
  "str_lower s = map ascii_lower s"

definition str_upper :: "string \<Rightarrow> string" where
  "str_upper s = map ascii_upper s"

definition starts_with :: "string \<Rightarrow> string \<Rightarrow> bool" where
  "starts_with p s \<longleftrightarrow> take (length p) s = p"

fun str_contains :: "string \<Rightarrow> string \<Rightarrow> bool" where
  "str_contains p [] = (p = [])"
| "str_contains p (x # xs) = (starts_with p (x # xs) \<or> str_contains p xs)"

definition is_digit :: "char \<Rightarrow> bool" where
  "is_digit c = (let n = (of_char c :: nat) in 48 \<le> n \<and> n \<le> 57)"

definition digit_val :: "char \<Rightarrow> nat" where
  "digit_val c = of_char c - 48"

definition digit_char :: "nat \<Rightarrow> char" where
  "digit_char n = char_of (n + 48)"

fun show_nat :: "nat \<Rightarrow> string" where
  "show_nat n = (if n < 10 then [digit_char n] else show_nat (n div 10) @ [digit_char (n mod 10)])"

declare show_nat.simps [simp del]

definition show_int :: "int \<Rightarrow> string" where
  "show_int i = (if i < 0 then ''-'' @ show_nat (nat (- i)) else show_nat (nat i))"

text \<open>The decimal value of a string of digits, most significant first.\<close>

definition digits_val :: "string \<Rightarrow> nat" where
  "digits_val s = foldl (\<lambda>n c. 10 * n + digit_val c) 0 s"

text \<open>
  \<open>int(s)\<close>: optional surrounding white space and sign, then digits that single underscores may
  separate; anything else raises \<open>ValueError\<close> (here \<open>None\<close>).
\<close>

fun int_digits :: "string \<Rightarrow> string option" where
  "int_digits [] = None"
| "int_digits [c] = (if is_digit c then Some [c] else None)"
| "int_digits (c # d # s) =
     (if \<not> is_digit c then None
      else if d = CHR ''_'' then map_option (Cons c) (int_digits s)
      else map_option (Cons c) (int_digits (d # s)))"

definition py_int :: "string \<Rightarrow> int option" where
  "py_int s =
     (let t = str_strip s in
      case t of
        [] \<Rightarrow> None
      | c # r \<Rightarrow>
          if c = CHR ''-'' then map_option (\<lambda>d. - int (digits_val d)) (int_digits r)
          else if c = CHR ''+'' then map_option (\<lambda>d. int (digits_val d)) (int_digits r)
          else map_option (\<lambda>d. int (digits_val d)) (int_digits t))"

text \<open>\<open>repr(s)\<close> of a string, for the messages that quote a value.\<close>

definition hex_char :: "nat \<Rightarrow> char" where
  "hex_char n = (if n < 10 then char_of (n + 48) else char_of (n + 87))"

definition repr_char :: "char \<Rightarrow> char \<Rightarrow> string" where
  "repr_char q c =
     (let n = (of_char c :: nat) in
      if c = q \<or> c = CHR 92 then [CHR 92, c]
      else if n = 9 then [CHR 92, CHR ''t'']
      else if n = 10 then [CHR 92, CHR ''n'']
      else if n = 13 then [CHR 92, CHR ''r'']
      else if n < 32 \<or> n = 127 then [CHR 92, CHR ''x'', hex_char (n div 16), hex_char (n mod 16)]
      else [c])"

definition py_repr :: "string \<Rightarrow> string" where
  "py_repr s =
     (let q = (if CHR 39 \<in> set s \<and> CHR 34 \<notin> set s then CHR 34 else CHR 39)
      in [q] @ concat (map (repr_char q) s) @ [q])"

fun join_with :: "string \<Rightarrow> string list \<Rightarrow> string" where
  "join_with sep [] = []"
| "join_with sep [s] = s"
| "join_with sep (s # t # ss) = s @ sep @ join_with sep (t # ss)"

definition repr_list :: "string list \<Rightarrow> string" where
  "repr_list ss = ''['' @ join_with '', '' (map py_repr ss) @ '']''"

text \<open>\<open>[x.strip() for x in raw.split(",") if x.strip()]\<close>, the reading of every
  comma-separated setting and query parameter.\<close>

definition split_csv :: "string \<Rightarrow> string list" where
  "split_csv raw = filter (\<lambda>s. s \<noteq> []) (map str_strip (str_split (CHR '','') raw))"

section \<open>Lists and numbers\<close>

text \<open>\<open>list(dict.fromkeys(xs))\<close>: duplicates dropped, first-seen order.\<close>

definition from_keys :: "'a list \<Rightarrow> 'a list" where
  "from_keys xs = rev (remdups (rev xs))"

text \<open>\<open>max(x # xs, key=f)\<close>: Python returns the first of the maximal elements.\<close>

fun max_by :: "('a \<Rightarrow> 'b::linorder) \<Rightarrow> 'a \<Rightarrow> 'a list \<Rightarrow> 'a" where
  "max_by f x [] = x"
| "max_by f x (y # ys) = max_by f (if f x < f y then y else x) ys"

text \<open>\<open>round(x, 4)\<close>: to the nearest multiple of 1/10000, ties to even.\<close>

definition round4 :: "rat \<Rightarrow> rat" where
  "round4 q =
     (let m = q * 10000; f = \<lfloor>m\<rfloor>; d = m - of_int f;
          n = (if d < 1/2 then f else if 1/2 < d then f + 1 else if even f then f else f + 1)
      in of_int n / 10000)"

text \<open>Ceiling division as the source writes it, \<open>-(-a // b)\<close>.\<close>

definition ceil_div :: "int \<Rightarrow> int \<Rightarrow> int" where
  "ceil_div a b = - ((- a) div b)"

section \<open>Dictionaries\<close>

text \<open>A \<open>dict\<close> keeps its insertion order: an association list. \<open>d[k] = v\<close> replaces the value in
  place or appends, which is \<open>AList.update\<close>.\<close>

type_synonym ('k, 'v) dict = "('k \<times> 'v) list"

definition dict_set :: "'k \<Rightarrow> 'v \<Rightarrow> ('k, 'v) dict \<Rightarrow> ('k, 'v) dict" where
  "dict_set k v d = AList.update k v d"

definition dict_setdefault :: "'k \<Rightarrow> 'v \<Rightarrow> ('k, 'v) dict \<Rightarrow> ('k, 'v) dict" where
  "dict_setdefault k v d = (case map_of d k of None \<Rightarrow> d @ [(k, v)] | Some _ \<Rightarrow> d)"

definition dict_update :: "('k, 'v) dict \<Rightarrow> ('k, 'v) dict \<Rightarrow> ('k, 'v) dict" where
  "dict_update d e = foldl (\<lambda>d (k, v). dict_set k v d) d e"

definition dict_keys :: "('k, 'v) dict \<Rightarrow> 'k list" where
  "dict_keys d = map fst d"

definition dict_ok :: "('k, 'v) dict \<Rightarrow> bool" where
  "dict_ok d \<longleftrightarrow> distinct (map fst d)"

section \<open>Facts about lists and numbers\<close>

lemma set_from_keys [simp]: "set (from_keys xs) = set xs"
  by (simp add: from_keys_def)

lemma distinct_from_keys [simp]: "distinct (from_keys xs)"
  by (simp add: from_keys_def)

lemma from_keys_Nil [simp]: "from_keys [] = []"
  by (simp add: from_keys_def)

lemma from_keys_snoc [simp]:
  "from_keys (xs @ [x]) = (if x \<in> set xs then from_keys xs else from_keys xs @ [x])"
  by (simp add: from_keys_def)

lemma from_keys_eq_Nil_iff [simp]: "from_keys xs = [] \<longleftrightarrow> xs = []"
  using set_from_keys [of xs] by fastforce

lemma from_keys_id: "distinct xs \<Longrightarrow> from_keys xs = xs"
  by (simp add: from_keys_def distinct_remdups_id)

lemma find_SomeD: "find P xs = Some x \<Longrightarrow> x \<in> set xs \<and> P x"
  by (induction xs) (auto split: if_splits)

lemma find_None_all: "find P xs = None \<longleftrightarrow> (\<forall>x\<in>set xs. \<not> P x)"
  by (induction xs) auto

lemma max_by_in: "max_by f x xs \<in> set (x # xs)"
  by (induction f x xs rule: max_by.induct) (simp, force)

lemma max_by_ge: "y \<in> set (x # xs) \<Longrightarrow> f y \<le> f (max_by f x xs)"
proof (induction f x xs arbitrary: y rule: max_by.induct)
  case (1 f x)
  then show ?case by simp
next
  case (2 f x z zs)
  let ?m = "if f x < f z then z else x"
  have m: "f ?m \<le> f (max_by f ?m zs)"
    by (rule "2.IH") simp
  show ?case
  proof (cases "y \<in> set zs")
    case True
    then have "f y \<le> f (max_by f ?m zs)" by (intro "2.IH") simp
    then show ?thesis by simp
  next
    case False
    with "2.prems" have "f y \<le> f ?m" by auto
    with m show ?thesis by simp
  qed
qed

lemma ceil_div_bounds:
  assumes "0 < b"
  shows "a \<le> ceil_div a b * b" and "ceil_div a b * b < a + b"
proof -
  have e: "- a = b * (- a div b) + - a mod b" by simp
  have "0 \<le> - a mod b" "- a mod b < b" using assms by simp_all
  with e have "b * (- a div b) \<le> - a" and "- a - b < b * (- a div b)" by linarith+
  then show "a \<le> ceil_div a b * b" and "ceil_div a b * b < a + b"
    by (simp_all add: ceil_div_def algebra_simps)
qed

lemma ceil_div_mono: "0 < b \<Longrightarrow> a \<le> a' \<Longrightarrow> ceil_div a b \<le> ceil_div a' b"
  by (simp add: ceil_div_def zdiv_mono1)

section \<open>Facts about strings\<close>

lemma starts_with_iff: "starts_with p s \<longleftrightarrow> (\<exists>t. s = p @ t)"
proof
  assume "starts_with p s"
  then show "\<exists>t. s = p @ t"
    by (metis starts_with_def append_take_drop_id)
qed (auto simp: starts_with_def)

lemma starts_with_append [simp]: "starts_with p (p @ t)"
  by (simp add: starts_with_def)

lemma digit_char_val [simp]: "n < 10 \<Longrightarrow> digit_val (digit_char n) = n"
  by (simp add: digit_val_def digit_char_def)

lemma is_digit_digit_char [simp]: "n < 10 \<Longrightarrow> is_digit (digit_char n)"
  by (simp add: is_digit_def digit_char_def)

lemma show_nat_digits: "c \<in> set (show_nat n) \<Longrightarrow> is_digit c"
proof (induction n arbitrary: c rule: show_nat.induct)
  case (1 n)
  show ?case
  proof (cases "n < 10")
    case True
    with "1.prems" show ?thesis by (simp add: show_nat.simps [of n])
  next
    case False
    with "1.prems" have "c \<in> set (show_nat (n div 10)) \<or> c = digit_char (n mod 10)"
      by (subst (asm) show_nat.simps) auto
    with False "1.IH" show ?thesis by auto
  qed
qed

lemma digits_val_snoc [simp]: "digits_val (s @ [c]) = 10 * digits_val s + digit_val c"
  by (simp add: digits_val_def)

lemma digits_val_show_nat [simp]: "digits_val (show_nat n) = n"
proof (induction n rule: show_nat.induct)
  case (1 n)
  show ?case
  proof (cases "n < 10")
    case True
    then show ?thesis by (subst show_nat.simps) (simp add: digits_val_def)
  next
    case False
    with "1.IH" show ?thesis by (subst show_nat.simps) simp
  qed
qed

lemma show_nat_inj: "show_nat m = show_nat n \<longleftrightarrow> m = n"
  by (metis digits_val_show_nat)

lemma show_nat_nonempty [simp]: "show_nat n \<noteq> []"
  by (subst show_nat.simps) simp

lemma show_nat_no_char: "\<not> is_digit c \<Longrightarrow> c \<notin> set (show_nat n)"
  using show_nat_digits by blast

lemma split_csv_nonempty: "s \<in> set (split_csv raw) \<Longrightarrow> s \<noteq> []"
  by (simp add: split_csv_def)

lemma str_split_nonempty [simp]: "str_split c s \<noteq> []"
  by (induction s) (auto split: list.splits)

lemma split_csv_Nil [simp]: "split_csv [] = []"
  by (simp add: split_csv_def str_strip_def)

section \<open>Dictionaries as an interface\<close>

text \<open>
  What the code relies on when it uses a dictionary: a lookup returns what the last assignment
  to the key stored, and the keys keep the order of their first assignment.
\<close>

locale dictionary =
  fixes empty :: "'d"
    and get :: "'d \<Rightarrow> 'k \<Rightarrow> 'v option"
    and put :: "'k \<Rightarrow> 'v \<Rightarrow> 'd \<Rightarrow> 'd"
    and keys :: "'d \<Rightarrow> 'k list"
  assumes get_empty: "get empty k = None"
    and get_put: "get (put k v d) k' = (if k' = k then Some v else get d k')"
    and keys_empty: "keys empty = []"
    and keys_put: "keys (put k v d) = (if k \<in> set (keys d) then keys d else keys d @ [k])"
begin

definition put_all :: "('k \<times> 'v) list \<Rightarrow> 'd \<Rightarrow> 'd" where
  "put_all kvs d = foldl (\<lambda>d (k, v). put k v d) d kvs"

lemma get_put_all:
  "get (put_all kvs d) k = (case map_of (rev kvs) k of Some v \<Rightarrow> Some v | None \<Rightarrow> get d k)"
  by (induction kvs rule: rev_induct) (auto simp: put_all_def get_put split: option.splits)

lemma get_put_all_other: "k \<notin> fst ` set kvs \<Longrightarrow> get (put_all kvs d) k = get d k"
  by (induction kvs rule: rev_induct) (auto simp: put_all_def get_put)

lemma distinct_keys_put: "distinct (keys d) \<Longrightarrow> distinct (keys (put k v d))"
  by (simp add: keys_put)

end

text \<open>Grouping, \<open>for x in xs: d.setdefault(key(x), []).append(x)\<close>, for any dictionary.\<close>

locale group_dictionary = dictionary empty get put keys
  for empty :: "'d" and get :: "'d \<Rightarrow> 'k \<Rightarrow> 'a list option"
    and put :: "'k \<Rightarrow> 'a list \<Rightarrow> 'd \<Rightarrow> 'd" and keys :: "'d \<Rightarrow> 'k list" +
  fixes key_of :: "'a \<Rightarrow> 'k" and grp :: "'a \<Rightarrow> 'd \<Rightarrow> 'd"
  assumes grp: "grp x d = put (key_of x) ((case get d (key_of x) of None \<Rightarrow> [] | Some ys \<Rightarrow> ys) @ [x]) d"
begin

lemma get_group:
  "get (foldl (\<lambda>d x. grp x d) empty xs) k =
     (let ys = filter (\<lambda>x. key_of x = k) xs in if ys = [] then None else Some ys)"
  by (induction xs rule: rev_induct) (auto simp: get_empty grp get_put Let_def split: option.splits if_splits)

lemma keys_group: "keys (foldl (\<lambda>d x. grp x d) empty xs) = from_keys (map key_of xs)"
proof (induction xs rule: rev_induct)
  case Nil
  then show ?case by (simp add: keys_empty)
next
  case (snoc x xs)
  have "set (keys (foldl (\<lambda>d x. grp x d) empty xs)) = key_of ` set xs"
    by (simp add: snoc.IH)
  with snoc.IH show ?case by (simp add: grp keys_put)
qed

end

lemma map_of_dict_set [simp, dict_simps]: "map_of (dict_set k v d) = (map_of d)(k \<mapsto> v)"
  by (simp add: dict_set_def update_conv')

lemma dict_set_nonempty [simp]: "dict_set k v d \<noteq> []"
  by (cases d) (auto simp: dict_set_def)

lemma fst_dict_set [simp]:
  "map fst (dict_set k v d) = (if k \<in> fst ` set d then map fst d else map fst d @ [k])"
  by (induction d) (auto simp: dict_set_def)

lemma dict_ok_set [simp]: "dict_ok d \<Longrightarrow> dict_ok (dict_set k v d)"
  by (simp add: dict_ok_def dict_set_def distinct_update)

lemma dict_ok_Nil [simp]: "dict_ok []"
  by (simp add: dict_ok_def)

lemma map_of_setdefault [simp, dict_simps]:
  "map_of (dict_setdefault k v d) = (case map_of d k of None \<Rightarrow> (map_of d)(k \<mapsto> v) | Some _ \<Rightarrow> map_of d)"
  by (auto simp: dict_setdefault_def map_add_def fun_eq_iff split: option.splits)

lemma dict_ok_setdefault [simp]: "dict_ok d \<Longrightarrow> dict_ok (dict_setdefault k v d)"
  by (auto simp: dict_ok_def dict_setdefault_def map_of_eq_None_iff split: option.splits)

interpretation pydict: dictionary "[]" map_of dict_set dict_keys
  by unfold_locales (auto simp: dict_keys_def)

lemma dict_update_put_all: "dict_update d e = pydict.put_all e d"
  by (simp add: dict_update_def pydict.put_all_def)

lemma map_of_dict_update [dict_simps]:
  "map_of (dict_update d e) k = (case map_of (rev e) k of Some v \<Rightarrow> Some v | None \<Rightarrow> map_of d k)"
  by (simp add: dict_update_put_all pydict.get_put_all)

lemma dict_ok_update: "dict_ok d \<Longrightarrow> dict_ok (dict_update d e)"
  by (induction e rule: rev_induct) (auto simp: dict_update_def split_beta)

lemma dict_ok_filter: "dict_ok d \<Longrightarrow> dict_ok (filter P d)"
  by (simp add: dict_ok_def distinct_map_filter)

lemma map_of_filter_key [dict_simps]:
  "map_of (filter (\<lambda>(k, v). k \<noteq> a) d) k = (if k = a then None else map_of d k)"
  by (induction d) auto

end
