(* ===== verification/Json.thy ===== *)
theory Json
  imports Prelude
begin

text \<open>
  JSON values, which are also the dynamically typed Python values the code passes around without
  looking at them (\<open>metadata\<close>, a daemon's reply, token claims, the result payloads), with the
  dictionary operations on objects and Python's truth test.
\<close>

datatype json =
    JNull
  | JBool bool
  | JInt int
  | JFloat rat
  | JStr string
  | JList "json list"
  | JObj "(string \<times> json) list"

text \<open>\<open>d.get(k)\<close> on an object: \<open>None\<close> (here \<^term>\<open>JNull\<close>) when the key is absent.\<close>

definition jget :: "(string \<times> json) list \<Rightarrow> string \<Rightarrow> json" where
  "jget d k = (case map_of d k of None \<Rightarrow> JNull | Some v \<Rightarrow> v)"

text \<open>\<open>bool(v)\<close>.\<close>

fun truthy :: "json \<Rightarrow> bool" where
  "truthy JNull = False"
| "truthy (JBool b) = b"
| "truthy (JInt i) = (i \<noteq> 0)"
| "truthy (JFloat q) = (q \<noteq> 0)"
| "truthy (JStr s) = (s \<noteq> [])"
| "truthy (JList xs) = (xs \<noteq> [])"
| "truthy (JObj d) = (d \<noteq> [])"

text \<open>\<open>a or b\<close>.\<close>

definition py_or :: "json \<Rightarrow> json \<Rightarrow> json" where
  "py_or a b = (if truthy a then a else b)"

text \<open>An optional string as a value, and whether a value is \<open>isinstance(v, dict)\<close>.\<close>

definition jopt :: "string option \<Rightarrow> json" where
  "jopt s = (case s of None \<Rightarrow> JNull | Some t \<Rightarrow> JStr t)"

text \<open>
  The keys a Python dictionary accepts: a list or a dictionary raises \<open>TypeError\<close> on lookup.
\<close>

fun hashable :: "json \<Rightarrow> bool" where
  "hashable (JList _) = False"
| "hashable (JObj _) = False"
| "hashable _ = True"

text \<open>
  \<open>str(v)\<close> and \<open>repr(v)\<close>, for the messages that print a value; a float prints as its exact
  fraction.
\<close>

definition show_rat :: "rat \<Rightarrow> string" where
  "show_rat q = (case quotient_of q of (n, d) \<Rightarrow> show_int n @ (if d = 1 then ''.0'' else ''/'' @ show_int d))"

fun json_repr :: "json \<Rightarrow> string" where
  "json_repr JNull = ''None''"
| "json_repr (JBool b) = (if b then ''True'' else ''False'')"
| "json_repr (JInt i) = show_int i"
| "json_repr (JFloat q) = show_rat q"
| "json_repr (JStr s) = py_repr s"
| "json_repr (JList xs) = ''['' @ join_with '', '' (map json_repr xs) @ '']''"
| "json_repr (JObj d) =
     ''{'' @ join_with '', '' (map (\<lambda>(k, v). py_repr k @ '': '' @ json_repr v) d) @ ''}''"

definition json_str :: "json \<Rightarrow> string" where
  "json_str v = (case v of JStr s \<Rightarrow> s | _ \<Rightarrow> json_repr v)"

text \<open>\<open>v.get(k)\<close> where the code expects an object: any other value has no \<open>get\<close>.\<close>

definition json_get :: "json \<Rightarrow> string \<Rightarrow> json result" where
  "json_get v k = (case v of JObj d \<Rightarrow> Inr (jget d k) | _ \<Rightarrow> Inl (AttributeError ''no attribute 'get' ''))"

text \<open>\<open>d[k]\<close>, and \<open>int(v)\<close> of a value: a float is truncated, a string parsed.\<close>

definition item :: "(string \<times> json) list \<Rightarrow> string \<Rightarrow> json result" where
  "item d k = (case map_of d k of None \<Rightarrow> Inl (KeyError (py_repr k)) | Some v \<Rightarrow> Inr v)"

definition json_int :: "json \<Rightarrow> int result" where
  "json_int v =
     (case v of
        JInt i \<Rightarrow> Inr i
      | JBool b \<Rightarrow> Inr (if b then 1 else 0)
      | JFloat q \<Rightarrow> Inr (if q < 0 then \<lceil>q\<rceil> else \<lfloor>q\<rfloor>)
      | JStr s \<Rightarrow> (case py_int s of
            None \<Rightarrow> Inl (ValueError (''invalid literal for int() with base 10: '' @ py_repr s))
          | Some i \<Rightarrow> Inr i)
      | _ \<Rightarrow> Inl (TypeError ''int() argument must be a string or a number''))"

lemma jget_set [simp, dict_simps]: "jget (dict_set k v d) k' = (if k' = k then v else jget d k')"
  by (simp add: jget_def)

lemma jget_absent: "map_of d k = None \<Longrightarrow> jget d k = JNull"
  by (simp add: jget_def)

lemma jget_Some: "map_of d k = Some v \<Longrightarrow> jget d k = v"
  by (simp add: jget_def)

lemma py_or_simps [simp, py_simps]:
  "truthy a \<Longrightarrow> py_or a b = a"
  "\<not> truthy a \<Longrightarrow> py_or a b = b"
  by (simp_all add: py_or_def)

end
