(* ===== verification/Verdicts.thy ===== *)
theory Verdicts
  imports Json
begin

text \<open>
  The verdict data model and the report reduction of \<open>src/scanner.py\<close>: \<open>Verdict\<close>,
  \<open>ScannerResult\<close>, \<open>CategoryVerdict\<close>, \<open>ScanReport\<close> with its properties \<open>malware\<close>,
  \<open>detected\<close>, \<open>all_errored\<close> and its methods \<open>_by_category\<close>, \<open>_deciding\<close>, \<open>verdicts\<close>,
  \<open>as_dict\<close>. The five words are ordered by the documented precedence, so that the axis
  verdict can be specified as a maximum.

  A score is a rational number (the finite floats); \<open>reason\<close> and \<open>location\<close> are values of
  type \<^typ>\<open>json\<close>, with \<^term>\<open>JNull\<close> for \<open>None\<close>, since a backend passes on what its
  daemon sent.
\<close>

section \<open>The five words and their precedence\<close>

datatype kind = Clean | Partial | Error | Flagged | Malware

fun kind_str :: "kind \<Rightarrow> string" where
  "kind_str Clean = ''clean''"
| "kind_str Partial = ''partial''"
| "kind_str Error = ''error''"
| "kind_str Flagged = ''flagged''"
| "kind_str Malware = ''malware''"

fun kind_rank :: "kind \<Rightarrow> nat" where
  "kind_rank Clean = 0"
| "kind_rank Partial = 1"
| "kind_rank Error = 2"
| "kind_rank Flagged = 3"
| "kind_rank Malware = 4"

lemma kind_rank_inj: "kind_rank a = kind_rank b \<longleftrightarrow> a = b"
  by (cases a; cases b) simp_all

lemma kind_str_inj: "kind_str a = kind_str b \<longleftrightarrow> a = b"
  by (cases a; cases b) simp_all

instantiation kind :: linorder
begin

definition less_eq_kind :: "kind \<Rightarrow> kind \<Rightarrow> bool" where
  "less_eq_kind a b \<longleftrightarrow> kind_rank a \<le> kind_rank b"

definition less_kind :: "kind \<Rightarrow> kind \<Rightarrow> bool" where
  "less_kind a b \<longleftrightarrow> kind_rank a < kind_rank b"

instance
  by standard (auto simp: less_eq_kind_def less_kind_def kind_rank_inj)

end

instantiation kind :: order_bot
begin

definition bot_kind :: kind where
  "bot_kind = Clean"

instance
  by standard (simp add: bot_kind_def less_eq_kind_def)

end

lemma Clean_le [simp]: "Clean \<le> k"
  by (simp add: less_eq_kind_def)

lemma le_Malware [simp]: "k \<le> Malware"
  by (cases k) (simp_all add: less_eq_kind_def)

section \<open>Verdicts and results\<close>

record verdict =
  v_kind :: kind
  v_reason :: json
  v_score :: "rat option"
  v_location :: json

definition clean :: verdict where
  "clean = \<lparr>v_kind = Clean, v_reason = JNull, v_score = None, v_location = JNull\<rparr>"

definition malware :: "json \<Rightarrow> verdict" where
  "malware signature = \<lparr>v_kind = Malware, v_reason = signature, v_score = None, v_location = JNull\<rparr>"

definition partial :: "json \<Rightarrow> verdict" where
  "partial tag = \<lparr>v_kind = Partial, v_reason = tag, v_score = None, v_location = JNull\<rparr>"

lemma verdict_kinds [simp]:
  "v_kind clean = Clean" "v_kind (malware s) = Malware" "v_kind (partial t) = Partial"
  by (simp_all add: clean_def malware_def partial_def)

record scanner_result =
  sr_scanner :: string
  sr_category :: string
  sr_kind :: kind
  sr_reason :: json
  sr_score :: "rat option"
  sr_location :: json
  sr_time :: rat
  sr_scored :: bool
  sr_advisory :: bool

definition incomplete :: "scanner_result \<Rightarrow> bool" where
  "incomplete r \<longleftrightarrow> sr_kind r = Error \<or> sr_kind r = Partial"

definition result_as_dict :: "scanner_result \<Rightarrow> (string, json) dict" where
  "result_as_dict r =
     [(''scanner'', JStr (sr_scanner r)), (''category'', JStr (sr_category r)),
      (''kind'', JStr (kind_str (sr_kind r))), (''time'', JFloat (round4 (sr_time r)))]
     @ (if sr_advisory r then [(''advisory'', JBool True)] else [])
     @ (case sr_score r of None \<Rightarrow> [] | Some s \<Rightarrow> [(''score'', JFloat (round4 s))])
     @ (if sr_reason r \<noteq> JNull then [(''reason'', sr_reason r)] else [])
     @ (if sr_location r \<noteq> JNull then [(''location'', sr_location r)] else [])"

record category_verdict =
  cv_kind :: kind
  cv_reason :: json
  cv_score :: "rat option"
  cv_location :: json

definition verdict_as_dict :: "category_verdict \<Rightarrow> (string, json) dict" where
  "verdict_as_dict v =
     [(''kind'', JStr (kind_str (cv_kind v)))]
     @ (case cv_score v of None \<Rightarrow> [] | Some s \<Rightarrow> [(''score'', JFloat (round4 s))])
     @ (if cv_reason v \<noteq> JNull then [(''reason'', cv_reason v)] else [])
     @ (if cv_location v \<noteq> JNull then [(''location'', cv_location v)] else [])"

section \<open>The combined report\<close>

text \<open>\<open>ScanReport\<close> holds nothing but the list of results.\<close>

type_synonym report = "scanner_result list"

definition report_malware :: "report \<Rightarrow> bool" where
  "report_malware rs \<longleftrightarrow> (\<exists>r\<in>set rs. sr_kind r = Malware)"

definition is_detection :: "scanner_result \<Rightarrow> bool" where
  "is_detection r \<longleftrightarrow> sr_kind r = Malware \<or> sr_kind r = Flagged"

definition detected :: "report \<Rightarrow> bool" where
  "detected rs \<longleftrightarrow> (\<exists>r\<in>set rs. is_detection r)"

definition group_add :: "scanner_result \<Rightarrow> (string, scanner_result list) dict \<Rightarrow> (string, scanner_result list) dict" where
  "group_add r g =
     dict_set (sr_category r) ((case map_of g (sr_category r) of None \<Rightarrow> [] | Some xs \<Rightarrow> xs) @ [r]) g"

definition by_category :: "report \<Rightarrow> (string, scanner_result list) dict" where
  "by_category rs = foldl (\<lambda>g r. group_add r g) [] rs"

definition deciding :: "scanner_result list \<Rightarrow> scanner_result list" where
  "deciding rs = (let xs = filter (\<lambda>r. \<not> sr_advisory r) rs in if xs = [] then rs else xs)"

definition all_errored :: "report \<Rightarrow> bool" where
  "all_errored rs =
     (if detected rs then False
      else let ds = concat (map (deciding \<circ> snd) (by_category rs))
           in ds \<noteq> [] \<and> list_all (\<lambda>r. sr_kind r = Error) ds)"

text \<open>The deciding result to report when nothing was detected: an \<open>error\<close> if there is one,
  else the first incomplete one.\<close>

definition blocker_of :: "scanner_result list \<Rightarrow> scanner_result option" where
  "blocker_of rs =
     (let unfinished = filter incomplete (deciding rs)
      in case find (\<lambda>r. sr_kind r = Error) unfinished of
           Some r \<Rightarrow> Some r
         | None \<Rightarrow> (case unfinished of [] \<Rightarrow> None | r # _ \<Rightarrow> Some r))"

definition max_score :: "rat list \<Rightarrow> rat option" where
  "max_score qs = (case qs of [] \<Rightarrow> None | q # rest \<Rightarrow> Some (max_by (\<lambda>x. x) q rest))"

definition score_key :: "scanner_result \<Rightarrow> rat" where
  "score_key r = (case sr_score r of None \<Rightarrow> 0 | Some s \<Rightarrow> s)"

text \<open>The detection to report: the first \<open>malware\<close>, else the first detection.\<close>

definition top_detection :: "scanner_result \<Rightarrow> scanner_result list \<Rightarrow> scanner_result" where
  "top_detection d ds = (case find (\<lambda>r. sr_kind r = Malware) (d # ds) of Some r \<Rightarrow> r | None \<Rightarrow> d)"

text \<open>One turn of the loop of \<open>ScanReport.verdicts\<close>.\<close>

definition reduce_category :: "scanner_result list \<Rightarrow> category_verdict" where
  "reduce_category rs =
     (let blocker = blocker_of rs in
      if rs \<noteq> [] \<and> list_all sr_scored rs then
        (let scores = List.map_filter sr_score rs in
         case filter (\<lambda>r. sr_kind r = Flagged) rs of
           h # hits \<Rightarrow>
             (let top = max_by score_key h hits
              in \<lparr>cv_kind = Flagged, cv_reason = sr_reason top,
                  cv_score = (case max_score scores of None \<Rightarrow> sr_score top | Some m \<Rightarrow> Some m),
                  cv_location = JNull\<rparr>)
         | [] \<Rightarrow>
             (case blocker of
                Some b \<Rightarrow> \<lparr>cv_kind = sr_kind b, cv_reason = sr_reason b, cv_score = None, cv_location = JNull\<rparr>
              | None \<Rightarrow> \<lparr>cv_kind = Clean, cv_reason = JNull, cv_score = max_score scores, cv_location = JNull\<rparr>))
      else
        (case filter is_detection rs of
           d # ds \<Rightarrow>
             (let top = top_detection d ds
              in \<lparr>cv_kind = sr_kind top, cv_reason = sr_reason top, cv_score = None,
                  cv_location = sr_location top\<rparr>)
         | [] \<Rightarrow>
             (case blocker of
                Some b \<Rightarrow> \<lparr>cv_kind = sr_kind b, cv_reason = sr_reason b, cv_score = None, cv_location = JNull\<rparr>
              | None \<Rightarrow> \<lparr>cv_kind = Clean, cv_reason = JNull, cv_score = None, cv_location = JNull\<rparr>)))"

definition verdicts :: "report \<Rightarrow> (string, category_verdict) dict" where
  "verdicts rs =
     foldl (\<lambda>d (c, results). dict_set c (reduce_category results) d) [] (by_category rs)"

definition report_as_dict :: "report \<Rightarrow> (string, json) dict" where
  "report_as_dict rs =
     [(''verdicts'', JObj (map (\<lambda>(c, v). (c, JObj (verdict_as_dict v))) (verdicts rs))),
      (''scanners'', JList (map (JObj \<circ> result_as_dict) rs))]"

section \<open>Grouping by category\<close>

definition results_of :: "string \<Rightarrow> report \<Rightarrow> scanner_result list" where
  "results_of c rs = filter (\<lambda>r. sr_category r = c) rs"

interpretation cats: group_dictionary "[]" map_of dict_set dict_keys sr_category group_add
  by unfold_locales (simp add: group_add_def)

lemma map_of_by_category:
  "map_of (by_category rs) c = (if results_of c rs = [] then None else Some (results_of c rs))"
  using cats.get_group [of rs c] by (simp add: by_category_def results_of_def Let_def)

lemma keys_by_category: "map fst (by_category rs) = from_keys (map sr_category rs)"
  using cats.keys_group [of rs] by (simp add: by_category_def dict_keys_def)

lemma distinct_by_category: "distinct (map fst (by_category rs))"
  by (simp add: keys_by_category)

lemma by_category_mem:
  "(c, xs) \<in> set (by_category rs) \<longleftrightarrow> xs = results_of c rs \<and> results_of c rs \<noteq> []"
  using map_of_eq_Some_iff [OF distinct_by_category, of rs c xs]
  by (auto simp: map_of_by_category split: if_splits)

lemma results_of_nonempty: "results_of c rs \<noteq> [] \<longleftrightarrow> c \<in> sr_category ` set rs"
  by (auto simp: results_of_def filter_empty_conv)

lemma verdicts_eq: "verdicts rs = map (\<lambda>(c, xs). (c, reduce_category xs)) (by_category rs)"
proof -
  have "foldl (\<lambda>d (c, results). dict_set c (reduce_category results) d) d g
      = d @ map (\<lambda>(c, xs). (c, reduce_category xs)) g"
    if "distinct (map fst (d @ map (\<lambda>(c, xs). (c, reduce_category xs)) g))"
    for d :: "(string, category_verdict) dict" and g
    using that
  proof (induction g arbitrary: d)
    case Nil
    then show ?case by simp
  next
    case (Cons p g)
    obtain c xs where p: "p = (c, xs)" by (cases p)
    from Cons.prems p have "c \<notin> fst ` set d" by auto
    then have "dict_set c v d = d @ [(c, v)]" for v
      by (induction d) (auto simp: dict_set_def)
    with Cons p show ?case by simp
  qed
  from this [of "[]" "by_category rs"] distinct_by_category [of rs] show ?thesis
    by (simp add: verdicts_def comp_def case_prod_unfold)
qed

lemma map_of_verdicts:
  "map_of (verdicts rs) c =
     (if results_of c rs = [] then None else Some (reduce_category (results_of c rs)))"
proof -
  have "map_of (map (\<lambda>(c, xs). (c, reduce_category xs)) g) c = map_option reduce_category (map_of g c)"
    for g by (induction g) auto
  then show ?thesis by (simp add: verdicts_eq map_of_by_category)
qed

lemma keys_verdicts: "map fst (verdicts rs) = from_keys (map sr_category rs)"
  using keys_by_category [of rs] by (simp add: verdicts_eq case_prod_unfold comp_def)

section \<open>The deciding results and the blocker\<close>

lemma deciding_subset: "set (deciding rs) \<subseteq> set rs"
  by (auto simp: deciding_def Let_def)

lemma deciding_eq_Nil_iff [simp]: "deciding rs = [] \<longleftrightarrow> rs = []"
  by (auto simp: deciding_def Let_def)

lemma blocker_of_None_iff: "blocker_of rs = None \<longleftrightarrow> (\<forall>r\<in>set (deciding rs). \<not> incomplete r)"
  by (auto simp: blocker_of_def Let_def filter_empty_conv split: option.splits list.splits
      simp flip: filter_empty_conv)

lemma blocker_of_SomeD:
  assumes "blocker_of rs = Some b"
  shows "b \<in> set (deciding rs)" and "incomplete b"
    and "(\<exists>r\<in>set (deciding rs). sr_kind r = Error) \<Longrightarrow> sr_kind b = Error"
proof -
  have *: "b \<in> set (filter incomplete (deciding rs)) \<and>
      ((\<exists>r\<in>set (filter incomplete (deciding rs)). sr_kind r = Error) \<longrightarrow> sr_kind b = Error)"
  proof (cases "find (\<lambda>r. sr_kind r = Error) (filter incomplete (deciding rs))")
    case None
    with assms have "\<exists>xs. filter incomplete (deciding rs) = b # xs"
      by (cases "filter incomplete (deciding rs)") (simp_all add: blocker_of_def Let_def)
    then have "b \<in> set (filter incomplete (deciding rs))"
      by (elim exE) (simp only: list.set_intros)
    with None show ?thesis unfolding find_None_all by blast
  next
    case (Some r)
    with assms have "r = b" by (simp add: blocker_of_def)
    with find_SomeD [OF Some] show ?thesis by blast
  qed
  then show "b \<in> set (deciding rs)" and "incomplete b" by auto
  show "sr_kind b = Error" if "\<exists>r\<in>set (deciding rs). sr_kind r = Error"
  proof -
    from that have "\<exists>r\<in>set (filter incomplete (deciding rs)). sr_kind r = Error"
      by (auto simp: incomplete_def)
    with * show ?thesis by blast
  qed
qed

lemma top_detection_in: "top_detection d ds \<in> set (d # ds)"
  unfolding top_detection_def
  by (cases "find (\<lambda>r. sr_kind r = Malware) (d # ds)")
    (simp_all only: option.case list.set_intros find_SomeD)

lemma top_detection_malware:
  assumes "q \<in> set (d # ds)" and "sr_kind q = Malware"
  shows "sr_kind (top_detection d ds) = Malware"
proof (cases "find (\<lambda>r. sr_kind r = Malware) (d # ds)")
  case None
  with assms show ?thesis unfolding find_None_all by blast
next
  case (Some r)
  then show ?thesis using find_SomeD [OF Some] unfolding top_detection_def by (simp only: option.case)
qed

section \<open>The axis verdict as a maximum\<close>

text \<open>
  What counts towards an axis: every detection, and what kept a deciding scanner from reading
  the whole file. \<open>axis_ok\<close> excludes the one combination the reduction does not read, a
  \<open>malware\<close> word on an axis whose results are all scored.
\<close>

definition axis_kinds :: "scanner_result list \<Rightarrow> kind set" where
  "axis_kinds rs =
     insert Clean (sr_kind ` set (filter is_detection rs) \<union> sr_kind ` set (filter incomplete (deciding rs)))"

definition axis_ok :: "scanner_result list \<Rightarrow> bool" where
  "axis_ok rs \<longleftrightarrow> \<not> (list_all sr_scored rs \<and> list_ex (\<lambda>r. sr_kind r = Malware) rs)"

lemma finite_axis_kinds [simp]: "finite (axis_kinds rs)"
  by (simp add: axis_kinds_def)

lemma blocker_is_max:
  assumes none: "filter is_detection rs = []"
  shows "(case blocker_of rs of Some b \<Rightarrow> sr_kind b | None \<Rightarrow> Clean) = Max (axis_kinds rs)"
proof (cases "blocker_of rs")
  case None
  then have "filter incomplete (deciding rs) = []"
    by (simp add: blocker_of_None_iff filter_empty_conv)
  with none None show ?thesis by (simp add: axis_kinds_def)
next
  case (Some b)
  note b = blocker_of_SomeD [OF Some]
  have "Max (axis_kinds rs) = sr_kind b"
  proof (rule Max_eqI)
    show "sr_kind b \<in> axis_kinds rs" using b(1,2) by (auto simp: axis_kinds_def)
    fix k assume "k \<in> axis_kinds rs"
    with none have "k = Clean \<or> (\<exists>r\<in>set (deciding rs). incomplete r \<and> k = sr_kind r)"
      by (auto simp: axis_kinds_def)
    moreover have "(\<exists>r\<in>set (deciding rs). sr_kind r = Error) \<longrightarrow> sr_kind b = Error"
      using b(3) by blast
    ultimately show "k \<le> sr_kind b"
      using b(2) by (fastforce simp: incomplete_def less_eq_kind_def)
  qed simp
  with Some show ?thesis by simp
qed

lemma detection_is_max:
  assumes d: "r \<in> set rs" "is_detection r"
    and top: "(\<exists>q\<in>set rs. sr_kind q = Malware) \<longrightarrow> sr_kind r = Malware"
  shows "Max (axis_kinds rs) = sr_kind r"
proof (rule Max_eqI)
  show "sr_kind r \<in> axis_kinds rs" using d by (auto simp: axis_kinds_def)
  fix k assume k: "k \<in> axis_kinds rs"
  then consider "k = Clean" | q where "q \<in> set rs" "is_detection q" "k = sr_kind q"
    | q where "incomplete q" "k = sr_kind q"
    by (auto simp: axis_kinds_def)
  then show "k \<le> sr_kind r"
    using d(2) top by cases (fastforce simp: is_detection_def incomplete_def less_eq_kind_def)+
qed simp

lemma reduce_category_kind:
  assumes ok: "axis_ok rs"
  shows "cv_kind (reduce_category rs) = Max (axis_kinds rs)"
proof (cases "rs \<noteq> [] \<and> list_all sr_scored rs")
  case True
  with ok have nomal: "\<forall>r\<in>set rs. sr_kind r \<noteq> Malware"
    by (auto simp: axis_ok_def list_ex_iff)
  then have same: "filter is_detection rs = filter (\<lambda>r. sr_kind r = Flagged) rs"
    by (intro filter_cong) (auto simp: is_detection_def)
  show ?thesis
  proof (cases "filter (\<lambda>r. sr_kind r = Flagged) rs")
    case Nil
    with True same blocker_is_max [of rs] show ?thesis
      by (simp add: reduce_category_def Let_def split: option.splits)
  next
    case (Cons h hits)
    then have h: "h \<in> set (filter (\<lambda>r. sr_kind r = Flagged) rs)" by simp
    then have "Max (axis_kinds rs) = sr_kind h"
      using nomal h by (intro detection_is_max) (auto simp: is_detection_def)
    moreover have "sr_kind h = Flagged" using h by simp
    ultimately show ?thesis using Cons True by (simp add: reduce_category_def Let_def)
  qed
next
  case False
  show ?thesis
  proof (cases "filter is_detection rs")
    case Nil
    with False blocker_is_max [OF Nil] show ?thesis
      by (auto simp: reduce_category_def Let_def split: option.splits)
  next
    case (Cons d ds)
    let ?top = "top_detection d ds"
    have "?top \<in> set (filter is_detection rs)"
      unfolding Cons by (rule top_detection_in)
    moreover have "sr_kind ?top = Malware" if "q \<in> set rs" "sr_kind q = Malware" for q
    proof -
      from that have "q \<in> set (filter is_detection rs)" by (simp add: is_detection_def)
      then show ?thesis unfolding Cons using that(2) by (rule top_detection_malware)
    qed
    ultimately have "Max (axis_kinds rs) = sr_kind ?top"
      by (intro detection_is_max) auto
    with False Cons show ?thesis by (auto simp: reduce_category_def Let_def)
  qed
qed

text \<open>The four ways a category is decided.\<close>

lemma reduce_category_cases:
  obtains (flagged) r where "r \<in> set rs" "sr_kind r = Flagged"
      "cv_kind (reduce_category rs) = Flagged" "cv_reason (reduce_category rs) = sr_reason r"
      "cv_location (reduce_category rs) = JNull"
  | (detection) r where "r \<in> set rs" "is_detection r"
      "cv_kind (reduce_category rs) = sr_kind r" "cv_reason (reduce_category rs) = sr_reason r"
      "cv_location (reduce_category rs) = sr_location r"
  | (blocked) b where "blocker_of rs = Some b"
      "cv_kind (reduce_category rs) = sr_kind b" "cv_reason (reduce_category rs) = sr_reason b"
      "cv_location (reduce_category rs) = JNull"
  | (clean) "cv_kind (reduce_category rs) = Clean"
proof (cases "rs \<noteq> [] \<and> list_all sr_scored rs")
  case True
  show ?thesis
  proof (cases "filter (\<lambda>r. sr_kind r = Flagged) rs")
    case Nil
    with True show ?thesis
      by (cases "blocker_of rs") (simp_all add: reduce_category_def Let_def that)
  next
    case (Cons h hits)
    have "max_by score_key h hits \<in> set (filter (\<lambda>r. sr_kind r = Flagged) rs)"
      unfolding Cons by (rule max_by_in)
    moreover have "cv_kind (reduce_category rs) = Flagged \<and>
        cv_reason (reduce_category rs) = sr_reason (max_by score_key h hits) \<and>
        cv_location (reduce_category rs) = JNull"
      using True Cons by (simp add: reduce_category_def Let_def)
    ultimately show ?thesis by (intro that(1) [of "max_by score_key h hits"]) simp_all
  qed
next
  case False
  show ?thesis
  proof (cases "filter is_detection rs")
    case Nil
    with False show ?thesis
      by (cases "blocker_of rs") (auto simp add: reduce_category_def Let_def that)
  next
    case (Cons d ds)
    have "top_detection d ds \<in> set (filter is_detection rs)"
      unfolding Cons by (rule top_detection_in)
    moreover have "reduce_category rs = \<lparr>cv_kind = sr_kind (top_detection d ds),
        cv_reason = sr_reason (top_detection d ds), cv_score = None,
        cv_location = sr_location (top_detection d ds)\<rparr>"
      using False Cons by (auto simp: reduce_category_def Let_def)
    ultimately show ?thesis by (intro that(2) [of "top_detection d ds"]) simp_all
  qed
qed

lemma kind_Clean_iff: "sr_kind r = Clean \<longleftrightarrow> \<not> is_detection r \<and> \<not> incomplete r"
  by (cases "sr_kind r") (simp_all add: is_detection_def incomplete_def)

lemma Max_Clean_iff: "finite A \<Longrightarrow> Clean \<in> A \<Longrightarrow> Max A = Clean \<longleftrightarrow> A \<subseteq> {Clean}"
  using Max_ge [of A] Max_in [of A] Clean_le
  by (metis empty_iff insert_iff order_antisym singletonD subset_iff)

lemma axis_max_Clean_iff:
  "Max (axis_kinds rs) = Clean \<longleftrightarrow>
     (\<forall>r\<in>set rs. \<not> is_detection r) \<and> (\<forall>r\<in>set (deciding rs). \<not> incomplete r)"
proof -
  have "Clean \<in> axis_kinds rs" by (simp add: axis_kinds_def)
  then have "Max (axis_kinds rs) = Clean \<longleftrightarrow> axis_kinds rs \<subseteq> {Clean}"
    by (simp add: Max_Clean_iff)
  also have "\<dots> \<longleftrightarrow> (\<forall>r\<in>set rs. \<not> is_detection r) \<and> (\<forall>r\<in>set (deciding rs). \<not> incomplete r)"
    by (auto simp: axis_kinds_def image_subset_iff is_detection_def incomplete_def)
  finally show ?thesis .
qed

lemma reduce_clean_iff:
  assumes "axis_ok rs"
  shows "cv_kind (reduce_category rs) = Clean \<longleftrightarrow>
     (\<forall>r\<in>set rs. sr_kind r \<noteq> Malware \<and> sr_kind r \<noteq> Flagged) \<and> (\<forall>r\<in>set (deciding rs). sr_kind r = Clean)"
proof -
  have "cv_kind (reduce_category rs) = Clean \<longleftrightarrow>
      (\<forall>r\<in>set rs. \<not> is_detection r) \<and> (\<forall>r\<in>set (deciding rs). \<not> incomplete r)"
    using assms by (simp add: reduce_category_kind axis_max_Clean_iff)
  with deciding_subset [of rs] show ?thesis
    unfolding kind_Clean_iff is_detection_def by blast
qed

section \<open>What the report asserts\<close>

definition sample_result :: "string \<Rightarrow> kind \<Rightarrow> json \<Rightarrow> bool \<Rightarrow> bool \<Rightarrow> scanner_result" where
  "sample_result name k reason scored adv =
     \<lparr>sr_scanner = name, sr_category = ''malware'', sr_kind = k, sr_reason = reason,
      sr_score = None, sr_location = JNull, sr_time = 0, sr_scored = scored, sr_advisory = adv\<rparr>"

lemmas report_eval = sample_result_def verdicts_eq by_category_def group_add_def results_of_def
  reduce_category_def blocker_of_def top_detection_def deciding_def is_detection_def incomplete_def axis_ok_def
  axis_kinds_def detected_def dict_set_def Let_def

text \<open>C14: The verdict of every category that ran is decided by two rules and nothing else: the
  greatest word, in the order clean < partial < error < flagged < malware, among the detections
  of all the category's scanners and the failures of the deciding ones. The hypothesis excludes
  an axis on which every result is scored and one says \<open>malware\<close>.\<close>

theorem verdict_precedence_scope:
  assumes "c \<in> sr_category ` set rs" and "axis_ok (results_of c rs)"
  shows "\<exists>v. map_of (verdicts rs) c = Some v \<and> cv_kind v = Max (axis_kinds (results_of c rs))"
  using assms results_of_nonempty [of c rs] by (simp add: map_of_verdicts reduce_category_kind)

theorem verdict_precedence_scope_witness:
  "\<exists>v. map_of (verdicts [sample_result ''exav'' Error (JStr ''down'') False False,
                          sample_result ''clamav'' Malware (JStr ''Eicar'') False True]) ''malware'' = Some v
     \<and> cv_kind v = Malware"
proof -
  let ?rs = "[sample_result ''exav'' Error (JStr ''down'') False False,
              sample_result ''clamav'' Malware (JStr ''Eicar'') False True]"
  have "Max (axis_kinds (results_of ''malware'' ?rs)) = Malware"
    by (simp add: report_eval less_eq_kind_def max_def)
  then show ?thesis
    using verdict_precedence_scope [of "''malware''" ?rs]
    by (simp add: sample_result_def results_of_def axis_ok_def)
qed

text \<open>Strict aggregation. A category is reported clean exactly when no scanner at all, advisory
  or not, detected anything and every deciding scanner read the whole file and found nothing.\<close>

lemma clean_iff_all_deciding_clean:
  assumes "map_of (verdicts rs) c = Some v" and "axis_ok (results_of c rs)"
  shows "cv_kind v = Clean \<longleftrightarrow>
     (\<forall>r\<in>set (results_of c rs). sr_kind r \<noteq> Malware \<and> sr_kind r \<noteq> Flagged)
     \<and> (\<forall>r\<in>set (deciding (results_of c rs)). sr_kind r = Clean)"
  using assms reduce_clean_iff by (auto simp: map_of_verdicts split: if_splits)

lemma clean_iff_all_deciding_clean_example:
  "map_of (verdicts [sample_result ''exav'' Clean JNull False False,
                      sample_result ''clamav'' Partial (JStr ''LIMITS-EXCEEDED'') False True]) ''malware''
     = Some \<lparr>cv_kind = Clean, cv_reason = JNull, cv_score = None, cv_location = JNull\<rparr>"
proof -
  let ?rs = "[sample_result ''exav'' Clean JNull False False,
              sample_result ''clamav'' Partial (JStr ''LIMITS-EXCEEDED'') False True]"
  let ?v = "\<lparr>cv_kind = Clean, cv_reason = JNull, cv_score = None, cv_location = JNull\<rparr>"
  have v: "map_of (verdicts ?rs) ''malware'' = Some ?v" by (simp add: report_eval)
  have ok: "axis_ok (results_of ''malware'' ?rs)" by (simp add: report_eval)
  have "cv_kind ?v = Clean"
    unfolding clean_iff_all_deciding_clean [OF v ok] by (simp add: report_eval)
  with v show ?thesis by simp
qed

text \<open>The report counts as failed (\<open>503\<close>, or a retry of the job) exactly when some scanner ran,
  none detected anything and, in every category, every deciding scanner failed transiently.\<close>

lemma all_errored_iff:
  "all_errored rs \<longleftrightarrow> rs \<noteq> [] \<and> \<not> detected rs
     \<and> (\<forall>c. sr_kind ` set (deciding (results_of c rs)) \<subseteq> {Error})"
proof -
  have ne: "snd p \<noteq> []" if "p \<in> set (by_category rs)" for p
    using that by (metis by_category_mem prod.collapse)
  have "concat (map (deciding \<circ> snd) (by_category rs)) = [] \<longleftrightarrow> map fst (by_category rs) = []"
    using ne by (cases "by_category rs") auto
  then have e: "concat (map (deciding \<circ> snd) (by_category rs)) = [] \<longleftrightarrow> rs = []"
    unfolding keys_by_category by simp
  have "list_all (\<lambda>r. sr_kind r = Error) (concat (map (deciding \<circ> snd) (by_category rs)))
      \<longleftrightarrow> (\<forall>p\<in>set (by_category rs). sr_kind ` set (deciding (snd p)) \<subseteq> {Error})"
    by (auto simp: list_all_iff)
  also have "\<dots> \<longleftrightarrow> (\<forall>c. sr_kind ` set (deciding (results_of c rs)) \<subseteq> {Error})"
  proof (intro iffI allI ballI)
    fix c assume all: "\<forall>p\<in>set (by_category rs). sr_kind ` set (deciding (snd p)) \<subseteq> {Error}"
    show "sr_kind ` set (deciding (results_of c rs)) \<subseteq> {Error}"
    proof (cases "results_of c rs = []")
      case False
      then have "(c, results_of c rs) \<in> set (by_category rs)" by (simp add: by_category_mem)
      with all show ?thesis by fastforce
    qed (simp add: deciding_def)
  next
    fix p assume "\<forall>c. sr_kind ` set (deciding (results_of c rs)) \<subseteq> {Error}" "p \<in> set (by_category rs)"
    then show "sr_kind ` set (deciding (snd p)) \<subseteq> {Error}"
      by (cases p) (simp add: by_category_mem)
  qed
  finally show ?thesis using e by (simp add: all_errored_def Let_def)
qed

lemma all_errored_verdict:
  assumes "all_errored rs" and "map_of (verdicts rs) c = Some v"
  shows "cv_kind v = Error"
proof -
  let ?xs = "results_of c rs"
  from assms have ne: "?xs \<noteq> []" and v: "v = reduce_category ?xs"
    by (auto simp: map_of_verdicts split: if_splits)
  from assms(1) have nd: "\<forall>r\<in>set rs. \<not> is_detection r"
    and dec: "\<forall>r\<in>set (deciding ?xs). sr_kind r = Error"
    by (auto simp: all_errored_iff detected_def)
  have nd': "\<forall>r\<in>set ?xs. \<not> is_detection r" using nd by (simp add: results_of_def)
  then have ok: "axis_ok ?xs" by (auto simp: axis_ok_def list_ex_iff is_detection_def)
  from ne have "deciding ?xs \<noteq> []" by simp
  then obtain r where r: "r \<in> set (deciding ?xs)" by (cases "deciding ?xs") auto
  have "filter is_detection ?xs = []" using nd' by (simp add: filter_empty_conv)
  moreover have "sr_kind ` set (filter incomplete (deciding ?xs)) = {Error}"
    using dec r by (force simp: incomplete_def)
  ultimately have "axis_kinds ?xs = {Clean, Error}" by (simp add: axis_kinds_def)
  then show ?thesis
    using ok by (simp add: v reduce_category_kind less_eq_kind_def max_def)
qed

text \<open>A scanner that runs for information cannot soften or harden an axis by failing: next to
  a deciding result of an unscored category, a result of an advisory scanner that is not a
  detection, wherever it stands in the list, leaves the whole verdict (word, reason, location)
  as it was.\<close>

theorem advisory_failure_is_ignored:
  assumes adv: "sr_advisory a" "\<not> is_detection a"
    and dec: "list_ex (\<lambda>r. \<not> sr_advisory r) (xs @ ys)"
    and unscored: "list_ex (\<lambda>r. \<not> sr_scored r) (xs @ ys)"
  shows "reduce_category (xs @ a # ys) = reduce_category (xs @ ys)"
proof -
  have "filter (\<lambda>r. \<not> sr_advisory r) (xs @ ys) \<noteq> []"
    using dec by (simp add: list_ex_iff filter_empty_conv flip: filter_append)
  then have "deciding (xs @ a # ys) = deciding (xs @ ys)"
    using adv by (simp add: deciding_def Let_def)
  then have b: "blocker_of (xs @ a # ys) = blocker_of (xs @ ys)"
    by (simp add: blocker_of_def)
  have f: "filter is_detection (xs @ a # ys) = filter is_detection (xs @ ys)"
    using adv by simp
  have s: "\<not> list_all sr_scored (xs @ ys)" "\<not> list_all sr_scored (xs @ a # ys)"
    using unscored by (auto simp: list_ex_iff list_all_iff)
  show ?thesis
    unfolding reduce_category_def Let_def b f by (simp only: s simp_thms if_False)
qed

theorem advisory_failure_is_ignored_witness:
  "reduce_category [sample_result ''exav'' Clean JNull False False,
                    sample_result ''clamav'' Error (JStr ''down'') False True]
   = \<lparr>cv_kind = Clean, cv_reason = JNull, cv_score = None, cv_location = JNull\<rparr>"
proof -
  let ?e = "sample_result ''exav'' Clean JNull False False"
  have "reduce_category ([?e] @ sample_result ''clamav'' Error (JStr ''down'') False True # [])
      = reduce_category ([?e] @ [])"
    by (rule advisory_failure_is_ignored) (simp_all add: sample_result_def is_detection_def)
  then show ?thesis by (simp add: report_eval)
qed



text \<open>On an axis whose results are all scored, the reduction reads \<open>flagged\<close> only: a report
  that found malware (\<open>ScanReport.malware\<close> holds) can carry a clean verdict for the axis, which
  the documented rule that a detection counts from any scanner excludes.\<close>

lemma scored_axis_hides_malware:
  "\<exists>rs. report_malware rs \<and> (\<exists>v. map_of (verdicts rs) ''malware'' = Some v \<and> cv_kind v = Clean)"
proof -
  let ?rs = "[sample_result ''model'' Malware (JStr ''X'') True False]"
  have "report_malware ?rs" by (simp add: report_malware_def sample_result_def)
  moreover have "\<exists>v. map_of (verdicts ?rs) ''malware'' = Some v \<and> cv_kind v = Clean"
    by (simp add: report_eval)
  ultimately show ?thesis by blast
qed

end
