(* ===== verification/Config.thy ===== *)
theory Config
  imports Json
begin

text \<open>
  \<open>src/config.py\<close>: the settings record with the production defaults, the profiles, the order of
  the settings sources and the wrapper that hides the profile-only flags from the environment.
  Merging the sources and coercing a string to a field's type is pydantic-settings' work and a
  parameter here; what the source decides is which sources exist, in which order, and which keys
  the environment may not set.
\<close>

record settings =
  cfg_debug :: bool
  cfg_testing :: bool
  cfg_host :: string
  cfg_port :: int
  cfg_prometheus_api_key :: string
  cfg_default_scanners :: string
  cfg_default_categories :: string
  cfg_advisory_scanners :: string
  cfg_clamav_txt_uri :: string
  cfg_clamav_timeout :: int
  cfg_clamav_socket :: string
  cfg_clamav_hosts :: string
  cfg_exav_hosts :: string
  cfg_jcop_base_url :: string
  cfg_jcop_api_key :: string
  cfg_jcop_result_timeout :: int
  cfg_jcop_submit_timeout :: int
  cfg_jcop_poll_interval :: int
  cfg_jwt_signing_key :: string
  cfg_jwt_signing_kid :: string
  cfg_jwt_issuer :: string
  cfg_jwt_issuer_keys :: string
  cfg_jwt_audience :: string
  cfg_jwt_max_age :: int
  cfg_jwt_leeway :: int
  cfg_max_upload_size :: int
  cfg_max_url_size :: int
  cfg_download_dir :: string
  cfg_url_download_timeout :: int
  cfg_download_max_seconds :: int
  cfg_encryption_min_chunk_size :: int
  cfg_encryption_max_chunk_size :: int
  cfg_allowed_url_hosts :: string
  cfg_ssrf_allowed_hosts :: string
  cfg_webhook_timeout :: int
  cfg_webhook_max_attempts :: int
  cfg_worker_result_ttl :: int
  cfg_worker_dashboard_user :: string
  cfg_worker_dashboard_password :: string
  cfg_worker_dashboard_path :: string
  cfg_worker_dashboard_allowed_ips :: string
  cfg_worker_dashboard_forwarded_ip_header :: string
  cfg_worker_eager :: bool
  cfg_worker_broker_url :: string
  cfg_worker_queue_namespace :: string

text \<open>The field defaults of the class \<open>Settings\<close>.\<close>

definition default_settings :: settings where
  "default_settings = \<lparr>
     cfg_debug = False,
     cfg_testing = False,
     cfg_host = ''0.0.0.0'',
     cfg_port = 8090,
     cfg_prometheus_api_key = [],
     cfg_default_scanners = ''{\"malware\": [\"clamav\"]}'',
     cfg_default_categories = ''malware'',
     cfg_advisory_scanners = [],
     cfg_clamav_txt_uri = ''current.cvd.clamav.net'',
     cfg_clamav_timeout = 300,
     cfg_clamav_socket = [],
     cfg_clamav_hosts = ''localhost:3310'',
     cfg_exav_hosts = [],
     cfg_jcop_base_url = [],
     cfg_jcop_api_key = [],
     cfg_jcop_result_timeout = 30,
     cfg_jcop_submit_timeout = 600,
     cfg_jcop_poll_interval = 5,
     cfg_jwt_signing_key = [],
     cfg_jwt_signing_kid = [],
     cfg_jwt_issuer = ''file-scanner'',
     cfg_jwt_issuer_keys = [],
     cfg_jwt_audience = ''file-scanner'',
     cfg_jwt_max_age = 300,
     cfg_jwt_leeway = 60,
     cfg_max_upload_size = 100 * 1024 * 1024,
     cfg_max_url_size = 2 ^ 31 - 3,
     cfg_download_dir = ''/tmp/file-scanner'',
     cfg_url_download_timeout = 30,
     cfg_download_max_seconds = 300,
     cfg_encryption_min_chunk_size = 4096,
     cfg_encryption_max_chunk_size = 50 * 1024 * 1024,
     cfg_allowed_url_hosts = [],
     cfg_ssrf_allowed_hosts = [],
     cfg_webhook_timeout = 10,
     cfg_webhook_max_attempts = 3,
     cfg_worker_result_ttl = 0,
     cfg_worker_dashboard_user = [],
     cfg_worker_dashboard_password = [],
     cfg_worker_dashboard_path = ''/dashboard'',
     cfg_worker_dashboard_allowed_ips = [],
     cfg_worker_dashboard_forwarded_ip_header = [],
     cfg_worker_eager = False,
     cfg_worker_broker_url = ''redis://localhost:6379/0'',
     cfg_worker_queue_namespace = ''file-scanner''\<rparr>"

section \<open>Profiles\<close>

text \<open>The non-production profiles ignore the environment but for \<open>EXAV_HOSTS\<close>, which two of
  them read directly (\<open>exav_env\<close>, the empty string when unset).\<close>

definition test_config :: "string \<Rightarrow> settings" where
  "test_config exav_env = default_settings\<lparr>
     cfg_debug := True, cfg_testing := True, cfg_worker_eager := True,
     cfg_clamav_hosts := ''clamav:3310'', cfg_max_upload_size := 4999999,
     cfg_max_url_size := 4999999, cfg_exav_hosts := exav_env\<rparr>"

definition ci_config :: "string \<Rightarrow> settings" where
  "ci_config exav_env = default_settings\<lparr>
     cfg_debug := True, cfg_testing := True, cfg_worker_eager := True,
     cfg_clamav_hosts := ''localhost:3310'', cfg_max_upload_size := 4999999,
     cfg_max_url_size := 4999999, cfg_exav_hosts := exav_env\<rparr>"

definition local_config :: settings where
  "local_config = default_settings\<lparr>
     cfg_debug := True, cfg_testing := True, cfg_worker_eager := True,
     cfg_clamav_hosts := ''localhost:3310'', cfg_max_upload_size := 4999999,
     cfg_max_url_size := 4999999\<rparr>"

definition configs :: "settings \<Rightarrow> string \<Rightarrow> (string, settings) dict" where
  "configs production exav_env =
     [(''config.ProductionConfig'', production),
      (''config.TestConfig'', test_config exav_env),
      (''config.CiConfig'', ci_config exav_env),
      (''config.LocalConfig'', local_config)]"

text \<open>\<open>app_config\<close> is the environment's \<open>APP_CONFIG\<close>, \<open>None\<close> when it is unset.\<close>

definition get_settings :: "settings \<Rightarrow> string \<Rightarrow> string option \<Rightarrow> settings result" where
  "get_settings production exav_env app_config =
     (let config_name = (case app_config of None \<Rightarrow> ''config.ProductionConfig'' | Some n \<Rightarrow> n)
      in case map_of (configs production exav_env) config_name of
           Some s \<Rightarrow> Inr s
         | None \<Rightarrow> Inl (RuntimeError (''Unknown APP_CONFIG '' @ py_repr config_name @
             ''; expected one of '' @ repr_list (dict_keys (configs production exav_env)))))"

section \<open>Settings sources\<close>

definition profile_only :: "string list" where
  "profile_only = [''testing'', ''worker_eager'']"

definition drop_env_keys :: "string list \<Rightarrow> (string, 'v) dict \<Rightarrow> (string, 'v) dict" where
  "drop_env_keys hidden source = filter (\<lambda>(k, v). k \<notin> set hidden) source"

definition settings_sources ::
    "(string, 'v) dict \<Rightarrow> (string, 'v) dict \<Rightarrow> (string, 'v) dict \<Rightarrow> (string, 'v) dict \<Rightarrow> (string, 'v) dict list" where
  "settings_sources init env dotenv secrets = [init, drop_env_keys profile_only env, dotenv, secrets]"

definition static_sources ::
    "(string, 'v) dict \<Rightarrow> (string, 'v) dict \<Rightarrow> (string, 'v) dict \<Rightarrow> (string, 'v) dict \<Rightarrow> (string, 'v) dict list" where
  "static_sources init env dotenv secrets = [init]"

text \<open>
  The merge that pydantic-settings documents: a field takes its value from the first source that
  has it, else its default. \<open>merge\<close> is the library's function; \<open>merge_ok\<close> says so.
\<close>

definition merge_ok :: "((string, 'v) dict list \<Rightarrow> string \<Rightarrow> 'v option) \<Rightarrow> bool" where
  "merge_ok merge \<longleftrightarrow> (\<forall>sources k.
     merge sources k = (case filter (\<lambda>s. k \<in> fst ` set s) sources of [] \<Rightarrow> None | s # _ \<Rightarrow> map_of s k))"

definition field_value ::
    "((string, 'v) dict list \<Rightarrow> string \<Rightarrow> 'v option) \<Rightarrow> (string, 'v) dict list \<Rightarrow> string \<Rightarrow> 'v \<Rightarrow> 'v" where
  "field_value merge sources k dflt = (case merge sources k of Some v \<Rightarrow> v | None \<Rightarrow> dflt)"

lemma drop_env_keys_keys: "fst ` set (drop_env_keys hidden source) = fst ` set source - set hidden"
  by (force simp: drop_env_keys_def)

lemma map_of_drop_env_keys:
  "map_of (drop_env_keys hidden source) k = (if k \<in> set hidden then None else map_of source k)"
  by (induction source) (auto simp: drop_env_keys_def)

text \<open>C40: No environment variable can change a profile-only flag of the production settings: with
  nothing for the field in the explicit arguments, the dotenv file or the secrets, the field keeps
  its default whatever the environment holds, and every other field still reads the environment.\<close>

theorem profile_flags_ignore_environment:
  assumes "merge_ok merge" and "k \<notin> fst ` set init" "k \<notin> fst ` set dotenv" "k \<notin> fst ` set secrets"
  shows "field_value merge (settings_sources init env dotenv secrets) k dflt =
     (if k = ''testing'' \<or> k = ''worker_eager'' then dflt
      else case map_of env k of Some v \<Rightarrow> v | None \<Rightarrow> dflt)"
proof -
  have none: "map_of d k = None" if "k \<notin> fst ` set d" for d :: "(string, 'a) dict"
    using that by (simp add: map_of_eq_None_iff)
  show ?thesis
    using assms none
    by (auto simp: merge_ok_def field_value_def settings_sources_def drop_env_keys_keys
        map_of_drop_env_keys profile_only_def split: option.splits)
qed

definition first_source :: "(string, json) dict list \<Rightarrow> string \<Rightarrow> json option" where
  "first_source sources k = (case filter (\<lambda>s. k \<in> fst ` set s) sources of [] \<Rightarrow> None | s # _ \<Rightarrow> map_of s k)"

theorem profile_flags_ignore_environment_witness:
  "field_value first_source
     (settings_sources [] [(''testing'', JBool True), (''port'', JInt 1)] [] []) ''testing'' (JBool False)
   = JBool False
   \<and> field_value first_source
     (settings_sources [] [(''testing'', JBool True), (''port'', JInt 1)] [] []) ''port'' (JInt 8090) = JInt 1"
proof -
  have "merge_ok first_source" by (simp add: merge_ok_def first_source_def)
  from profile_flags_ignore_environment [OF this, of "''testing''" "[]" "[]" "[]"]
    profile_flags_ignore_environment [OF this, of "''port''" "[]" "[]" "[]"]
  show ?thesis by simp
qed

end
