(* ===== verification/Registry.thy ===== *)
theory Registry
  imports Verdicts Config "HOL-Library.Word"
begin

text \<open>
  The scanner registry and request resolution of \<open>src/scanner.py\<close>: the cached construction of
  backends (\<open>get_scanner\<close> over \<open>_BUILDERS\<close> and \<open>_cache\<close>), the category map, the union of
  \<open>categories\<close> and \<open>scanners\<close> (\<open>resolve_scanners\<close>), the advisory role, the size guard and the
  fail-fast boot check \<open>validate_registry\<close>. The module's mutable \<open>_cache\<close> is threaded through
  every function that may fill it. \<open>json.loads\<close> is the parameter \<open>loads\<close>.
\<close>

definition clamav_max_file_bytes :: int where
  "clamav_max_file_bytes = 2 ^ 31 - 3"

record version_info =
  vi_actual :: "string option"
  vi_required :: "string option"
  vi_outdated :: bool

text \<open>
  A \<open>Scanner\<close> object: its class attributes and its three methods. A method's value is what the
  call at hand gives, the engine's answer included; \<open>version\<close> is asked again and again, so its
  value is given for every moment of \<open>time.monotonic\<close>.
\<close>

record scanner =
  sc_category :: string
  sc_scored :: bool
  sc_ping :: "bool result"
  sc_scan :: "8 word list \<Rightarrow> verdict result"
  sc_version :: "rat \<Rightarrow> version_info option result"

section \<open>The registry and its cache\<close>

text \<open>\<open>_BUILDERS\<close>: public name to builder, the builder being what it gives or raises
  (\<open>RuntimeError\<close> for a backend that is not configured). \<open>_cache\<close>: the scanners built so far.\<close>

type_synonym builders = "(string, scanner result) dict"
type_synonym cache = "(string, scanner) dict"
type_synonym 'a reg = "cache \<Rightarrow> 'a result \<times> cache"

definition reg_lift :: "'a result \<Rightarrow> 'a reg" where
  "reg_lift r = (\<lambda>c. (r, c))"

definition reg_bind :: "'a reg \<Rightarrow> ('a \<Rightarrow> 'b reg) \<Rightarrow> 'b reg" where
  "reg_bind m f = (\<lambda>c. case m c of (Inl e, c') \<Rightarrow> (Inl e, c') | (Inr x, c') \<Rightarrow> f x c')"

text \<open>\<open>try: m; except RuntimeError as exc: raise f(exc)\<close>.\<close>

definition reg_catch_runtime :: "'a reg \<Rightarrow> (string \<Rightarrow> exn) \<Rightarrow> 'a reg" where
  "reg_catch_runtime m f =
     (\<lambda>c. case m c of (Inl (RuntimeError s), c') \<Rightarrow> (Inl (f s), c') | (r, c') \<Rightarrow> (r, c'))"

fun reg_each :: "('a \<Rightarrow> 'b reg) \<Rightarrow> 'a list \<Rightarrow> 'b list reg" where
  "reg_each f [] = reg_lift (Inr [])"
| "reg_each f (x # xs) =
     reg_bind (f x) (\<lambda>y. reg_bind (reg_each f xs) (\<lambda>ys. reg_lift (Inr (y # ys))))"

definition get_scanner :: "builders \<Rightarrow> string \<Rightarrow> scanner reg" where
  "get_scanner builders name =
     (\<lambda>cache. case map_of cache name of
        Some s \<Rightarrow> (Inr s, cache)
      | None \<Rightarrow>
          (case map_of builders name of
             None \<Rightarrow> (Inl (KeyError (py_repr name)), cache)
           | Some (Inl e) \<Rightarrow> (Inl e, cache)
           | Some (Inr s) \<Rightarrow> (Inr s, dict_set name s cache)))"

section \<open>Reading the configuration\<close>

text \<open>
  \<open>list(names)\<close> of one value of the map: the elements of a list, the keys of an object, the
  characters of a string; anything else raises. An engine name that is not a string is carried as
  its printed form, which no builder has as its name (one that cannot be a dictionary key raises).
\<close>

fun json_name :: "json \<Rightarrow> string result" where
  "json_name (JStr s) = Inr s"
| "json_name (JInt i) = Inr (show_int i)"
| "json_name (JBool b) = Inr (if b then ''True'' else ''False'')"
| "json_name JNull = Inr ''None''"
| "json_name (JFloat q) = Inr ''float''"
| "json_name (JList _) = Inl (TypeError ''unhashable type: 'list' '')"
| "json_name (JObj _) = Inl (TypeError ''unhashable type: 'dict' '')"

fun collect :: "('a \<Rightarrow> 'b result) \<Rightarrow> 'a list \<Rightarrow> 'b list result" where
  "collect f [] = Inr []"
| "collect f (x # xs) = rbind (f x) (\<lambda>y. rbind (collect f xs) (\<lambda>ys. Inr (y # ys)))"

fun json_names :: "json \<Rightarrow> string list result" where
  "json_names (JList xs) = collect json_name xs"
| "json_names (JStr s) = Inr (map (\<lambda>ch. [ch]) s)"
| "json_names (JObj d) = Inr (map fst d)"
| "json_names _ = Inl (TypeError ''object is not iterable'')"

definition category_map :: "(string \<Rightarrow> json result) \<Rightarrow> settings \<Rightarrow> (string, string list) dict result" where
  "category_map loads cfg =
     (let raw = str_strip (cfg_default_scanners cfg) in
      if raw = [] then Inr []
      else case loads raw of
          Inl (JSONDecodeError m) \<Rightarrow>
            Inl (RuntimeError (''DEFAULT_SCANNERS must be JSON {category: [scanners]}: '' @ m))
        | Inl e \<Rightarrow> Inl e
        | Inr (JObj d) \<Rightarrow> collect (\<lambda>(cat, v). rbind (json_names v) (\<lambda>ns. Inr (cat, ns))) d
        | Inr _ \<Rightarrow> Inl (RuntimeError ''DEFAULT_SCANNERS must be a JSON object {category: [scanners]}''))"

definition default_categories :: "settings \<Rightarrow> string list" where
  "default_categories cfg = split_csv (cfg_default_categories cfg)"

definition advisory_scanners :: "settings \<Rightarrow> string list" where
  "advisory_scanners cfg = split_csv (cfg_advisory_scanners cfg)"

definition deciding_scanners :: "settings \<Rightarrow> string list \<Rightarrow> string list" where
  "deciding_scanners cfg names =
     (let xs = filter (\<lambda>n. n \<notin> set (advisory_scanners cfg)) names in if xs = [] then names else xs)"

section \<open>Resolving a request\<close>

definition unknown_category :: "(string, string list) dict \<Rightarrow> string \<Rightarrow> string" where
  "unknown_category m cat =
     ''unknown category '' @ py_repr cat @ ''; available: '' @ repr_list (sort (map fst m))"

definition unknown_scanner :: "builders \<Rightarrow> string \<Rightarrow> string" where
  "unknown_scanner builders name =
     ''unknown scanner '' @ py_repr name @ ''; available: '' @ repr_list (sort (map fst builders))"

fun expand_categories :: "(string, string list) dict \<Rightarrow> string list \<Rightarrow> string list result" where
  "expand_categories m [] = Inr []"
| "expand_categories m (cat # cats) =
     (case map_of m cat of
        None \<Rightarrow> Inl (ValueError (unknown_category m cat))
      | Some ns \<Rightarrow> rbind (expand_categories m cats) (\<lambda>ms. Inr (ns @ ms)))"

definition check_scanner :: "builders \<Rightarrow> string \<Rightarrow> scanner reg" where
  "check_scanner builders name =
     (if name \<notin> fst ` set builders then reg_lift (Inl (ValueError (unknown_scanner builders name)))
      else reg_catch_runtime (get_scanner builders name)
             (\<lambda>m. ValueError (''scanner '' @ py_repr name @ '' is not available: '' @ m)))"

text \<open>\<open>None\<close> and the empty list select alike: nothing.\<close>

definition opt_list :: "'a list option \<Rightarrow> 'a list" where
  "opt_list xs = (case xs of None \<Rightarrow> [] | Some ys \<Rightarrow> ys)"

definition resolve_scanners ::
    "(string \<Rightarrow> json result) \<Rightarrow> settings \<Rightarrow> builders \<Rightarrow> string list option \<Rightarrow> string list option \<Rightarrow> string list reg" where
  "resolve_scanners loads cfg builders categories scanners =
     reg_bind (reg_lift (category_map loads cfg)) (\<lambda>m.
       let cats = (if opt_list categories = [] \<and> opt_list scanners = [] then default_categories cfg
                   else opt_list categories)
       in reg_bind (reg_lift (expand_categories m cats)) (\<lambda>ns.
            let deduped = from_keys (ns @ opt_list scanners)
            in if deduped = [] then
                 reg_lift (Inl (ValueError
                   ''no scanners selected (DEFAULT_CATEGORIES / DEFAULT_SCANNERS empty?)''))
               else reg_bind (reg_each (check_scanner builders) deduped)
                      (\<lambda>_. reg_lift (Inr deduped))))"

definition assert_size_cap_decidable :: "settings \<Rightarrow> string list \<Rightarrow> int \<Rightarrow> string \<Rightarrow> unit result" where
  "assert_size_cap_decidable cfg names cap cap_name =
     (if clamav_max_file_bytes < cap \<and> ''clamav'' \<in> set (deciding_scanners cfg names) then
        Inl (ValueError (''clamav cannot decide a scan with '' @ cap_name @ '' above '' @
          show_int clamav_max_file_bytes @ '' bytes: name a deciding engine next to it''))
      else Inr ())"

section \<open>The boot check\<close>

definition validate_engine :: "builders \<Rightarrow> string \<Rightarrow> string \<Rightarrow> unit reg" where
  "validate_engine builders cat name =
     (if name \<notin> fst ` set builders then
        reg_lift (Inl (RuntimeError (''DEFAULT_SCANNERS['' @ py_repr cat @ ''] names '' @
          unknown_scanner builders name)))
      else reg_bind
        (reg_catch_runtime (get_scanner builders name)
           (\<lambda>m. RuntimeError (''scanner '' @ py_repr name @ '' in DEFAULT_SCANNERS['' @ py_repr cat @
              ''] is not configured: '' @ m)))
        (\<lambda>s. reg_lift
           (if sc_category s \<noteq> cat then
              Inl (RuntimeError (''scanner '' @ py_repr name @ '' declares category '' @
                py_repr (sc_category s) @ '' but is listed under '' @ py_repr cat @
                '' in DEFAULT_SCANNERS''))
            else Inr ())))"

definition validate_category :: "builders \<Rightarrow> string \<times> string list \<Rightarrow> unit reg" where
  "validate_category builders = (\<lambda>(cat, names).
     if names = [] then
       reg_lift (Inl (RuntimeError (''DEFAULT_SCANNERS['' @ py_repr cat @ ''] is empty'')))
     else reg_bind (reg_each (validate_engine builders cat) names) (\<lambda>_.
       reg_bind (reg_each (get_scanner builders) names) (\<lambda>ss.
         reg_lift
           (if 1 < length (remdups (map sc_scored ss)) then
              Inl (RuntimeError (''DEFAULT_SCANNERS['' @ py_repr cat @ ''] mixes scored and '' @
                ''unscored scanners; a category must be a single axis type''))
            else Inr ()))))"

definition validate_default_category :: "(string, string list) dict \<Rightarrow> string \<Rightarrow> unit result" where
  "validate_default_category m cat =
     (if cat \<notin> fst ` set m then
        Inl (RuntimeError (''DEFAULT_CATEGORIES names '' @ py_repr cat @
          '', absent from DEFAULT_SCANNERS (configured: '' @ repr_list (sort (map fst m)) @ '')''))
      else Inr ())"

definition validate_advisory :: "builders \<Rightarrow> string \<Rightarrow> unit result" where
  "validate_advisory builders name =
     (if name \<notin> fst ` set builders then
        Inl (RuntimeError (''ADVISORY_SCANNERS names '' @ unknown_scanner builders name))
      else Inr ())"

definition clamav_decides :: "settings \<Rightarrow> (string, string list) dict \<Rightarrow> bool" where
  "clamav_decides cfg m \<longleftrightarrow> list_ex (\<lambda>(c, names). ''clamav'' \<in> set (deciding_scanners cfg names)) m"

definition validate_cap :: "settings \<Rightarrow> (string, string list) dict \<Rightarrow> string \<times> int \<Rightarrow> unit result" where
  "validate_cap cfg m = (\<lambda>(cap_name, cap).
     if clamav_max_file_bytes < cap \<and> clamav_decides cfg m then
       Inl (RuntimeError (cap_name @ '' ('' @ show_int cap @ '') is above what clamav can scan ('' @
         show_int clamav_max_file_bytes @ '' bytes): lower it, or drop clamav from DEFAULT_SCANNERS '' @
         ''or make it advisory (exav streams any size)''))
     else Inr ())"

definition validate_registry :: "(string \<Rightarrow> json result) \<Rightarrow> settings \<Rightarrow> builders \<Rightarrow> unit reg" where
  "validate_registry loads cfg builders =
     reg_bind (reg_lift (category_map loads cfg)) (\<lambda>m.
       reg_bind (reg_each (validate_category builders) m) (\<lambda>_.
         reg_lift
           (rbind (for_each (validate_default_category m) (default_categories cfg)) (\<lambda>_.
            rbind (for_each (validate_advisory builders) (advisory_scanners cfg)) (\<lambda>_.
            for_each (validate_cap cfg m)
              [(''MAX_URL_SIZE'', cfg_max_url_size cfg), (''MAX_UPLOAD_SIZE'', cfg_max_upload_size cfg)])))))"

section \<open>The cache does not show\<close>

text \<open>
  What a computation over the cache promises: started from a cache that satisfies \<open>ok\<close> it gives
  \<open>r\<close>, whatever that cache holds, and leaves a cache that satisfies \<open>ok\<close>.
\<close>

definition reg_agrees :: "(cache \<Rightarrow> bool) \<Rightarrow> 'a reg \<Rightarrow> 'a result \<Rightarrow> bool" where
  "reg_agrees ok m r \<longleftrightarrow> (\<forall>c. ok c \<longrightarrow> fst (m c) = r \<and> ok (snd (m c)))"

named_theorems agrees \<open>agreement of cached computations with their cacheless reading\<close>

lemma reg_agreesI: "(\<And>c. ok c \<Longrightarrow> fst (m c) = r \<and> ok (snd (m c))) \<Longrightarrow> reg_agrees ok m r"
  by (simp add: reg_agrees_def)

lemma reg_agreesD: "reg_agrees ok m r \<Longrightarrow> ok c \<Longrightarrow> \<exists>c'. m c = (r, c') \<and> ok c'"
  by (cases "m c") (auto simp: reg_agrees_def)

lemma reg_agrees_fst: "reg_agrees ok m r \<Longrightarrow> ok c \<Longrightarrow> fst (m c) = r"
  and reg_agrees_snd: "reg_agrees ok m r \<Longrightarrow> ok c \<Longrightarrow> ok (snd (m c))"
  by (simp_all add: reg_agrees_def)

lemma agrees_lift [agrees]: "reg_agrees ok (reg_lift r) r"
  by (simp add: reg_agrees_def reg_lift_def)

lemma agrees_bind [agrees]:
  assumes "reg_agrees ok m r" and "\<And>x. reg_agrees ok (f x) (g x)"
  shows "reg_agrees ok (reg_bind m f) (rbind r g)"
proof (rule reg_agreesI)
  fix c assume "ok c"
  with assms(1) obtain c' where "m c = (r, c')" "ok c'" by (blast dest: reg_agreesD)
  then show "fst (reg_bind m f c) = rbind r g \<and> ok (snd (reg_bind m f c))"
    using assms(2) by (cases r) (auto simp: reg_bind_def reg_agrees_def)
qed

text \<open>The cacheless reading of the \<open>try\<close> clause.\<close>

definition catch_runtime :: "'a result \<Rightarrow> (string \<Rightarrow> exn) \<Rightarrow> 'a result" where
  "catch_runtime r f = (case r of Inl (RuntimeError s) \<Rightarrow> Inl (f s) | _ \<Rightarrow> r)"

lemma agrees_catch [agrees]:
  assumes "reg_agrees ok m r"
  shows "reg_agrees ok (reg_catch_runtime m f) (catch_runtime r f)"
proof (rule reg_agreesI)
  fix c assume "ok c"
  with assms obtain c' where "m c = (r, c')" "ok c'" by (blast dest: reg_agreesD)
  then show "fst (reg_catch_runtime m f c) = catch_runtime r f \<and> ok (snd (reg_catch_runtime m f c))"
    by (cases r) (auto simp: reg_catch_runtime_def catch_runtime_def split: exn.splits)
qed

lemma agrees_each [agrees]:
  assumes "\<And>x. reg_agrees ok (f x) (g x)"
  shows "reg_agrees ok (reg_each f xs) (collect g xs)"
proof (induction xs)
  case (Cons x xs)
  then show ?case
    by (simp only: reg_each.simps collect.simps) (intro agrees_bind agrees_lift assms)
qed (simp add: agrees_lift)

lemma agrees_if:
  "reg_agrees ok m r \<Longrightarrow> reg_agrees ok m' r' \<Longrightarrow>
   reg_agrees ok (if b then m else m') (if b then r else r')"
  by simp

lemma collect_Inr_iff:
  "collect f xs = Inr ys \<longleftrightarrow> list_all2 (\<lambda>x y. f x = Inr y) xs ys"
  by (induction xs arbitrary: ys) (auto simp: rbind_Inr_iff list_all2_Cons1)

text \<open>
  The contract of a memo table: every cache that satisfies \<open>ok\<close> answers like the reference
  \<open>build\<close> and keeps satisfying \<open>ok\<close>. The clients of \<open>get_scanner\<close> below are proved against it.
\<close>

locale memo =
  fixes ok :: "cache \<Rightarrow> bool"
    and get :: "string \<Rightarrow> scanner reg"
    and build :: "string \<Rightarrow> scanner result"
  assumes get_build: "ok c \<Longrightarrow> fst (get n c) = build n"
    and get_ok: "ok c \<Longrightarrow> ok (snd (get n c))"
begin

lemma get_agrees: "reg_agrees ok (get n) (build n)"
  by (rule reg_agreesI) (simp add: get_build get_ok)

lemma all_agree: "reg_agrees ok (reg_each get ns) (collect build ns)"
  by (rule agrees_each) (rule get_agrees)

lemma twice:
  assumes "ok c"
  shows "fst (get n (snd (get n' c))) = build n"
  by (rule get_build) (rule get_ok [OF assms])

end

definition cache_ok :: "builders \<Rightarrow> cache \<Rightarrow> bool" where
  "cache_ok builders c \<longleftrightarrow> (\<forall>n s. map_of c n = Some s \<longrightarrow> map_of builders n = Some (Inr s))"

definition build :: "builders \<Rightarrow> string \<Rightarrow> scanner result" where
  "build builders name = (case map_of builders name of None \<Rightarrow> Inl (KeyError (py_repr name)) | Some r \<Rightarrow> r)"

lemma cache_ok_Nil [simp]: "cache_ok builders []"
  by (simp add: cache_ok_def)

interpretation scanners: memo "cache_ok builders" "get_scanner builders" "build builders" for builders
proof unfold_locales
  fix c n assume ok: "cache_ok builders c"
  show "fst (get_scanner builders n c) = build builders n"
    using ok by (auto simp: get_scanner_def build_def cache_ok_def split: option.splits sum.splits)
  show "cache_ok builders (snd (get_scanner builders n c))"
    using ok by (auto simp: get_scanner_def cache_ok_def map_of_dict_set split: option.splits sum.splits)
qed

definition check_build :: "builders \<Rightarrow> string \<Rightarrow> scanner result" where
  "check_build builders name =
     (if name \<notin> fst ` set builders then Inl (ValueError (unknown_scanner builders name))
      else catch_runtime (build builders name)
             (\<lambda>m. ValueError (''scanner '' @ py_repr name @ '' is not available: '' @ m)))"

lemma check_agrees: "reg_agrees (cache_ok builders) (check_scanner builders name) (check_build builders name)"
  unfolding check_scanner_def check_build_def
  by (intro agrees_if agrees scanners.get_agrees)

lemma catch_runtime_Inr [simp]: "catch_runtime r f = Inr x \<longleftrightarrow> r = Inr x"
  by (auto simp: catch_runtime_def split: sum.splits exn.splits)

lemma build_Inr_iff: "build builders n = Inr s \<longleftrightarrow> map_of builders n = Some (Inr s)"
  by (auto simp: build_def split: option.splits)

lemma check_build_Inr: "check_build builders n = Inr s \<longleftrightarrow> map_of builders n = Some (Inr s)"
  by (force simp: check_build_def build_Inr_iff dest: map_of_SomeD)

lemma collect_ex: "(\<exists>ys. collect f xs = Inr ys) \<longleftrightarrow> (\<forall>x\<in>set xs. \<exists>y. f x = Inr y)"
  by (induction xs) (auto simp: rbind_Inr_iff)

lemma expand_Inr_iff:
  "expand_categories m cats = Inr ns \<longleftrightarrow>
     set cats \<subseteq> fst ` set m \<and> ns = concat (map (\<lambda>c. the (map_of m c)) cats)"
proof (induction m cats arbitrary: ns rule: expand_categories.induct)
  case (2 m cat cats)
  show ?case
  proof (cases "map_of m cat")
    case None
    then have "cat \<notin> fst ` set m" by (simp add: map_of_eq_None_iff)
    with None show ?thesis by simp
  next
    case (Some xs)
    then have "cat \<in> fst ` set m" by (metis map_of_eq_None_iff option.simps(3))
    with Some show ?thesis by (auto simp: rbind_Inr_iff "2.IH")
  qed
qed auto

text \<open>The cacheless reading of \<open>resolve_scanners\<close>, and of the boot check below.\<close>

definition request_categories :: "settings \<Rightarrow> string list option \<Rightarrow> string list option \<Rightarrow> string list" where
  "request_categories cfg categories scanners =
     (if opt_list categories = [] \<and> opt_list scanners = [] then default_categories cfg
      else opt_list categories)"

definition resolve_build ::
    "(string \<Rightarrow> json result) \<Rightarrow> settings \<Rightarrow> builders \<Rightarrow> string list option \<Rightarrow> string list option \<Rightarrow> string list result" where
  "resolve_build loads cfg builders categories scanners =
     rbind (category_map loads cfg) (\<lambda>m.
      rbind (expand_categories m (request_categories cfg categories scanners)) (\<lambda>ns.
      if from_keys (ns @ opt_list scanners) = [] then
        Inl (ValueError ''no scanners selected (DEFAULT_CATEGORIES / DEFAULT_SCANNERS empty?)'')
      else rbind (collect (check_build builders) (from_keys (ns @ opt_list scanners)))
             (\<lambda>_. Inr (from_keys (ns @ opt_list scanners)))))"

lemma resolve_agrees:
  "reg_agrees (cache_ok builders) (resolve_scanners loads cfg builders categories scanners)
     (resolve_build loads cfg builders categories scanners)"
  unfolding resolve_scanners_def resolve_build_def request_categories_def Let_def
  by (intro agrees_bind agrees_lift agrees_if agrees_each check_agrees)

definition engine_build :: "builders \<Rightarrow> string \<Rightarrow> string \<Rightarrow> unit result" where
  "engine_build builders cat name =
     (if name \<notin> fst ` set builders then
        Inl (RuntimeError (''DEFAULT_SCANNERS['' @ py_repr cat @ ''] names '' @
          unknown_scanner builders name))
      else rbind
        (catch_runtime (build builders name)
           (\<lambda>m. RuntimeError (''scanner '' @ py_repr name @ '' in DEFAULT_SCANNERS['' @ py_repr cat @
              ''] is not configured: '' @ m)))
        (\<lambda>s. if sc_category s \<noteq> cat then
              Inl (RuntimeError (''scanner '' @ py_repr name @ '' declares category '' @
                py_repr (sc_category s) @ '' but is listed under '' @ py_repr cat @
                '' in DEFAULT_SCANNERS''))
            else Inr ()))"

definition category_build :: "builders \<Rightarrow> string \<times> string list \<Rightarrow> unit result" where
  "category_build builders = (\<lambda>(cat, names).
     if names = [] then
       Inl (RuntimeError (''DEFAULT_SCANNERS['' @ py_repr cat @ ''] is empty''))
     else rbind (collect (engine_build builders cat) names) (\<lambda>_.
       rbind (collect (build builders) names) (\<lambda>ss.
         if 1 < length (remdups (map sc_scored ss)) then
              Inl (RuntimeError (''DEFAULT_SCANNERS['' @ py_repr cat @ ''] mixes scored and '' @
                ''unscored scanners; a category must be a single axis type''))
            else Inr ())))"

lemma engine_agrees: "reg_agrees (cache_ok builders) (validate_engine builders cat name) (engine_build builders cat name)"
  unfolding validate_engine_def engine_build_def
  by (intro agrees_if agrees scanners.get_agrees)

lemma category_agrees: "reg_agrees (cache_ok builders) (validate_category builders e) (category_build builders e)"
  unfolding validate_category_def category_build_def prod.case_eq_if
  by (intro agrees_if agrees scanners.get_agrees engine_agrees)

definition validate_build :: "(string \<Rightarrow> json result) \<Rightarrow> settings \<Rightarrow> builders \<Rightarrow> unit result" where
  "validate_build loads cfg builders =
     rbind (category_map loads cfg) (\<lambda>m.
      rbind (collect (category_build builders) m) (\<lambda>_.
      rbind (for_each (validate_default_category m) (default_categories cfg)) (\<lambda>_.
      rbind (for_each (validate_advisory builders) (advisory_scanners cfg)) (\<lambda>_.
      for_each (validate_cap cfg m)
        [(''MAX_URL_SIZE'', cfg_max_url_size cfg), (''MAX_UPLOAD_SIZE'', cfg_max_upload_size cfg)]))))"

lemma validate_agrees:
  "reg_agrees (cache_ok builders) (validate_registry loads cfg builders) (validate_build loads cfg builders)"
  unfolding validate_registry_def validate_build_def
  by (intro agrees category_agrees)

definition named_scanners :: "(string, string list) dict \<Rightarrow> string list \<Rightarrow> string list" where
  "named_scanners m cats = concat (map (\<lambda>c. the (map_of m c)) cats)"

lemma check_builds_ex:
  "(\<exists>ys. collect (check_build builders) xs = Inr ys) \<longleftrightarrow> (\<forall>n\<in>set xs. \<exists>s. map_of builders n = Some (Inr s))"
  by (simp add: collect_ex check_build_Inr)

lemma resolve_build_Inr_iff:
  assumes "category_map loads cfg = Inr m"
  shows "resolve_build loads cfg builders categories scanners = Inr ns \<longleftrightarrow>
     ns = from_keys (named_scanners m (request_categories cfg categories scanners) @ opt_list scanners)
     \<and> ns \<noteq> [] \<and> set (request_categories cfg categories scanners) \<subseteq> fst ` set m
     \<and> (\<forall>n\<in>set ns. \<exists>s. map_of builders n = Some (Inr s))"
proof (cases "set (request_categories cfg categories scanners) \<subseteq> fst ` set m")
  case True
  let ?all = "from_keys (named_scanners m (request_categories cfg categories scanners) @ opt_list scanners)"
  have "expand_categories m (request_categories cfg categories scanners)
      = Inr (named_scanners m (request_categories cfg categories scanners))"
    using True by (simp add: expand_Inr_iff named_scanners_def)
  then have "resolve_build loads cfg builders categories scanners = Inr ns \<longleftrightarrow>
      ?all \<noteq> [] \<and> (\<exists>ys. collect (check_build builders) ?all = Inr ys) \<and> ns = ?all"
    by (auto simp: resolve_build_def assms rbind_Inr_iff)
  then show ?thesis unfolding check_builds_ex using True by metis
next
  case False
  then have "expand_categories m (request_categories cfg categories scanners) \<noteq> Inr xs" for xs
    by (simp add: expand_Inr_iff)
  then show ?thesis
    using False by (simp add: resolve_build_def assms rbind_Inr_iff)
qed

text \<open>What the boot check requires of one entry of the category map.\<close>

definition category_entry_ok :: "builders \<Rightarrow> string \<times> string list \<Rightarrow> bool" where
  "category_entry_ok builders = (\<lambda>(cat, names). names \<noteq> []
     \<and> (\<forall>n\<in>set names. \<exists>s. map_of builders n = Some (Inr s) \<and> sc_category s = cat)
     \<and> (\<exists>b. \<forall>n\<in>set names. \<forall>s. map_of builders n = Some (Inr s) \<longrightarrow> sc_scored s = b))"

lemma engine_build_Inr:
  "engine_build builders cat n = Inr u \<longleftrightarrow> (\<exists>s. map_of builders n = Some (Inr s) \<and> sc_category s = cat)"
  by (force simp: engine_build_def rbind_Inr_iff build_Inr_iff dest: map_of_SomeD)

lemma one_axis_type: "1 < length (remdups xs) \<longleftrightarrow> \<not> (\<exists>b. set xs \<subseteq> {b})"
proof -
  have "length (remdups xs) = card (set xs)" by (simp add: length_remdups_card_conv)
  moreover have "card (set xs) \<le> 1 \<longleftrightarrow> (\<exists>b. set xs \<subseteq> {b})"
    by (cases xs) (auto simp: card_le_Suc0_iff_eq)
  ultimately show ?thesis by (metis not_le)
qed

lemma category_build_Inr: "category_build builders e = Inr u \<longleftrightarrow> category_entry_ok builders e"
proof (cases e)
  case (Pair cat names)
  have each: "(\<exists>ys. collect (engine_build builders cat) names = Inr ys) \<longleftrightarrow>
      (\<forall>n\<in>set names. \<exists>s. map_of builders n = Some (Inr s) \<and> sc_category s = cat)"
    by (simp add: collect_ex engine_build_Inr)
  show ?thesis
  proof (cases "\<forall>n\<in>set names. \<exists>s. map_of builders n = Some (Inr s) \<and> sc_category s = cat")
    case True
    define sc where "sc n = (THE s. map_of builders n = Some (Inr s))" for n
    have sc: "map_of builders n = Some (Inr (sc n))" if "n \<in> set names" for n
      using that True by (auto simp: sc_def)
    then have "collect (build builders) names = Inr (map sc names)"
      by (simp add: collect_Inr_iff list_all2_conv_all_nth build_Inr_iff)
    moreover from True each obtain ys where "collect (engine_build builders cat) names = Inr ys" by blast
    moreover have "(\<forall>n\<in>set names. \<forall>s. map_of builders n = Some (Inr s) \<longrightarrow> sc_scored s = b) \<longleftrightarrow>
        set (map sc_scored (map sc names)) \<subseteq> {b}" for b
      using sc by (simp add: image_subset_iff)
    ultimately have "category_build builders e = Inr u \<longleftrightarrow> names \<noteq> [] \<and>
        (\<exists>b. \<forall>n\<in>set names. \<forall>s. map_of builders n = Some (Inr s) \<longrightarrow> sc_scored s = b)"
      by (simp add: Pair category_build_def one_axis_type image_image del: One_nat_def)
    then show ?thesis using True by (simp add: Pair category_entry_ok_def)
  next
    case False
    with each show ?thesis
      by (auto simp: Pair category_build_def category_entry_ok_def rbind_Inr_iff)
  qed
qed

lemma default_category_Inr: "validate_default_category m c = Inr u \<longleftrightarrow> c \<in> fst ` set m"
  by (simp add: validate_default_category_def)

lemma advisory_Inr: "validate_advisory b n = Inr u \<longleftrightarrow> n \<in> fst ` set b"
  by (simp add: validate_advisory_def)

lemma cap_Inr: "validate_cap cfg m (s, cap) = Inr u \<longleftrightarrow> cap \<le> clamav_max_file_bytes \<or> \<not> clamav_decides cfg m"
  by (auto simp: validate_cap_def)

lemma validate_build_Inr_iff:
  assumes "category_map loads cfg = Inr m"
  shows "validate_build loads cfg builders = Inr () \<longleftrightarrow>
     (\<forall>e\<in>set m. category_entry_ok builders e)
     \<and> set (default_categories cfg) \<subseteq> fst ` set m
     \<and> set (advisory_scanners cfg) \<subseteq> fst ` set builders
     \<and> (max (cfg_max_url_size cfg) (cfg_max_upload_size cfg) \<le> clamav_max_file_bytes \<or> \<not> clamav_decides cfg m)"
proof -
  have "(\<exists>us. collect (category_build builders) m = Inr us) \<longleftrightarrow> (\<forall>e\<in>set m. category_entry_ok builders e)"
    by (simp add: collect_ex category_build_Inr)
  then show ?thesis
    by (auto simp: validate_build_def assms rbind_Inr_iff for_each_Inr_iff default_category_Inr
        advisory_Inr cap_Inr)
qed

lemma from_keys_answer:
  "ns = from_keys xs \<and> ns \<noteq> [] \<and> A \<and> (\<forall>n\<in>set ns. P n) \<longleftrightarrow>
   ns = from_keys xs \<and> distinct ns \<and> set ns = set xs \<and> set xs \<noteq> {} \<and> A \<and> set xs \<subseteq> {n. P n}"
  by (cases "ns = from_keys xs") auto

text \<open>C25: A request resolves exactly when every category it names (or the default ones when it
  names nothing) is configured, the union of those categories' engines and of the engines it
  names is not empty and every engine of that union exists and is configured here; the answer is
  that union, in first-seen order and without duplicates.\<close>

theorem resolve_scanners_exactly:
  assumes "cache_ok builders c" and "category_map loads cfg = Inr m"
  shows "fst (resolve_scanners loads cfg builders categories scanners c) = Inr ns \<longleftrightarrow>
    (let cats = request_categories cfg categories scanners;
         all = (\<Union>k\<in>set cats. set (the (map_of m k))) \<union> set (opt_list scanners)
     in ns = from_keys (named_scanners m cats @ opt_list scanners)
        \<and> distinct ns \<and> set ns = all \<and> all \<noteq> {} \<and> set cats \<subseteq> fst ` set m
        \<and> all \<subseteq> {n. \<exists>s. map_of builders n = Some (Inr s)})"
proof -
  let ?cats = "request_categories cfg categories scanners"
  let ?ns = "from_keys (named_scanners m ?cats @ opt_list scanners)"
  have s: "(\<Union>k\<in>set ?cats. set (the (map_of m k))) \<union> set (opt_list scanners) = set ?ns"
    by (simp add: named_scanners_def)
  show ?thesis
    unfolding reg_agrees_fst [OF resolve_agrees assms(1)] resolve_build_Inr_iff [OF assms(2)] Let_def s
      set_from_keys by (rule from_keys_answer)
qed

definition sample_scanner :: "string \<Rightarrow> scanner" where
  "sample_scanner cat = \<lparr>sc_category = cat, sc_scored = False, sc_ping = Inr True,
     sc_scan = (\<lambda>_. Inr clean), sc_version = (\<lambda>_. Inr None)\<rparr>"

definition sample_builders :: builders where
  "sample_builders = [(''clamav'', Inr (sample_scanner ''malware'')),
     (''exav'', Inr (sample_scanner ''malware'')), (''jcop'', Inl (RuntimeError ''jcop is not configured''))]"

text \<open>\<open>json.loads\<close> on the two literals the samples use.\<close>

definition sample_loads :: "string \<Rightarrow> json result" where
  "sample_loads s =
     (if s = ''{\"malware\": [\"exav\", \"clamav\"]}''
      then Inr (JObj [(''malware'', JList [JStr ''exav'', JStr ''clamav''])])
      else Inl (JSONDecodeError ''Expecting value''))"

definition sample_cfg :: settings where
  "sample_cfg = default_settings\<lparr>cfg_default_scanners := ''{\"malware\": [\"exav\", \"clamav\"]}'',
     cfg_default_categories := ''malware'', cfg_advisory_scanners := ''clamav''\<rparr>"

lemma sample_category_map:
  "category_map sample_loads sample_cfg = Inr [(''malware'', [''exav'', ''clamav''])]"
  by (simp add: category_map_def sample_cfg_def sample_loads_def str_strip_def is_space_def Let_def)

theorem resolve_scanners_exactly_witness:
  "fst (resolve_scanners sample_loads sample_cfg sample_builders (Some [''malware'']) (Some [''exav'']) [])
     = Inr [''exav'', ''clamav'']"
proof -
  have "request_categories sample_cfg (Some [''malware'']) (Some [''exav'']) = [''malware'']"
    by (simp add: request_categories_def opt_list_def)
  moreover have "from_keys [''exav'', ''clamav'', ''exav''] = [''exav'', ''clamav'']"
    by (simp add: from_keys_def)
  moreover have "{''exav'', ''clamav'', ''exav''} \<subseteq> {n. \<exists>s. map_of sample_builders n = Some (Inr s)}"
    by (simp add: sample_builders_def)
  ultimately show ?thesis
    unfolding resolve_scanners_exactly [OF cache_ok_Nil sample_category_map]
    by (simp add: opt_list_def named_scanners_def Let_def from_keys_id)
qed

text \<open>The scanner cache is only a cache: whatever scanners earlier calls built, resolving a
  request and checking the configuration give the same answer or the same error, and every cache
  they leave is one of scanners the builders give.\<close>

theorem registry_cache_is_transparent:
  assumes "cache_ok builders c" and "cache_ok builders d"
  shows "fst (resolve_scanners loads cfg builders categories scanners c)
           = fst (resolve_scanners loads cfg builders categories scanners d)
    \<and> fst (validate_registry loads cfg builders c) = fst (validate_registry loads cfg builders d)
    \<and> cache_ok builders (snd (resolve_scanners loads cfg builders categories scanners c))
    \<and> cache_ok builders (snd (validate_registry loads cfg builders c))"
  by (simp add: assms reg_agrees_fst [OF resolve_agrees] reg_agrees_fst [OF validate_agrees]
      reg_agrees_snd [OF resolve_agrees] reg_agrees_snd [OF validate_agrees])

theorem registry_cache_is_transparent_witness:
  "fst (resolve_scanners sample_loads sample_cfg sample_builders None (Some [''exav'']) [])
     = fst (resolve_scanners sample_loads sample_cfg sample_builders None (Some [''exav''])
         [(''exav'', sample_scanner ''malware'')])"
  by (rule registry_cache_is_transparent [THEN conjunct1])
     (simp_all add: cache_ok_def sample_builders_def)

text \<open>The boot check is complete: on a deployment it accepts, every request that names only
  configured categories, and every request that names nothing when a default category is set,
  resolves, without duplicates and only to engines that are configured and declare one of the
  requested categories.\<close>

lemma accepted_registry_serves_its_categories:
  assumes "cache_ok builders c" "cache_ok builders d"
    and ok: "fst (validate_registry loads cfg builders c) = Inr ()"
    and m: "category_map loads cfg = Inr m"
    and cats: "set cats \<subseteq> fst ` set m" "cats \<noteq> [] \<or> default_categories cfg \<noteq> []"
  shows "\<exists>ns. fst (resolve_scanners loads cfg builders (Some cats) None d) = Inr ns
    \<and> distinct ns \<and> ns \<noteq> []
    \<and> set ns \<subseteq> {n. \<exists>s. map_of builders n = Some (Inr s)
         \<and> sc_category s \<in> set (request_categories cfg (Some cats) None)}"
proof -
  let ?cats = "request_categories cfg (Some cats) None"
  let ?ns = "from_keys (named_scanners m ?cats)"
  note valid = ok [unfolded reg_agrees_fst [OF validate_agrees assms(1)] validate_build_Inr_iff [OF m]]
  have sub: "set ?cats \<subseteq> fst ` set m"
    using cats(1) valid by (simp add: request_categories_def opt_list_def)
  have ne: "?cats \<noteq> []" using cats(2) by (simp add: request_categories_def opt_list_def)
  have k: "the (map_of m k) \<noteq> [] \<and> (\<forall>n\<in>set (the (map_of m k)).
      \<exists>s. map_of builders n = Some (Inr s) \<and> sc_category s = k)" if "k \<in> set ?cats" for k
  proof -
    from that sub have "k \<in> fst ` set m" by (rule subsetD [rotated])
    then obtain xs where xs: "map_of m k = Some xs" by (metis map_of_eq_None_iff not_None_eq)
    with valid have "category_entry_ok builders (k, xs)" by (blast dest: map_of_SomeD)
    with xs show ?thesis by (simp add: category_entry_ok_def)
  qed
  define ks where "ks = ?cats"
  have "\<forall>n\<in>set ?ns. \<exists>s. map_of builders n = Some (Inr s) \<and> sc_category s \<in> set ?cats"
    using k unfolding ks_def [symmetric] by (fastforce simp: named_scanners_def)
  moreover from k ne have "named_scanners m ?cats \<noteq> []"
    unfolding ks_def [symmetric] by (cases ks) (auto simp: named_scanners_def)
  ultimately show ?thesis
    unfolding reg_agrees_fst [OF resolve_agrees assms(2)] resolve_build_Inr_iff [OF m] ks_def [symmetric]
    using sub [folded ks_def] by (intro exI [of _ "from_keys (named_scanners m ks)"]) (auto simp: opt_list_def)
qed

lemma sample_accepted: "fst (validate_registry sample_loads sample_cfg sample_builders []) = Inr ()"
proof -
  have "category_entry_ok sample_builders (''malware'', [''exav'', ''clamav''])"
    by (simp add: category_entry_ok_def sample_builders_def sample_scanner_def)
       (rule exI [of _ False], simp)
  moreover have "default_categories sample_cfg = [''malware'']"
    by (simp add: default_categories_def sample_cfg_def split_csv_def str_strip_def is_space_def Let_def)
  moreover have "advisory_scanners sample_cfg = [''clamav'']"
    by (simp add: advisory_scanners_def sample_cfg_def split_csv_def str_strip_def is_space_def Let_def)
  moreover have "max (cfg_max_url_size sample_cfg) (cfg_max_upload_size sample_cfg) \<le> clamav_max_file_bytes"
    by (simp add: sample_cfg_def default_settings_def clamav_max_file_bytes_def)
  ultimately show ?thesis
    unfolding reg_agrees_fst [OF validate_agrees cache_ok_Nil] validate_build_Inr_iff [OF sample_category_map]
    by (simp add: sample_builders_def)
qed

lemma accepted_registry_serves_its_categories_example:
  "\<exists>ns. fst (resolve_scanners sample_loads sample_cfg sample_builders (Some [''malware'']) None []) = Inr ns
    \<and> set ns \<subseteq> {''exav'', ''clamav''}"
proof -
  from accepted_registry_serves_its_categories
      [OF cache_ok_Nil cache_ok_Nil sample_accepted sample_category_map, of "[''malware'']"]
  obtain ns where "fst (resolve_scanners sample_loads sample_cfg sample_builders (Some [''malware'']) None []) = Inr ns"
    "set ns \<subseteq> {n. \<exists>s. map_of sample_builders n = Some (Inr s)
       \<and> sc_category s \<in> set (request_categories sample_cfg (Some [''malware'']) None)}"
    by auto
  then show ?thesis
    by (intro exI [of _ ns]) (auto simp: sample_builders_def split: if_splits)
qed

lemma deciding_scanners_mem:
  "n \<in> set (deciding_scanners cfg names) \<longleftrightarrow>
     n \<in> set names \<and> (n \<in> set (advisory_scanners cfg) \<longrightarrow> set names \<subseteq> set (advisory_scanners cfg))"
  by (auto simp: deciding_scanners_def Let_def filter_empty_conv)

text \<open>The size guard has no hole on the category path: on a deployment the boot check accepts
  with a size limit above what clamav can scan, clamav decides no category, and every selection
  made of categories passes the per-request check at that limit and any other.\<close>

lemma accepted_size_limit_is_decidable:
  assumes c: "cache_ok builders c"
    and ok: "fst (validate_registry loads cfg builders c) = Inr ()"
    and m: "category_map loads cfg = Inr m"
    and cap: "clamav_max_file_bytes < max (cfg_max_url_size cfg) (cfg_max_upload_size cfg)"
    and cats: "set cats \<subseteq> dom (map_of m)"
  shows "(\<lambda>e. ''clamav'' \<in> set (deciding_scanners cfg (snd e))) ` set m \<subseteq> {False}
    \<and> assert_size_cap_decidable cfg (from_keys (named_scanners m cats)) any_cap any_name = Inr ()"
proof -
  have "\<not> clamav_decides cfg m"
    using ok [unfolded reg_agrees_fst [OF validate_agrees c] validate_build_Inr_iff [OF m]] cap by auto
  then have no: "''clamav'' \<notin> set (deciding_scanners cfg ns)" if "(k, ns) \<in> set m" for k ns
    using that by (auto simp: clamav_decides_def list_ex_iff)
  have "''clamav'' \<notin> set (deciding_scanners cfg (from_keys (named_scanners m cats)))"
  proof
    assume d: "''clamav'' \<in> set (deciding_scanners cfg (from_keys (named_scanners m cats)))"
    then obtain k ns where k: "k \<in> set cats" "map_of m k = Some ns" "''clamav'' \<in> set ns"
      using cats by (force simp: deciding_scanners_mem named_scanners_def)
    then have "set ns \<subseteq> set (named_scanners m cats)" by (force simp: named_scanners_def)
    with d k(3) have "''clamav'' \<in> set (deciding_scanners cfg ns)"
      by (auto simp: deciding_scanners_mem)
    with no k(2) show False by (blast dest: map_of_SomeD)
  qed
  with no show ?thesis by (auto simp: assert_size_cap_decidable_def)
qed

definition sample_big_cfg :: settings where
  "sample_big_cfg = sample_cfg\<lparr>cfg_max_url_size := 2 ^ 32\<rparr>"

lemma sample_big_accepted:
  "category_map sample_loads sample_big_cfg = Inr [(''malware'', [''exav'', ''clamav''])]"
  "fst (validate_registry sample_loads sample_big_cfg sample_builders []) = Inr ()"
proof -
  show m: "category_map sample_loads sample_big_cfg = Inr [(''malware'', [''exav'', ''clamav''])]"
    using sample_category_map by (simp add: category_map_def sample_big_cfg_def)
  have e: "category_entry_ok sample_builders (''malware'', [''exav'', ''clamav''])"
    "set (default_categories sample_cfg) \<subseteq> {''malware''}"
    "set (advisory_scanners sample_cfg) \<subseteq> fst ` set sample_builders"
    using sample_accepted
    unfolding reg_agrees_fst [OF validate_agrees cache_ok_Nil] validate_build_Inr_iff [OF sample_category_map]
    by simp_all
  have a: "advisory_scanners sample_cfg = [''clamav'']"
    by (simp add: advisory_scanners_def sample_cfg_def split_csv_def str_strip_def is_space_def Let_def)
  have s: "default_categories sample_big_cfg = default_categories sample_cfg"
    "advisory_scanners sample_big_cfg = advisory_scanners sample_cfg"
    by (simp_all add: sample_big_cfg_def default_categories_def advisory_scanners_def)
  have "\<not> clamav_decides sample_big_cfg [(''malware'', [''exav'', ''clamav''])]"
    by (simp add: clamav_decides_def deciding_scanners_mem s a)
  with e s show "fst (validate_registry sample_loads sample_big_cfg sample_builders []) = Inr ()"
    unfolding reg_agrees_fst [OF validate_agrees cache_ok_Nil] validate_build_Inr_iff [OF m] by simp
qed

lemma accepted_size_limit_is_decidable_example:
  "assert_size_cap_decidable sample_big_cfg
     (from_keys (named_scanners [(''malware'', [''exav'', ''clamav''])] [''malware''])) (2 ^ 32) ''MAX_URL_SIZE'' = Inr ()"
  by (rule accepted_size_limit_is_decidable
        [OF cache_ok_Nil sample_big_accepted(2) sample_big_accepted(1), THEN conjunct2])
     (simp_all add: sample_big_cfg_def clamav_max_file_bytes_def)

end
