(* ===== verification/Metrics.thy ===== *)
theory Metrics
  imports Registry
begin

text \<open>
  \<open>src/metrics.py\<close>: the counters and gauges as association lists keyed by their label values, the
  recording of one result and the rate-limited refresh of the signature gauges. The process
  registry is the record \<open>metrics\<close>, threaded through; \<open>time.monotonic\<close> is the argument \<open>now\<close>.
\<close>

record metrics =
  mt_scans :: "(string \<times> string \<times> string \<times> string, nat) dict"
  mt_durations :: "(string \<times> string, rat list) dict"
  mt_outdated :: "(string, int) dict"
  mt_version :: "(string, rat) dict"
  mt_last_refresh :: rat

definition initial_metrics :: metrics where
  "initial_metrics = \<lparr>mt_scans = [], mt_durations = [], mt_outdated = [], mt_version = [], mt_last_refresh = 0\<rparr>"

definition signature_refresh_ttl :: rat where
  "signature_refresh_ttl = 300"

text \<open>\<open>SCANS.labels(...).inc()\<close> and \<open>SCAN_DURATION.labels(...).observe(...)\<close>: a child of no
  sample yet counts from zero; the histogram keeps its observations.\<close>

definition scans_at :: "metrics \<Rightarrow> string \<times> string \<times> string \<times> string \<Rightarrow> nat" where
  "scans_at m l = (case map_of (mt_scans m) l of None \<Rightarrow> 0 | Some n \<Rightarrow> n)"

definition durations_at :: "metrics \<Rightarrow> string \<times> string \<Rightarrow> rat list" where
  "durations_at m l = (case map_of (mt_durations m) l of None \<Rightarrow> [] | Some ts \<Rightarrow> ts)"

definition scan_labels :: "string \<Rightarrow> scanner_result \<Rightarrow> string \<times> string \<times> string \<times> string" where
  "scan_labels api_client r = (sr_scanner r, sr_category r, kind_str (sr_kind r), api_client)"

definition record_scan :: "scanner_result \<Rightarrow> string \<Rightarrow> metrics \<Rightarrow> metrics" where
  "record_scan r api_client m =
     m\<lparr>mt_scans := dict_set (scan_labels api_client r) (Suc (scans_at m (scan_labels api_client r))) (mt_scans m),
       mt_durations := dict_set (sr_scanner r, api_client)
          (durations_at m (sr_scanner r, api_client) @ [sr_time r]) (mt_durations m)\<rparr>"

lemma scans_at_record:
  "scans_at (record_scan r client m) l = scans_at m l + (if l = scan_labels client r then 1 else 0)"
  by (simp add: scans_at_def record_scan_def map_of_dict_set)

lemma durations_at_record:
  "durations_at (record_scan r client m) l =
     durations_at m l @ (if l = (sr_scanner r, client) then [sr_time r] else [])"
  by (simp add: durations_at_def record_scan_def map_of_dict_set)

section \<open>Signature freshness\<close>

text \<open>
  One name of the loop of \<open>refresh_signatures\<close>, from what \<open>get_scanner(name).version()\<close> gave;
  \<open>to_float\<close> is \<open>float\<close> on a string (\<open>None\<close>: \<open>ValueError\<close>; \<open>float(None)\<close> is a \<open>TypeError\<close>).
\<close>

definition refresh_one ::
    "(string \<Rightarrow> rat option) \<Rightarrow> string \<Rightarrow> version_info option result \<Rightarrow> metrics \<Rightarrow> metrics" where
  "refresh_one to_float name answer m =
     (case answer of
        Inl _ \<Rightarrow> m
      | Inr None \<Rightarrow> m
      | Inr (Some info) \<Rightarrow>
          (let m1 = m\<lparr>mt_outdated := dict_set name (if vi_outdated info then 1 else 0) (mt_outdated m)\<rparr>
           in case Option.bind (vi_actual info) to_float of
                None \<Rightarrow> m1
              | Some q \<Rightarrow> m1\<lparr>mt_version := dict_set name q (mt_version m1)\<rparr>))"

text \<open>\<open>get_scanner\<close> is passed in, as in the code; its cache is threaded through the loop.\<close>

fun refresh_all ::
    "(string \<Rightarrow> rat option) \<Rightarrow> (string \<Rightarrow> scanner reg) \<Rightarrow> rat \<Rightarrow> string list \<Rightarrow> cache \<times> metrics \<Rightarrow> cache \<times> metrics" where
  "refresh_all to_float get now [] s = s"
| "refresh_all to_float get now (name # names) (c, m) =
     (case get name c of
        (r, c') \<Rightarrow> refresh_all to_float get now names (c', refresh_one to_float name (rbind r (\<lambda>s. sc_version s now)) m))"

definition refresh_signatures ::
    "(string \<Rightarrow> rat option) \<Rightarrow> (string \<Rightarrow> scanner reg) \<Rightarrow> string list \<Rightarrow> rat \<Rightarrow> cache \<times> metrics \<Rightarrow> cache \<times> metrics" where
  "refresh_signatures to_float get names now = (\<lambda>(c, m).
     if now - mt_last_refresh m < signature_refresh_ttl then (c, m)
     else refresh_all to_float get now names (c, m\<lparr>mt_last_refresh := now\<rparr>))"

lemma refresh_one_keeps [simp]:
  "mt_last_refresh (refresh_one f n a m) = mt_last_refresh m"
  "mt_scans (refresh_one f n a m) = mt_scans m"
  "mt_durations (refresh_one f n a m) = mt_durations m"
  by (simp_all add: refresh_one_def Let_def split: sum.splits option.splits)

lemma refresh_all_keeps [simp]:
  "mt_last_refresh (snd (refresh_all f get now names s)) = mt_last_refresh (snd s)"
  "mt_scans (snd (refresh_all f get now names s)) = mt_scans (snd s)"
  "mt_durations (snd (refresh_all f get now names s)) = mt_durations (snd s)"
  by (induction f get now names s rule: refresh_all.induct) (simp_all split: prod.splits)

end
