(* ===== verification/Run_Scanners.thy ===== *)
theory Run_Scanners
  imports Metrics
begin

text \<open>
  \<open>run_scanners\<close> of \<open>src/scanner.py\<close>: every named scanner gets its own handle on the file, a
  failure of one becomes a result of its own and each result is recorded. The pool runs the
  scanners concurrently; here they run in the order of the names, which is the order of the
  results, and \<open>Scanner_Pool\<close> shows that every schedule of the threads amounts to that.
  The interface of a backend is the locale \<open>scan_backend\<close>; the three backends interpret it.
\<close>

type_synonym scan_state = "cache \<times> metrics"

text \<open>Kind, reason, score and location from what \<open>scanner.scan(fh)\<close> gave.\<close>

definition scan_outcome :: "verdict result \<Rightarrow> kind \<times> json \<times> rat option \<times> json" where
  "scan_outcome r =
     (case r of
        Inr v \<Rightarrow> (v_kind v, v_reason v, v_score v, v_location v)
      | Inl (ScannerError s) \<Rightarrow> (Error, JStr s, None, JNull)
      | Inl e \<Rightarrow> (Error, JStr (''internal error: '' @ exn_str e), None, JNull))"

text \<open>The result of one scanner: \<open>open_file\<close> gives the bytes the handle opened for that scanner
  reads, \<open>dur\<close> the time its scan takes.\<close>

definition scan_result ::
    "settings \<Rightarrow> (string \<Rightarrow> 8 word list result) \<Rightarrow> (string \<Rightarrow> rat) \<Rightarrow> string \<Rightarrow> scanner \<Rightarrow> scanner_result" where
  "scan_result cfg open_file dur name s =
     (case scan_outcome (rbind (open_file name) (sc_scan s)) of
        (k, reason, score, location) \<Rightarrow>
          \<lparr>sr_scanner = name, sr_category = sc_category s, sr_kind = k, sr_reason = reason,
           sr_score = score, sr_location = location, sr_time = dur name, sr_scored = sc_scored s,
           sr_advisory = name \<in> set (advisory_scanners cfg)\<rparr>)"

definition scan_one ::
    "settings \<Rightarrow> builders \<Rightarrow> (string \<Rightarrow> 8 word list result) \<Rightarrow> (string \<Rightarrow> rat) \<Rightarrow> string
      \<Rightarrow> string \<Rightarrow> scan_state \<Rightarrow> scanner_result result \<times> scan_state" where
  "scan_one cfg builders open_file dur api_client name = (\<lambda>(c, m).
     case get_scanner builders name c of
       (Inl e, c') \<Rightarrow> (Inl e, (c', m))
     | (Inr s, c') \<Rightarrow>
         (let r = scan_result cfg open_file dur name s in (Inr r, (c', record_scan r api_client m))))"

text \<open>\<open>pool.map\<close>: every scanner runs; the first exception, in the order of the names, is raised
  when the results are collected.\<close>

fun pool_map :: "('a \<Rightarrow> 's \<Rightarrow> 'b result \<times> 's) \<Rightarrow> 'a list \<Rightarrow> 's \<Rightarrow> 'b result list \<times> 's" where
  "pool_map f [] s = ([], s)"
| "pool_map f (x # xs) s =
     (case f x s of (r, s') \<Rightarrow> (case pool_map f xs s' of (rs, s'') \<Rightarrow> (r # rs, s'')))"

definition run_scanners ::
    "settings \<Rightarrow> builders \<Rightarrow> string list \<Rightarrow> (string \<Rightarrow> 8 word list result) \<Rightarrow> (string \<Rightarrow> rat) \<Rightarrow> string
      \<Rightarrow> scan_state \<Rightarrow> report result \<times> scan_state" where
  "run_scanners cfg builders names open_file dur api_client s =
     (if length names = 1 then
        (case scan_one cfg builders open_file dur api_client (hd names) s of
           (r, s') \<Rightarrow> (rbind r (\<lambda>x. Inr [x]), s'))
      else if names = [] then (Inl (ValueError ''max_workers must be greater than 0''), s)
      else (case pool_map (scan_one cfg builders open_file dur api_client) names s of
              (rs, s') \<Rightarrow> (collect (\<lambda>r. r) rs, s')))"

section \<open>The contract of a backend\<close>

text \<open>
  \<open>scan e\<close> is what the backend's \<open>scan\<close> gives when its engine answers \<open>e\<close>; \<open>examined e\<close> says
  that the answer states the whole file was examined and found clean, \<open>accused e\<close> that it states
  a detection.
\<close>

locale scan_backend =
  fixes scan :: "'e \<Rightarrow> verdict result"
    and examined :: "'e \<Rightarrow> bool"
    and accused :: "'e \<Rightarrow> bool"
  assumes clean_iff: "(\<exists>v. scan e = Inr v \<and> v_kind v = Clean) \<longleftrightarrow> examined e"
    and malware_iff: "(\<exists>v. scan e = Inr v \<and> v_kind v = Malware) \<longleftrightarrow> accused e"
    and words: "scan e = Inr v \<Longrightarrow> v_kind v = Clean \<or> v_kind v = Malware \<or> v_kind v = Partial"
begin

lemma outcome_clean: "fst (scan_outcome (scan e)) = Clean \<longleftrightarrow> examined e"
  using clean_iff [of e] by (auto simp: scan_outcome_def split: sum.splits exn.splits)

lemma outcome_malware: "fst (scan_outcome (scan e)) = Malware \<longleftrightarrow> accused e"
  using malware_iff [of e] by (auto simp: scan_outcome_def split: sum.splits exn.splits)

lemma outcome_error: "fst (scan_outcome (scan e)) = Error \<longleftrightarrow> (\<exists>x. scan e = Inl x)"
  using words [of e] by (auto simp: scan_outcome_def split: sum.splits exn.splits)

lemma not_flagged: "fst (scan_outcome (scan e)) \<noteq> Flagged"
  using words [of e] by (auto simp: scan_outcome_def split: sum.splits exn.splits)

lemma exclusive: "\<not> (examined e \<and> accused e)"
  using outcome_clean [of e] outcome_malware [of e] by auto

end

section \<open>Isolation\<close>

lemma scan_one_built:
  assumes "cache_ok builders c" and "map_of builders name = Some (Inr s)"
  shows "\<exists>c'. cache_ok builders c' \<and> scan_one cfg builders open_file dur client name (c, m) =
    (Inr (scan_result cfg open_file dur name s), (c', record_scan (scan_result cfg open_file dur name s) client m))"
proof -
  obtain c' where "get_scanner builders name c = (Inr s, c')" "cache_ok builders c'"
    using reg_agreesD [OF scanners.get_agrees assms(1), of name] assms(2) by (auto simp: build_def)
  then show ?thesis by (auto simp: scan_one_def Let_def)
qed

definition record_all :: "string \<Rightarrow> scanner_result list \<Rightarrow> metrics \<Rightarrow> metrics" where
  "record_all client rs m = fold (\<lambda>r. record_scan r client) rs m"

definition scan_results ::
    "settings \<Rightarrow> builders \<Rightarrow> (string \<Rightarrow> 8 word list result) \<Rightarrow> (string \<Rightarrow> rat) \<Rightarrow> string list \<Rightarrow> scanner_result list" where
  "scan_results cfg builders open_file dur names =
     map (\<lambda>n. scan_result cfg open_file dur n (projr (build builders n))) names"

lemma pool_map_built:
  assumes "cache_ok builders c" and "set names \<subseteq> {n. \<exists>s. map_of builders n = Some (Inr s)}"
  shows "\<exists>c'. cache_ok builders c' \<and>
    pool_map (scan_one cfg builders open_file dur client) names (c, m) =
      (map Inr (scan_results cfg builders open_file dur names),
       (c', record_all client (scan_results cfg builders open_file dur names) m))"
  using assms
proof (induction names arbitrary: c m)
  case (Cons n ns)
  then obtain s where s: "map_of builders n = Some (Inr s)" by auto
  let ?r = "scan_result cfg open_file dur n s"
  obtain c1 where c1: "cache_ok builders c1"
    "scan_one cfg builders open_file dur client n (c, m) = (Inr ?r, (c1, record_scan ?r client m))"
    using scan_one_built [OF Cons.prems(1) s] by blast
  from Cons.IH [OF c1(1), of "record_scan ?r client m"] Cons.prems(2)
  obtain c2 where "cache_ok builders c2"
    "pool_map (scan_one cfg builders open_file dur client) ns (c1, record_scan ?r client m) =
      (map Inr (scan_results cfg builders open_file dur ns),
       (c2, record_all client (scan_results cfg builders open_file dur ns) (record_scan ?r client m)))"
    by auto
  with c1(2) s show ?case
    by (auto simp: scan_results_def record_all_def build_def)
qed (simp add: scan_results_def record_all_def)

lemma collect_map_Inr [simp]: "collect (\<lambda>r. r) (map Inr xs) = Inr xs"
  by (induction xs) simp_all

lemma run_scanners_built:
  assumes "cache_ok builders c" and "set names \<subseteq> {n. \<exists>s. map_of builders n = Some (Inr s)}" and "names \<noteq> []"
  shows "\<exists>c'. cache_ok builders c' \<and>
    run_scanners cfg builders names open_file dur client (c, m) =
      (Inr (scan_results cfg builders open_file dur names),
       (c', record_all client (scan_results cfg builders open_file dur names) m))"
proof (cases "length names = 1")
  case True
  then obtain n where n: "names = [n]" by (cases names) auto
  with assms(2) obtain s where s: "map_of builders n = Some (Inr s)" by auto
  show ?thesis
    using scan_one_built [OF assms(1) s, of cfg open_file dur client m]
    by (auto simp: n run_scanners_def scan_results_def record_all_def build_def s)
next
  case False
  with assms(3) show ?thesis
    using pool_map_built [OF assms(1,2), of cfg open_file dur client m]
    by (auto simp: run_scanners_def)
qed

lemma scans_at_record_all:
  "scans_at (record_all client rs m) l = scans_at m l + length (filter (\<lambda>r. scan_labels client r = l) rs)"
  unfolding record_all_def by (induction rs arbitrary: m) (simp_all add: scans_at_record)

lemma durations_at_record_all:
  "durations_at (record_all client rs m) l =
     durations_at m l @ map sr_time (filter (\<lambda>r. (sr_scanner r, client) = l) rs)"
  unfolding record_all_def by (induction rs arbitrary: m) (simp_all add: durations_at_record)

text \<open>Scanners are isolated from one another: for a selection the resolution accepted, the
  report has exactly one result per name, in the order of the names, each of them the one that
  scanner gives on its own, whatever the others do (an exception of one, a crash included, is
  its own \<open>error\<close> result); nothing is raised.\<close>

theorem run_scanners_isolates:
  assumes "cache_ok builders c" and "names \<noteq> []"
    and "set names \<subseteq> {n. \<exists>s. map_of builders n = Some (Inr s)}"
  shows "fst (run_scanners cfg builders names open_file dur client (c, m))
       = Inr (map (\<lambda>n. scan_result cfg open_file dur n (projr (build builders n))) names)
    \<and> map (\<lambda>n. fst (run_scanners cfg builders [n] open_file dur client (c, m))) names
       = map (\<lambda>r. Inr [r]) (map (\<lambda>n. scan_result cfg open_file dur n (projr (build builders n))) names)"
proof -
  have "fst (run_scanners cfg builders [n] open_file dur client (c, m)) =
      Inr [scan_result cfg open_file dur n (projr (build builders n))]" if "n \<in> set names" for n
  proof -
    have "set [n] \<subseteq> {n. \<exists>s. map_of builders n = Some (Inr s)}" using that assms(3) by auto
    from run_scanners_built [OF assms(1) this, of cfg open_file dur client m] show ?thesis
      by (auto simp: scan_results_def)
  qed
  then show ?thesis
    using run_scanners_built [OF assms(1,3,2), of cfg open_file dur client m]
    by (auto simp: scan_results_def)
qed

definition crashing :: scanner where
  "crashing = (sample_scanner ''malware'')\<lparr>sc_scan := \<lambda>_. Inl (IndexError ''list index out of range'')\<rparr>"

theorem run_scanners_isolates_witness:
  "map_option (\<lambda>rs. map sr_kind rs)
     (case fst (run_scanners default_settings [(''clamav'', Inr crashing), (''exav'', Inr (sample_scanner ''malware''))]
         [''clamav'', ''exav''] (\<lambda>_. Inr [0x50]) (\<lambda>_. 1) ''drive'' ([], initial_metrics))
      of Inl _ \<Rightarrow> None | Inr rs \<Rightarrow> Some rs) = Some [Error, Clean]"
proof -
  let ?b = "[(''clamav'', Inr crashing), (''exav'', Inr (sample_scanner ''malware''))]"
  have "set [''clamav'', ''exav''] \<subseteq> {n. \<exists>s. map_of ?b n = Some (Inr s)}" by simp
  from run_scanners_isolates [OF cache_ok_Nil _ this, THEN conjunct1] show ?thesis
    by (simp add: scan_result_def scan_outcome_def build_def crashing_def sample_scanner_def)
qed

text \<open>The metrics are exact: a run raises the counter of every label combination (scanner,
  category, word, client) by the number of results with those labels, adds each result's time
  to the histogram of its scanner and client, and changes no other metric.\<close>

theorem run_scanners_counts_each_result:
  assumes "cache_ok builders c"
    and "set names \<subseteq> {n. \<exists>s. map_of builders n = Some (Inr s)}"
    and run: "run_scanners cfg builders names open_file dur client (c, m) = (Inr rs, (c', m'))"
  shows "scans_at m' l = scans_at m l + length (filter (\<lambda>r. scan_labels client r = l) rs)
    \<and> durations_at m' d = durations_at m d @ map sr_time (filter (\<lambda>r. (sr_scanner r, client) = d) rs)
    \<and> mt_outdated m' = mt_outdated m \<and> mt_version m' = mt_version m"
proof -
  have "names \<noteq> []" using run by (auto simp: run_scanners_def)
  from run_scanners_built [OF assms(1,2) this, of cfg open_file dur client m] run
  have "m' = record_all client rs m" by auto
  moreover have "mt_outdated (record_all client rs m) = mt_outdated m"
    and "mt_version (record_all client rs m) = mt_version m"
    unfolding record_all_def by (induction rs arbitrary: m) (simp_all add: record_scan_def)
  ultimately show ?thesis by (simp add: scans_at_record_all durations_at_record_all)
qed

theorem run_scanners_counts_each_result_witness:
  "scans_at (snd (snd (run_scanners default_settings [(''exav'', Inr (sample_scanner ''malware''))]
      [''exav''] (\<lambda>_. Inr []) (\<lambda>_. 1) ''drive'' ([], initial_metrics))))
    (''exav'', ''malware'', ''clean'', ''drive'') = 1"
proof -
  let ?b = "[(''exav'', Inr (sample_scanner ''malware''))]"
  let ?r = "scan_result default_settings (\<lambda>_. Inr []) (\<lambda>_. 1) ''exav'' (sample_scanner ''malware'')"
  let ?run = "run_scanners default_settings ?b [''exav''] (\<lambda>_. Inr []) (\<lambda>_. 1) ''drive'' ([], initial_metrics)"
  have r: "?run = (Inr [?r], fst (snd ?run), snd (snd ?run))"
    by (simp add: run_scanners_def scan_one_def get_scanner_def Let_def)
  have s: "set [''exav''] \<subseteq> {n. \<exists>s. map_of ?b n = Some (Inr s)}" by simp
  have l: "scan_labels ''drive'' ?r = (''exav'', ''malware'', ''clean'', ''drive'')"
    by (simp add: scan_labels_def scan_result_def scan_outcome_def sample_scanner_def)
  have "scans_at initial_metrics (''exav'', ''malware'', ''clean'', ''drive'') = 0"
    by (simp add: scans_at_def initial_metrics_def)
  with l run_scanners_counts_each_result [OF cache_ok_Nil s r, THEN conjunct1,
      of "(''exav'', ''malware'', ''clean'', ''drive'')"]
  show ?thesis by simp
qed

end
