(* ===== verification/Clamav.thy ===== *)
theory Clamav
  imports Run_Scanners
begin

text \<open>
  The clamd backend (\<open>src/scanners/clamav.py\<close>): the host list, the choice of the daemon, the
  classification of a reply and the signature version. The client library and the DNS lookup
  are parameters; a reply of \<open>instream\<close> is its dictionary, empty when the daemon closed the
  connection without one.
\<close>

fun parse_entries :: "string list \<Rightarrow> (string \<times> int) list result" where
  "parse_entries [] = Inr []"
| "parse_entries (raw_entry # rest) =
     (let entry = str_strip raw_entry in
      if entry = [] then parse_entries rest
      else (let (host, port) = str_partition (CHR '':'') entry in
        rbind (if port = [] then Inr 3310
               else case py_int port of
                   None \<Rightarrow> Inl (ValueError (''invalid literal for int() with base 10: '' @ py_repr port))
                 | Some n \<Rightarrow> Inr n)
          (\<lambda>p. rbind (parse_entries rest) (\<lambda>hosts. Inr ((host, p) # hosts)))))"

definition parse_hosts :: "string \<Rightarrow> (string \<times> int) list result" where
  "parse_hosts raw = parse_entries (str_split (CHR '','') raw)"

definition transient_hints :: "string list" where
  "transient_hints = [''allocate'', ''time limit'', ''timeout'', ''no space'']"

definition limit_alert_prefix :: string where
  "limit_alert_prefix = ''Heuristics.Limits.Exceeded''"

definition text_or_empty :: "string option \<Rightarrow> string" where
  "text_or_empty r = (case r of None \<Rightarrow> [] | Some s \<Rightarrow> s)"

definition is_transient :: "string option \<Rightarrow> bool" where
  "is_transient reason \<longleftrightarrow> list_ex (\<lambda>h. str_contains h (str_lower (text_or_empty reason))) transient_hints"

definition split_item :: "char \<Rightarrow> nat \<Rightarrow> string \<Rightarrow> string result" where
  "split_item sep i s =
     (let xs = str_split sep s in
      if i < length xs then Inr (xs ! i) else Inl (IndexError ''list index out of range''))"

definition parse_local_version :: "string \<Rightarrow> string result" where
  "parse_local_version t = split_item (CHR ''/'') 1 t"

definition parse_remote_version :: "string \<Rightarrow> string result" where
  "parse_remote_version t = split_item (CHR '':'') 2 t"

text \<open>\<open>dns\<close> gives the decoded strings of each TXT record (a string that is not UTF-8 is among its
  failures: the caller handles both alike); the last one of all wins.\<close>

definition remote_version_text :: "(string \<Rightarrow> string list list result) \<Rightarrow> string \<Rightarrow> string result" where
  "remote_version_text dns uri = rbind (dns uri) (\<lambda>answers. Inr (last (''unknown'' # concat answers)))"

section \<open>The client\<close>

datatype client =
    UnixSocket string int
  | NetworkSocket string int int

definition clamav_endpoints :: "settings \<Rightarrow> (string option \<times> (string \<times> int) list) result" where
  "clamav_endpoints cfg =
     (if cfg_clamav_socket cfg \<noteq> [] then Inr (Some (cfg_clamav_socket cfg), [])
      else rbind (parse_hosts (cfg_clamav_hosts cfg)) (\<lambda>hosts. Inr (None, hosts)))"

text \<open>\<open>random.choice\<close>: the element at the index \<open>pick\<close> draws below the length.\<close>

definition random_choice :: "(nat \<Rightarrow> nat) \<Rightarrow> 'a list \<Rightarrow> 'a result" where
  "random_choice pick xs =
     (if xs = [] then Inl (IndexError ''Cannot choose from an empty sequence'')
      else Inr (xs ! (pick (length xs) mod length xs)))"

definition clamav_client :: "settings \<Rightarrow> (nat \<Rightarrow> nat) \<Rightarrow> client result" where
  "clamav_client cfg pick =
     rbind (clamav_endpoints cfg) (\<lambda>(socket_path, hosts).
       case socket_path of
         Some p \<Rightarrow> Inr (UnixSocket p (cfg_clamav_timeout cfg))
       | None \<Rightarrow> rbind (random_choice pick hosts)
           (\<lambda>(host, port). Inr (NetworkSocket host port (cfg_clamav_timeout cfg))))"

definition clamav_ping :: "settings \<Rightarrow> (nat \<Rightarrow> nat) \<Rightarrow> (client \<Rightarrow> string result) \<Rightarrow> bool" where
  "clamav_ping cfg pick ping =
     (case rbind (clamav_client cfg pick) ping of Inl _ \<Rightarrow> False | Inr r \<Rightarrow> r = ''PONG'')"

section \<open>The reply\<close>

definition em_dash :: string where
  "em_dash = [CHR 0xE2, CHR 0x80, CHR 0x94]"

definition limit_hint :: string where
  "limit_hint = ''a file above clamd's StreamMaxLength? (raise CLAMD_CONF_StreamMaxLength '' @
     ''/ MaxFileSize / MaxScanSize past MAX_URL_SIZE)''"

definition error_verdict :: "string option \<Rightarrow> verdict result" where
  "error_verdict reason =
     (if is_transient reason then Inl (ScannerError (''scan error: '' @ text_or_empty reason))
      else Inr (partial (JStr ''UNSCANNABLE'')))"

type_synonym clamd_reply = "(string, string \<times> string option) dict"

definition clamav_verdict :: "clamd_reply result \<Rightarrow> verdict result" where
  "clamav_verdict reply =
     (case reply of
        Inl (ClamdConnectionError m) \<Rightarrow> Inl (ScannerError
          (''clamd connection failed: '' @ m @ '' '' @ em_dash @ '' daemon unreachable, or '' @ limit_hint))
      | Inl (BrokenPipeError m) \<Rightarrow> Inl (ScannerError (''clamd closed the stream mid-scan: '' @ limit_hint @ '': '' @ m))
      | Inl (ConnectionResetError m) \<Rightarrow> Inl (ScannerError (''clamd closed the stream mid-scan: '' @ limit_hint @ '': '' @ m))
      | Inl (BufferTooLongError m) \<Rightarrow> Inl (ScannerError (''clamd closed the stream mid-scan: '' @ limit_hint @ '': '' @ m))
      | Inl e \<Rightarrow> Inl e
      | Inr result \<Rightarrow>
          if result = [] then Inl (ScannerError (''clamd sent no reply: '' @ limit_hint))
          else case map_of result ''stream'' of
              None \<Rightarrow> Inl (KeyError ''stream'')
            | Some (status, reason) \<Rightarrow>
                if status = ''OK'' then Inr clean
                else if status = ''ERROR'' then error_verdict reason
                else if starts_with limit_alert_prefix (text_or_empty reason)
                then Inr (partial (JStr ''LIMITS-EXCEEDED''))
                else Inr (malware (jopt reason)))"

definition clamav_scan ::
    "settings \<Rightarrow> (nat \<Rightarrow> nat) \<Rightarrow> (client \<Rightarrow> 8 word list \<Rightarrow> clamd_reply result) \<Rightarrow> 8 word list \<Rightarrow> verdict result" where
  "clamav_scan cfg pick instream fileobj =
     clamav_verdict (rbind (clamav_client cfg pick) (\<lambda>c. instream c fileobj))"

definition clamav_version ::
    "settings \<Rightarrow> (nat \<Rightarrow> nat) \<Rightarrow> (client \<Rightarrow> string result) \<Rightarrow> (string \<Rightarrow> string list list result) \<Rightarrow> version_info option result" where
  "clamav_version cfg pick version dns =
     (case rbind (rbind (rbind (clamav_client cfg pick) version) parse_local_version) (\<lambda>local.
             rbind (rbind (remote_version_text dns (cfg_clamav_txt_uri cfg)) parse_remote_version)
               (\<lambda>remote. Inr (local, remote))) of
        Inl e \<Rightarrow> Inl (ScannerError (''version check failed: '' @ exn_str e))
      | Inr (local, remote) \<Rightarrow>
          Inr (Some \<lparr>vi_actual = Some local, vi_required = Some remote, vi_outdated = (local \<noteq> remote)\<rparr>))"

text \<open>What the code uses of the client library and the resolver; the version of the database changes
  with time.\<close>

record clamd_lib =
  cl_ping :: "client \<Rightarrow> string result"
  cl_instream :: "client \<Rightarrow> 8 word list \<Rightarrow> clamd_reply result"
  cl_version :: "rat \<Rightarrow> client \<Rightarrow> string result"
  cl_dns :: "rat \<Rightarrow> string \<Rightarrow> string list list result"

definition clamav_scanner :: "settings \<Rightarrow> (nat \<Rightarrow> nat) \<Rightarrow> clamd_lib \<Rightarrow> scanner" where
  "clamav_scanner cfg pick lib =
     \<lparr>sc_category = ''malware'', sc_scored = False, sc_ping = Inr (clamav_ping cfg pick (cl_ping lib)),
      sc_scan = clamav_scan cfg pick (cl_instream lib),
      sc_version = (\<lambda>now. clamav_version cfg pick (cl_version lib now) (cl_dns lib now))\<rparr>"

section \<open>The contract\<close>

definition clamd_examined :: "clamd_reply result \<Rightarrow> bool" where
  "clamd_examined reply \<longleftrightarrow>
     (case reply of Inl _ \<Rightarrow> False
      | Inr d \<Rightarrow> (case map_of d ''stream'' of None \<Rightarrow> False | Some (status, _) \<Rightarrow> status = ''OK''))"

definition clamd_accused :: "clamd_reply result \<Rightarrow> bool" where
  "clamd_accused reply \<longleftrightarrow>
     (case reply of Inl _ \<Rightarrow> False
      | Inr d \<Rightarrow> (case map_of d ''stream'' of None \<Rightarrow> False
          | Some (status, reason) \<Rightarrow> status \<noteq> ''OK'' \<and> status \<noteq> ''ERROR''
              \<and> \<not> starts_with limit_alert_prefix (text_or_empty reason)))"

lemma error_verdict_partial: "error_verdict r = Inr v \<Longrightarrow> v_kind v = Partial"
  by (auto simp: error_verdict_def split: if_splits)

lemma clamav_verdict_reply:
  "map_of d ''stream'' = Some (status, reason) \<Longrightarrow> clamav_verdict (Inr d) =
     (if status = ''OK'' then Inr clean
      else if status = ''ERROR'' then error_verdict reason
      else if starts_with limit_alert_prefix (text_or_empty reason)
      then Inr (partial (JStr ''LIMITS-EXCEEDED''))
      else Inr (malware (jopt reason)))"
  by (auto simp: clamav_verdict_def)

lemma clamav_verdict_failed: "\<exists>x. clamav_verdict (Inl e) = Inl x"
  by (cases e) (simp_all add: clamav_verdict_def)

lemma clamav_verdict_silent: "map_of d ''stream'' = None \<Longrightarrow> \<exists>x. clamav_verdict (Inr d) = Inl x"
  by (simp add: clamav_verdict_def)

lemma clamd_reply_cases:
  obtains (failed) x where "clamav_verdict e = Inl x" "\<not> clamd_examined e" "\<not> clamd_accused e"
  | (clean) "clamav_verdict e = Inr clean" "clamd_examined e" "\<not> clamd_accused e"
  | (malware) r where "clamav_verdict e = Inr (malware (jopt r))" "\<not> clamd_examined e" "clamd_accused e"
  | (partial) t where "clamav_verdict e = Inr (partial t)" "\<not> clamd_examined e" "\<not> clamd_accused e"
proof (cases e)
  case (Inl x)
  then show ?thesis
    using clamav_verdict_failed [of x] failed by (auto simp: clamd_examined_def clamd_accused_def)
next
  case (Inr d)
  show ?thesis
  proof (cases "map_of d ''stream''")
    case None
    then show ?thesis
      using clamav_verdict_silent [OF None] failed Inr by (auto simp: clamd_examined_def clamd_accused_def)
  next
    case (Some p)
    then obtain status reason where p: "map_of d ''stream'' = Some (status, reason)" by (cases p) auto
    show ?thesis
      using clamav_verdict_reply [OF p] that p Inr
      by (auto simp: clamd_examined_def clamd_accused_def error_verdict_def split: if_splits)
  qed
qed

interpretation clamd: scan_backend clamav_verdict clamd_examined clamd_accused
proof unfold_locales
  fix e v
  show "(\<exists>v. clamav_verdict e = Inr v \<and> v_kind v = Clean) \<longleftrightarrow> clamd_examined e"
    by (cases rule: clamd_reply_cases [of e]) auto
  show "(\<exists>v. clamav_verdict e = Inr v \<and> v_kind v = Malware) \<longleftrightarrow> clamd_accused e"
    by (cases rule: clamd_reply_cases [of e]) auto
  show "v_kind v = Clean \<or> v_kind v = Malware \<or> v_kind v = Partial" if "clamav_verdict e = Inr v"
    using that by (cases rule: clamd_reply_cases [of e]) auto
qed

definition clamd_failed :: "clamd_reply result \<Rightarrow> bool" where
  "clamd_failed reply \<longleftrightarrow>
     (case reply of Inl _ \<Rightarrow> True
      | Inr d \<Rightarrow> (case map_of d ''stream'' of None \<Rightarrow> True
          | Some (status, reason) \<Rightarrow> status = ''ERROR'' \<and> is_transient reason))"

lemma clamav_verdict_raises: "(\<exists>x. clamav_verdict reply = Inl x) \<longleftrightarrow> clamd_failed reply"
proof (cases reply)
  case (Inl e)
  then show ?thesis using clamav_verdict_failed [of e] by (simp add: clamd_failed_def)
next
  case (Inr d)
  show ?thesis
  proof (cases "map_of d ''stream''")
    case None
    then show ?thesis using clamav_verdict_silent [OF None] Inr by (simp add: clamd_failed_def)
  next
    case (Some p)
    then obtain status reason where p: "map_of d ''stream'' = Some (status, reason)" by (cases p) auto
    then show ?thesis
      using clamav_verdict_reply [OF p] Inr by (auto simp: clamd_failed_def error_verdict_def)
  qed
qed

text \<open>What a clamd reply becomes: clean exactly when the daemon answered \<open>OK\<close> for the stream,
  malware exactly when it answered a detection that is not one of its own limit alerts, and an
  \<open>error\<close> exactly when no usable answer arrived or the daemon reported an infrastructure problem
  (out of memory or disk, a run-time limit); every other \<open>ERROR\<close> or limit alert is partial.\<close>

lemma clamd_reply_classified:
  "(fst (scan_outcome (clamav_verdict reply)) = Clean \<longleftrightarrow> clamd_examined reply)
   \<and> (fst (scan_outcome (clamav_verdict reply)) = Malware \<longleftrightarrow> clamd_accused reply)
   \<and> (fst (scan_outcome (clamav_verdict reply)) = Error \<longleftrightarrow> clamd_failed reply)"
proof (intro conjI)
  show "fst (scan_outcome (clamav_verdict reply)) = Clean \<longleftrightarrow> clamd_examined reply"
    by (rule clamd.outcome_clean)
  show "fst (scan_outcome (clamav_verdict reply)) = Malware \<longleftrightarrow> clamd_accused reply"
    by (rule clamd.outcome_malware)
  show "fst (scan_outcome (clamav_verdict reply)) = Error \<longleftrightarrow> clamd_failed reply"
    unfolding clamd.outcome_error by (rule clamav_verdict_raises)
qed

end
