(* ===== verification/Exav.thy ===== *)
theory Exav
  imports Clamav Json
begin

text \<open>
  The exav backend (\<open>src/scanners/exav.py\<close>): the framing of the stream the client sends, with
  the socket's operations as parameters, and the reading of the JSON reply. \<open>loads\<close> is
  \<open>json.loads\<close>.
\<close>

section \<open>The client\<close>

definition stream_chunk :: nat where
  "stream_chunk = 1024"

text \<open>\<open>struct.pack("!L", n)\<close>: four bytes, most significant first.\<close>

definition pack_be32 :: "nat \<Rightarrow> 8 word list" where
  "pack_be32 n = map (\<lambda>k. word_of_nat (n div 256 ^ k)) [3, 2, 1, 0]"

text \<open>The socket of the client: each operation may raise and changes the connection \<open>'s\<close>.\<close>

record 's sock_ops =
  so_init :: "'s \<Rightarrow> unit result \<times> 's"
  so_command :: "string \<Rightarrow> 's \<Rightarrow> unit result \<times> 's"
  so_sendall :: "8 word list \<Rightarrow> 's \<Rightarrow> unit result \<times> 's"
  so_recv :: "'s \<Rightarrow> string result \<times> 's"
  so_close :: "'s \<Rightarrow> 's"

definition then_do :: "'a result \<times> 's \<Rightarrow> ('s \<Rightarrow> 'b result \<times> 's) \<Rightarrow> 'b result \<times> 's" where
  "then_do r f = (case r of (Inl e, s) \<Rightarrow> (Inl e, s) | (Inr _, s) \<Rightarrow> f s)"

text \<open>The loop over the chunks of the file, with the end mark.\<close>

function send_chunks :: "(8 word list \<Rightarrow> 's \<Rightarrow> unit result \<times> 's) \<Rightarrow> 8 word list \<Rightarrow> 's \<Rightarrow> unit result \<times> 's" where
  "send_chunks sendall data s =
     (if data = [] then sendall (pack_be32 0) s
      else (let chunk = take stream_chunk data in
        then_do (sendall (pack_be32 (length chunk) @ chunk) s)
          (send_chunks sendall (drop stream_chunk data))))"
  by pat_completeness auto
termination
  by (relation "measure (\<lambda>(_, data, _). length data)") (auto simp: stream_chunk_def)

declare send_chunks.simps [simp del]

definition exinstream :: "'s sock_ops \<Rightarrow> 8 word list \<Rightarrow> 's \<Rightarrow> string result \<times> 's" where
  "exinstream ops fileobj s =
     then_do (so_init ops s) (\<lambda>s1.
       case then_do (so_command ops ''EXINSTREAM'' s1) (\<lambda>s2.
              then_do (send_chunks (so_sendall ops) fileobj s2) (so_recv ops)) of
         (r, s3) \<Rightarrow> (r, so_close ops s3))"

section \<open>The reply\<close>

definition exav_parse :: "(string \<Rightarrow> json result) \<Rightarrow> string \<Rightarrow> verdict result" where
  "exav_parse loads raw =
     (if starts_with ''UNKNOWN COMMAND'' raw then
        Inl (ScannerError ''exav does not support EXINSTREAM (upgrade the daemon)'')
      else case loads raw of
          Inl (JSONDecodeError _) \<Rightarrow> Inl (ScannerError (''exav returned a non-JSON reply: '' @ py_repr (take 80 raw)))
        | Inl (TypeError _) \<Rightarrow> Inl (ScannerError (''exav returned a non-JSON reply: '' @ py_repr (take 80 raw)))
        | Inl e \<Rightarrow> Inl e
        | Inr (JObj data) \<Rightarrow>
            (let status = jget data ''status'' in
             if status = JStr ''OK'' then Inr clean
             else if status = JStr ''FOUND'' then
               Inr \<lparr>v_kind = Malware, v_reason = jget data ''signature'', v_score = None,
                    v_location = jget data ''location''\<rparr>
             else if status = JStr ''PARTIAL'' then
               Inr (partial (py_or (jget data ''category'') (JStr ''UNSCANNABLE'')))
             else if status = JStr ''ERROR'' then
               Inl (ScannerError (''exav scan error: '' @ json_str (py_or (jget data ''reason'') (JStr ''unspecified''))))
             else Inl (ScannerError (''exav returned an unknown status: '' @ json_repr status)))
        | Inr _ \<Rightarrow> Inl (AttributeError ''no attribute 'get' ''))"

text \<open>The \<open>except\<close> clause of \<open>scan\<close>: \<open>OSError\<close> covers the socket's own exceptions.\<close>

definition exav_reply :: "(string \<Rightarrow> json result) \<Rightarrow> string result \<Rightarrow> verdict result" where
  "exav_reply loads reply =
     (case reply of
        Inl (ClamdConnectionError m) \<Rightarrow> Inl (ScannerError (''exav scan failed: '' @ m))
      | Inl (OSError m) \<Rightarrow> Inl (ScannerError (''exav scan failed: '' @ m))
      | Inl (BrokenPipeError m) \<Rightarrow> Inl (ScannerError (''exav scan failed: '' @ m))
      | Inl (ConnectionResetError m) \<Rightarrow> Inl (ScannerError (''exav scan failed: '' @ m))
      | Inl e \<Rightarrow> Inl e
      | Inr raw \<Rightarrow> exav_parse loads raw)"

definition exav_endpoints :: "settings \<Rightarrow> (string \<times> int) list result" where
  "exav_endpoints cfg = parse_hosts (cfg_exav_hosts cfg)"

definition exav_client :: "settings \<Rightarrow> (nat \<Rightarrow> nat) \<Rightarrow> client result" where
  "exav_client cfg pick =
     rbind (rbind (exav_endpoints cfg) (random_choice pick))
       (\<lambda>(host, port). Inr (NetworkSocket host port (cfg_clamav_timeout cfg)))"

text \<open>\<open>socket\<close> gives, for a client, the operations of its connection and the state it starts in.\<close>

definition exav_scan ::
    "settings \<Rightarrow> (nat \<Rightarrow> nat) \<Rightarrow> (client \<Rightarrow> 's sock_ops \<times> 's) \<Rightarrow> (string \<Rightarrow> json result) \<Rightarrow> 8 word list \<Rightarrow> verdict result" where
  "exav_scan cfg pick socket loads fileobj =
     exav_reply loads (rbind (exav_client cfg pick) (\<lambda>c.
       case socket c of (ops, s) \<Rightarrow> fst (exinstream ops fileobj s)))"

definition exav_ping :: "settings \<Rightarrow> (nat \<Rightarrow> nat) \<Rightarrow> (client \<Rightarrow> string result) \<Rightarrow> bool" where
  "exav_ping cfg pick ping = (case rbind (exav_client cfg pick) ping of Inl _ \<Rightarrow> False | Inr r \<Rightarrow> r = ''PONG'')"

text \<open>\<open>ExavScanner()\<close>.\<close>

definition exav_scanner ::
    "settings \<Rightarrow> (nat \<Rightarrow> nat) \<Rightarrow> (client \<Rightarrow> string result) \<Rightarrow> (client \<Rightarrow> 's sock_ops \<times> 's) \<Rightarrow> (string \<Rightarrow> json result) \<Rightarrow> scanner result" where
  "exav_scanner cfg pick ping socket loads =
     (if cfg_exav_hosts cfg = [] then Inl (RuntimeError ''exav backend requires EXAV_HOSTS (host:port,...)'')
      else Inr \<lparr>sc_category = ''malware'', sc_scored = False, sc_ping = Inr (exav_ping cfg pick ping),
        sc_scan = exav_scan cfg pick socket loads, sc_version = (\<lambda>_. Inr None)\<rparr>)"

section \<open>The contract\<close>

definition exav_status :: "(string \<Rightarrow> json result) \<Rightarrow> string result \<Rightarrow> json" where
  "exav_status loads reply =
     (case reply of Inl _ \<Rightarrow> JNull
      | Inr raw \<Rightarrow> if starts_with ''UNKNOWN COMMAND'' raw then JNull
          else case loads raw of Inr (JObj data) \<Rightarrow> jget data ''status'' | _ \<Rightarrow> JNull)"

lemma exav_reply_status:
  "fst (scan_outcome (exav_reply loads reply)) =
     (if exav_status loads reply = JStr ''OK'' then Clean
      else if exav_status loads reply = JStr ''FOUND'' then Malware
      else if exav_status loads reply = JStr ''PARTIAL'' then Partial else Error)"
  by (simp add: exav_reply_def exav_status_def exav_parse_def scan_outcome_def Let_def
      split: sum.splits exn.splits json.splits)

lemma outcome_kind:
  "(\<exists>v. r = Inr v \<and> v_kind v = k) \<longleftrightarrow> fst (scan_outcome r) = k" if "k \<noteq> Error"
  using that by (auto simp: scan_outcome_def split: sum.splits exn.splits)

interpretation exav: scan_backend "exav_reply loads"
    "\<lambda>e. exav_status loads e = JStr ''OK''" "\<lambda>e. exav_status loads e = JStr ''FOUND''" for loads
proof unfold_locales
  fix e v
  show "(\<exists>v. exav_reply loads e = Inr v \<and> v_kind v = Clean) \<longleftrightarrow> exav_status loads e = JStr ''OK''"
    by (simp add: outcome_kind exav_reply_status)
  show "(\<exists>v. exav_reply loads e = Inr v \<and> v_kind v = Malware) \<longleftrightarrow> exav_status loads e = JStr ''FOUND''"
    by (simp add: outcome_kind exav_reply_status)
  assume "exav_reply loads e = Inr v"
  then have "exav_reply loads e = Inr v \<and> v_kind v = fst (scan_outcome (exav_reply loads e))"
    by (simp add: scan_outcome_def)
  moreover have "v_kind v \<noteq> Error"
    using \<open>exav_reply loads e = Inr v\<close>
    by (auto simp: exav_reply_def exav_parse_def Let_def split: sum.splits exn.splits json.splits if_splits)
  ultimately show "v_kind v = Clean \<or> v_kind v = Malware \<or> v_kind v = Partial"
    by (simp add: exav_reply_status split: if_splits)
qed

section \<open>The framing\<close>

text \<open>The daemon's side of the framing: lengths and chunks up to a zero length.\<close>

definition unpack_be32 :: "8 word list \<Rightarrow> nat" where
  "unpack_be32 bs = foldl (\<lambda>n b. 256 * n + unat b) 0 bs"

fun unframe :: "nat \<Rightarrow> 8 word list \<Rightarrow> (8 word list \<times> 8 word list) option" where
  "unframe 0 bs = None"
| "unframe (Suc fuel) bs =
     (let n = unpack_be32 (take 4 bs); rest = drop 4 bs in
      if length bs < 4 \<or> length rest < n then None
      else if n = 0 then Some ([], rest)
      else map_option (\<lambda>(d, r). (take n rest @ d, r)) (unframe fuel (drop n rest)))"

lemma length_pack [simp]: "length (pack_be32 n) = 4"
  by (simp add: pack_be32_def)

lemma unat_byte: "unat (word_of_nat n :: 8 word) = n mod 256"
  by (simp add: unat_of_nat)

lemma unpack_pack:
  assumes "n < 2 ^ 32"
  shows "unpack_be32 (pack_be32 n) = n"
proof -
  define a b c where "a = n div 256" and "b = a div 256" and "c = b div 256"
  have c: "n div 16777216 = c" "n div 65536 = b"
    by (simp_all add: a_def b_def c_def flip: div_mult2_eq)
  have "c < 256" using assms by (simp add: c(1) [symmetric] less_mult_imp_div_less)
  moreover have "n = 256 * a + n mod 256" "a = 256 * b + a mod 256" "b = 256 * c + b mod 256"
    by (simp_all add: a_def b_def c_def)
  ultimately show ?thesis
    by (simp add: pack_be32_def unpack_be32_def unat_byte c a_def [symmetric])
qed

text \<open>A connection that keeps every byte it is given.\<close>

definition log_send :: "8 word list \<Rightarrow> 8 word list \<Rightarrow> unit result \<times> 8 word list" where
  "log_send bs s = (Inr (), s @ bs)"

fun frames :: "nat \<Rightarrow> 8 word list \<Rightarrow> 8 word list" where
  "frames 0 data = pack_be32 0"
| "frames (Suc k) data =
     (let c = take stream_chunk data in pack_be32 (length c) @ c @ frames k (drop stream_chunk data))"

lemma send_chunks_log:
  "send_chunks log_send data s = (Inr (), s @ frames ((length data + 1023) div 1024) data)"
proof (induction "length data" arbitrary: data s rule: less_induct)
  case less
  show ?case
  proof (cases "data = []")
    case True
    then show ?thesis by (simp add: send_chunks.simps log_send_def)
  next
    case False
    let ?rest = "drop stream_chunk data"
    have lt: "length ?rest < length data" using False by (simp add: stream_chunk_def)
    have k: "(length data + 1023) div 1024 = Suc ((length ?rest + 1023) div 1024)"
    proof (cases "length data \<le> 1024")
      case True
      with False have "0 < length data" "length ?rest = 0" by (simp_all add: stream_chunk_def)
      moreover have "(length data + 1023) div 1024 = 1"
      proof -
        obtain m where m: "length data = Suc m" using \<open>0 < length data\<close> gr0_implies_Suc by blast
        then have "length data + 1023 = m + 1024" by simp
        then have "(length data + 1023) div 1024 = m div 1024 + 1" by simp
        with m True show ?thesis by simp
      qed
      ultimately show ?thesis by simp
    next
      case big: False
      then have "length data + 1023 = (length ?rest + 1023) + 1024" by (simp add: stream_chunk_def)
      then show ?thesis by simp
    qed
    show ?thesis
      unfolding send_chunks.simps [of _ data] k
      using False less [OF lt] by (simp add: then_do_def log_send_def Let_def)
  qed
qed

lemma unframe_frames:
  assumes "length data \<le> 1024 * k" and "1024 * k < length data + 1024"
  shows "unframe (Suc k) (frames k data @ r) = Some (data, r)"
  using assms
proof (induction k arbitrary: data)
  case 0
  then show ?case by (simp add: unpack_pack)
next
  case (Suc k)
  let ?c = "take stream_chunk data"
  have ne: "0 < length data" using Suc.prems(2) by (cases data) simp_all
  have c: "length ?c = min 1024 (length data)" by (simp add: stream_chunk_def)
  have n: "unpack_be32 (pack_be32 (length ?c)) = length ?c" by (rule unpack_pack) (simp add: stream_chunk_def)
  have IH: "unframe (Suc k) (frames k (drop stream_chunk data) @ r) = Some (drop stream_chunk data, r)"
  proof (cases "length data \<le> 1024")
    case True
    with Suc.prems ne have "k = 0" by simp
    with True show ?thesis by (simp add: unpack_pack stream_chunk_def)
  next
    case False
    with Suc.prems show ?thesis by (intro Suc.IH) (simp_all add: stream_chunk_def)
  qed
  have tk: "take (min (length data) stream_chunk) data = take stream_chunk data" by (simp add: min_def)
  have "length ?c \<noteq> 0" using c ne by simp
  moreover have "take 4 (frames (Suc k) data @ r) = pack_be32 (length ?c)"
    "drop 4 (frames (Suc k) data @ r) = ?c @ frames k (drop stream_chunk data) @ r"
    by (simp_all add: Let_def)
  moreover have "4 \<le> length (frames (Suc k) data @ r)" by (simp add: Let_def)
  ultimately show ?case
    unfolding unframe.simps(2) [of "Suc k"] using IH n
    by (simp add: Let_def tk del: unframe.simps frames.simps)
qed

text \<open>C32: The stream exav receives is the file: on a connection that delivers what it is given,
  decoding the length-prefixed chunks that the client writes gives back exactly the bytes of
  the file, whatever they are, with the end mark directly after them.\<close>

theorem exinstream_delivers_the_file:
  "\<exists>sent. send_chunks log_send data [] = (Inr (), sent)
     \<and> unframe (Suc ((length data + 1023) div 1024)) sent = Some (data, [])"
proof -
  let ?k = "(length data + 1023) div 1024"
  have "length data + 1023 = 1024 * ?k + (length data + 1023) mod 1024" "(length data + 1023) mod 1024 < 1024"
    by simp_all
  then have "length data \<le> 1024 * ?k" "1024 * ?k < length data + 1024" by linarith+
  from unframe_frames [OF this, of "[]"] show ?thesis by (simp add: send_chunks_log)
qed

end
