(* ===== verification/Jcop.thy ===== *)
theory Jcop
  imports Run_Scanners Json
begin

text \<open>
  The JCOP backend (\<open>src/scanners/jcop.py\<close>): cache lookup by content hash, submission and polling
  against one deadline, and the reading of the result. The HTTP service, the clock and the sleep
  are parameters over a world \<open>'w\<close> that the code threads through its calls; \<open>sha256\<close> is
  \<open>hashlib.file_digest(...).hexdigest()\<close>.
\<close>

record response =
  rs_status :: int
  rs_json :: "json result"

record 'w jcop_env =
  je_get :: "string \<Rightarrow> (string, string) dict \<Rightarrow> rat \<Rightarrow> 'w \<Rightarrow> response result \<times> 'w"
  je_post :: "string \<Rightarrow> (string, string) dict \<Rightarrow> 8 word list \<Rightarrow> rat \<times> rat \<Rightarrow> 'w \<Rightarrow> response result \<times> 'w"
  je_clock :: "'w \<Rightarrow> rat"
  je_sleep :: "rat \<Rightarrow> 'w \<Rightarrow> 'w"

record jcop =
  jc_base_url :: string
  jc_api_key :: string
  jc_result_timeout :: rat
  jc_submit_timeout :: rat
  jc_poll_interval :: rat

definition or_default :: "'a option \<Rightarrow> 'a \<Rightarrow> 'a" where
  "or_default x d = (case x of None \<Rightarrow> d | Some y \<Rightarrow> y)"

definition rstrip_slash :: "string \<Rightarrow> string" where
  "rstrip_slash s = rev (dropWhile (\<lambda>ch. ch = CHR ''/'') (rev s))"

text \<open>\<open>JcopScanner.__init__\<close>: \<open>a or b\<close> for the two strings, \<open>None\<close> tests for the numbers.\<close>

definition jcop_init ::
    "settings \<Rightarrow> string option \<Rightarrow> string option \<Rightarrow> rat option \<Rightarrow> rat option \<Rightarrow> rat option \<Rightarrow> jcop result" where
  "jcop_init cfg base_url api_key result_timeout submit_timeout poll_interval =
     (let url = rstrip_slash (if opt_list base_url = [] then cfg_jcop_base_url cfg else opt_list base_url);
          key = (if opt_list api_key = [] then cfg_jcop_api_key cfg else opt_list api_key)
      in if url = [] \<or> key = [] then
           Inl (RuntimeError ''JCOP backend requires JCOP_BASE_URL and JCOP_API_KEY'')
         else Inr \<lparr>jc_base_url = url, jc_api_key = key,
           jc_result_timeout = or_default result_timeout (of_int (cfg_jcop_result_timeout cfg)),
           jc_submit_timeout = or_default submit_timeout (of_int (cfg_jcop_submit_timeout cfg)),
           jc_poll_interval = or_default poll_interval (of_int (cfg_jcop_poll_interval cfg))\<rparr>)"

definition results_url :: "jcop \<Rightarrow> string \<Rightarrow> string" where
  "results_url j key = jc_base_url j @ ''/results/'' @ key"

definition jcop_headers :: "jcop \<Rightarrow> (string, string) dict" where
  "jcop_headers j = [(''X-Auth-Token'', jc_api_key j), (''Accept'', ''application/json'')]"

definition jcop_ping :: "jcop \<Rightarrow> 'w jcop_env \<Rightarrow> 'w \<Rightarrow> bool result" where
  "jcop_ping j env w =
     (case fst (je_get env (results_url j (replicate 64 (CHR ''0''))) (jcop_headers j) (jc_result_timeout j) w) of
        Inl (RequestException _) \<Rightarrow> Inr False
      | Inl e \<Rightarrow> Inl e
      | Inr r \<Rightarrow> Inr (rs_status r < 500))"

text \<open>\<open>except requests.RequestException\<close> around one HTTP call.\<close>

definition wrap_request :: "string \<Rightarrow> response result \<Rightarrow> response result" where
  "wrap_request msg r = (case r of Inl (RequestException m) \<Rightarrow> Inl (ScannerError (msg @ m)) | _ \<Rightarrow> r)"

definition get_result :: "jcop \<Rightarrow> 'w jcop_env \<Rightarrow> string \<Rightarrow> 'w \<Rightarrow> response result \<times> 'w" where
  "get_result j env key w =
     (case je_get env (results_url j key) (jcop_headers j) (jc_result_timeout j) w of
        (r, w') \<Rightarrow> (wrap_request ''JCOP results request failed: '' r, w'))"

text \<open>\<open>r.json()["id"]\<close>.\<close>

definition submitted_id :: "json \<Rightarrow> json result" where
  "submitted_id v =
     (case v of
        JObj d \<Rightarrow> (case map_of d ''id'' of None \<Rightarrow> Inl (KeyError ''id'') | Some i \<Rightarrow> Inr i)
      | _ \<Rightarrow> Inl (TypeError ''indices must be integers''))"

definition submit :: "jcop \<Rightarrow> 'w jcop_env \<Rightarrow> 8 word list \<Rightarrow> rat \<Rightarrow> 'w \<Rightarrow> json result \<times> 'w" where
  "submit j env fileobj deadline w =
     (let remaining = deadline - je_clock env w in
      if remaining \<le> 0 then (Inl (ScannerError ''JCOP budget exhausted before submit''), w)
      else case je_post env (jc_base_url j @ ''/submit'') (jcop_headers j) fileobj (30, remaining) w of
        (r, w') \<Rightarrow>
          (rbind (wrap_request ''JCOP submit failed: '' r) (\<lambda>r.
             if rs_status r = 200 then rbind (rs_json r) submitted_id
             else if rs_status r = 401 then Inl (ScannerError ''JCOP submit rejected: invalid API key'')
             else Inl (ScannerError (''JCOP submit failed: HTTP '' @ show_int (rs_status r)))), w'))"

text \<open>\<open>content.get("done")\<close> of a result: the content when the analysis is over.\<close>

definition done_content :: "response \<Rightarrow> json option result" where
  "done_content r =
     rbind (rs_json r) (\<lambda>content. rbind (json_get content ''done'') (\<lambda>d.
       Inr (if truthy d then Some content else None)))"

text \<open>One turn of the polling loop after its sleep: \<open>Inr None\<close> goes on.\<close>

definition poll_step :: "response result \<Rightarrow> json option result" where
  "poll_step r =
     rbind r (\<lambda>r.
       if rs_status r = 200 then done_content r
       else if rs_status r = 401 then Inl (ScannerError ''JCOP rejected the request: invalid API key'')
       else Inr None)"

partial_function (option) poll ::
    "jcop \<Rightarrow> 'w jcop_env \<Rightarrow> string \<Rightarrow> rat \<Rightarrow> 'w \<Rightarrow> (json result \<times> 'w) option" where
  "poll j env key deadline w =
     (if je_clock env w < deadline then
        (let (r, w') = get_result j env key (je_sleep env (jc_poll_interval j) w) in
         case poll_step r of
           Inl e \<Rightarrow> Some (Inl e, w')
         | Inr (Some content) \<Rightarrow> Some (Inr content, w')
         | Inr None \<Rightarrow> poll j env key deadline w')
      else Some (Inl (ScannerError (''JCOP analysis did not complete within '' @
             show_rat (jc_submit_timeout j) @ ''s'')), w))"

text \<open>The lookup that starts an analysis: a finished result, or the key to poll.\<close>

definition first_lookup ::
    "jcop \<Rightarrow> 'w jcop_env \<Rightarrow> string \<Rightarrow> 8 word list \<Rightarrow> rat \<Rightarrow> 'w \<Rightarrow> (json + string) result \<times> 'w" where
  "first_lookup j env file_hash fileobj deadline w =
     (case get_result j env file_hash w of
        (Inl e, w') \<Rightarrow> (Inl e, w')
      | (Inr r, w') \<Rightarrow>
          if rs_status r = 200 then
            (rbind (done_content r) (\<lambda>c. Inr (case c of Some content \<Rightarrow> Inl content | None \<Rightarrow> Inr file_hash)), w')
          else if rs_status r = 404 then
            (case submit j env fileobj deadline w' of
               (i, w'') \<Rightarrow> (rbind i (\<lambda>i. Inr (Inr (json_str i))), w''))
          else if rs_status r = 401 then
            (Inl (ScannerError ''JCOP rejected the request: invalid API key''), w')
          else (Inl (ScannerError (''JCOP results lookup failed: HTTP '' @ show_int (rs_status r))), w'))"

definition analyse :: "jcop \<Rightarrow> 'w jcop_env \<Rightarrow> string \<Rightarrow> 8 word list \<Rightarrow> 'w \<Rightarrow> (json result \<times> 'w) option" where
  "analyse j env file_hash fileobj w =
     (let deadline = je_clock env w + jc_submit_timeout j in
      case first_lookup j env file_hash fileobj deadline w of
        (Inl e, w') \<Rightarrow> Some (Inl e, w')
      | (Inr (Inl content), w') \<Rightarrow> Some (Inr content, w')
      | (Inr (Inr key), w') \<Rightarrow> poll j env key deadline w')"

definition too_large :: "json \<Rightarrow> bool" where
  "too_large c \<longleftrightarrow> c = JInt 413 \<or> c = JFloat 413"

definition jcop_verdict :: "json \<Rightarrow> verdict result" where
  "jcop_verdict content =
     (case content of
        JObj d \<Rightarrow>
          (let is_malware = jget d ''is_malware'' in
           if is_malware = JBool True then Inr (malware (py_or (jget d ''error'') (JStr ''malware'')))
           else if is_malware = JBool False then Inr clean
           else if too_large (jget d ''error_code'') then Inr (partial (JStr ''LIMITS-EXCEEDED''))
           else Inr (partial (JStr ''UNSCANNABLE'')))
      | _ \<Rightarrow> Inl (AttributeError ''no attribute 'get' ''))"

definition jcop_scan ::
    "jcop \<Rightarrow> 'w jcop_env \<Rightarrow> (8 word list \<Rightarrow> string) \<Rightarrow> 8 word list \<Rightarrow> 'w \<Rightarrow> (verdict result \<times> 'w) option" where
  "jcop_scan j env sha256 fileobj w =
     map_option (\<lambda>(r, w'). (rbind r jcop_verdict, w')) (analyse j env (sha256 fileobj) fileobj w)"

text \<open>The scanner object, its calls made in the world \<open>w\<close>. A scan that never returns has no
  result; \<open>jcop_scan_returns\<close> below says when there is none such.\<close>

definition jcop_scanner ::
    "settings \<Rightarrow> 'w jcop_env \<Rightarrow> (8 word list \<Rightarrow> string) \<Rightarrow> 'w \<Rightarrow> scanner result" where
  "jcop_scanner cfg env sha256 w =
     rbind (jcop_init cfg None None None None None) (\<lambda>j. Inr
       \<lparr>sc_category = ''malware'', sc_scored = False, sc_ping = jcop_ping j env w,
        sc_scan = (\<lambda>fileobj. case jcop_scan j env sha256 fileobj w of
            Some (r, _) \<Rightarrow> r | None \<Rightarrow> Inl (OtherError ''still polling'')),
        sc_version = (\<lambda>_. Inr None)\<rparr>)"

section \<open>The contract\<close>

definition jcop_says :: "bool \<Rightarrow> json result \<Rightarrow> bool" where
  "jcop_says b content = (case content of Inr (JObj d) \<Rightarrow> jget d ''is_malware'' = JBool b | _ \<Rightarrow> False)"

interpretation jcop: scan_backend "\<lambda>c. rbind c jcop_verdict" "jcop_says False" "jcop_says True"
proof unfold_locales
  fix e :: "json result" and v
  show "(\<exists>v. rbind e jcop_verdict = Inr v \<and> v_kind v = Clean) \<longleftrightarrow> jcop_says False e"
    by (auto simp: jcop_says_def jcop_verdict_def rbind_def Let_def split: sum.splits json.splits)
  show "(\<exists>v. rbind e jcop_verdict = Inr v \<and> v_kind v = Malware) \<longleftrightarrow> jcop_says True e"
    by (auto simp: jcop_says_def jcop_verdict_def rbind_def Let_def split: sum.splits json.splits)
  show "v_kind v = Clean \<or> v_kind v = Malware \<or> v_kind v = Partial" if "rbind e jcop_verdict = Inr v"
    using that
    by (auto simp: jcop_verdict_def rbind_def Let_def split: sum.splits json.splits if_splits)
qed

section \<open>The budget\<close>

text \<open>
  What the budget relies on: time does not go backwards, a sleep lasts at least its argument, and
  one sleep with the lookup after it lasts at most \<open>d\<close>.
\<close>

definition timed :: "'w jcop_env \<Rightarrow> rat \<Rightarrow> rat \<Rightarrow> bool" where
  "timed env interval d \<longleftrightarrow>
     (\<forall>w url h t. je_clock env w \<le> je_clock env (snd (je_get env url h t w)))
     \<and> (\<forall>w. je_clock env w + interval \<le> je_clock env (je_sleep env interval w))
     \<and> (\<forall>w url h t. je_clock env (snd (je_get env url h t (je_sleep env interval w))) \<le> je_clock env w + d)"

lemma poll_returns:
  assumes timed: "timed env (jc_poll_interval j) d" and pos: "0 < jc_poll_interval j"
    and fuel: "deadline - je_clock env w \<le> of_nat n * jc_poll_interval j"
  shows "\<exists>r w'. poll j env key deadline w = Some (r, w') \<and> je_clock env w \<le> je_clock env w'
     \<and> je_clock env w' \<le> max (je_clock env w) (deadline + d)"
  using fuel
proof (induction n arbitrary: w)
  case 0
  then show ?case by (simp add: poll.simps [of _ _ _ _ w])
next
  case (Suc n)
  show ?case
  proof (cases "je_clock env w < deadline")
    case False
    then show ?thesis by (simp add: poll.simps [of _ _ _ _ w])
  next
    case True
    define p where "p = get_result j env key (je_sleep env (jc_poll_interval j) w)"
    obtain r w1 where p1: "p = (r, w1)" by (cases p)
    have w1: "w1 = snd (je_get env (results_url j key) (jcop_headers j) (jc_result_timeout j) (je_sleep env (jc_poll_interval j) w))"
      using p1 by (simp add: p_def get_result_def split: prod.splits)
    have lo: "je_clock env w + jc_poll_interval j \<le> je_clock env w1"
      using timed unfolding timed_def w1 by (meson order_trans)
    have hi: "je_clock env w1 \<le> je_clock env w + d"
      using timed unfolding timed_def w1 by blast
    have step: "poll j env key deadline w =
        (case poll_step r of Inl e \<Rightarrow> Some (Inl e, w1) | Inr (Some c) \<Rightarrow> Some (Inr c, w1)
         | Inr None \<Rightarrow> poll j env key deadline w1)"
      using True p1 by (simp add: poll.simps [of _ _ _ _ w] p_def)
    have "deadline - je_clock env w1 \<le> of_nat n * jc_poll_interval j"
      using Suc.prems lo by (simp add: algebra_simps)
    from Suc.IH [OF this] obtain r' w' where
      "poll j env key deadline w1 = Some (r', w')" "je_clock env w1 \<le> je_clock env w'"
      "je_clock env w' \<le> max (je_clock env w1) (deadline + d)" by blast
    moreover have "je_clock env w \<le> je_clock env w1" using lo pos by linarith
    moreover have "je_clock env w1 \<le> max (je_clock env w) (deadline + d)" using hi True by linarith
    ultimately show ?thesis
      unfolding step by (auto split: sum.splits option.splits)
  qed
qed

text \<open>C33: A JCOP scan returns. With a clock that runs, a positive poll interval and sleep-and-lookup
  rounds of at most \<open>d\<close> seconds, the scan gives a verdict or an error whatever the service
  answers, and the polling is over no later than \<open>d\<close> after the one deadline of the scan (or at
  the time the lookup and the submission before it took).\<close>

theorem jcop_scan_returns:
  assumes "timed env (jc_poll_interval j) d" and "0 < jc_poll_interval j"
  shows "\<exists>r w'. jcop_scan j env sha256 fileobj w = Some (r, w')
    \<and> je_clock env w' \<le>
        max (je_clock env (snd (first_lookup j env (sha256 fileobj) fileobj (je_clock env w + jc_submit_timeout j) w)))
            (je_clock env w + jc_submit_timeout j + d)"
proof -
  let ?deadline = "je_clock env w + jc_submit_timeout j"
  obtain x w1 where first: "first_lookup j env (sha256 fileobj) fileobj ?deadline w = (x, w1)"
    by (metis surj_pair)
  obtain n :: nat where "(?deadline - je_clock env w1) / jc_poll_interval j \<le> of_nat n"
    using real_arch_simple by blast
  then have n: "?deadline - je_clock env w1 \<le> of_nat n * jc_poll_interval j"
    using assms(2) by (simp add: field_simps)
  show ?thesis
    using poll_returns [OF assms n, of "projr (projr x)"] first
    by (auto simp: jcop_scan_def analyse_def Let_def split: sum.splits)
qed

text \<open>A service that never finishes an analysis, one second per lookup.\<close>

definition slow_env :: "rat jcop_env" where
  "slow_env = \<lparr>je_get = (\<lambda>_ _ _ w. (Inr \<lparr>rs_status = 200, rs_json = Inr (JObj [(''done'', JBool False)])\<rparr>, w + 1)),
     je_post = (\<lambda>_ _ _ _ w. (Inl (RequestException ''refused''), w)),
     je_clock = (\<lambda>w. w), je_sleep = (\<lambda>i w. w + i)\<rparr>"

definition slow_jcop :: jcop where
  "slow_jcop = \<lparr>jc_base_url = ''https://jcop/api/v1'', jc_api_key = ''k'', jc_result_timeout = 30,
     jc_submit_timeout = 12, jc_poll_interval = 5\<rparr>"

theorem jcop_scan_returns_witness:
  "\<exists>r w'. jcop_scan slow_jcop slow_env (\<lambda>_. ''e3b0'') [] 0 = Some (r, w') \<and> w' \<le> 18"
proof -
  have "timed slow_env (jc_poll_interval slow_jcop) 6"
    by (simp add: timed_def slow_env_def slow_jcop_def)
  from jcop_scan_returns [OF this, of "\<lambda>_. ''e3b0''" "[]" 0]
  show ?thesis
    by (simp add: slow_env_def slow_jcop_def first_lookup_def get_result_def wrap_request_def
        done_content_def json_get_def jget_def)
qed

end
