(* ===== verification/Backends.thy ===== *)
theory Backends
  imports Exav Jcop
begin

text \<open>
  The shipped registry: \<open>_BUILDERS\<close> of \<open>src/scanner.py\<close> with the three backends, over the
  parameters of the outside world (daemons, service, random choice), and what a clean report of
  it says about the engines' own answers.
\<close>

text \<open>Everything outside the program that a scan depends on.\<close>

record ('s, 'w) outside =
  out_pick :: "nat \<Rightarrow> nat"
  out_clamd :: clamd_lib
  out_exav_ping :: "client \<Rightarrow> string result"
  out_exav_socket :: "client \<Rightarrow> 's sock_ops \<times> 's"
  out_loads :: "string \<Rightarrow> json result"
  out_jcop :: "'w jcop_env"
  out_sha256 :: "8 word list \<Rightarrow> string"
  out_world :: 'w

definition shipped_builders :: "settings \<Rightarrow> ('s, 'w) outside \<Rightarrow> builders" where
  "shipped_builders cfg out =
     [(''clamav'', Inr (clamav_scanner cfg (out_pick out) (out_clamd out))),
      (''exav'', exav_scanner cfg (out_pick out) (out_exav_ping out) (out_exav_socket out) (out_loads out)),
      (''jcop'', jcop_scanner cfg (out_jcop out) (out_sha256 out) (out_world out))]"

section \<open>What the engines answered\<close>

definition clamd_answer :: "settings \<Rightarrow> ('s, 'w) outside \<Rightarrow> 8 word list \<Rightarrow> clamd_reply result" where
  "clamd_answer cfg out bs = rbind (clamav_client cfg (out_pick out)) (\<lambda>c. cl_instream (out_clamd out) c bs)"

definition exav_answer :: "settings \<Rightarrow> ('s, 'w) outside \<Rightarrow> 8 word list \<Rightarrow> string result" where
  "exav_answer cfg out bs = rbind (exav_client cfg (out_pick out))
     (\<lambda>c. case out_exav_socket out c of (ops, s) \<Rightarrow> fst (exinstream ops bs s))"

definition jcop_answer :: "settings \<Rightarrow> ('s, 'w) outside \<Rightarrow> 8 word list \<Rightarrow> json result" where
  "jcop_answer cfg out bs =
     rbind (jcop_init cfg None None None None None) (\<lambda>j.
       case analyse j (out_jcop out) (out_sha256 out bs) bs (out_world out) of
         Some (r, _) \<Rightarrow> r | None \<Rightarrow> Inl (OtherError ''still polling''))"

text \<open>The engine of that name answered that it examined the whole file and found nothing; that it
  found malware.\<close>

definition says_clean :: "settings \<Rightarrow> ('s, 'w) outside \<Rightarrow> string \<Rightarrow> 8 word list \<Rightarrow> bool" where
  "says_clean cfg out n bs \<longleftrightarrow>
     (n = ''clamav'' \<and> clamd_examined (clamd_answer cfg out bs))
     \<or> (n = ''exav'' \<and> exav_status (out_loads out) (exav_answer cfg out bs) = JStr ''OK'')
     \<or> (n = ''jcop'' \<and> jcop_says False (jcop_answer cfg out bs))"

definition says_malware :: "settings \<Rightarrow> ('s, 'w) outside \<Rightarrow> string \<Rightarrow> 8 word list \<Rightarrow> bool" where
  "says_malware cfg out n bs \<longleftrightarrow>
     (n = ''clamav'' \<and> clamd_accused (clamd_answer cfg out bs))
     \<or> (n = ''exav'' \<and> exav_status (out_loads out) (exav_answer cfg out bs) = JStr ''FOUND'')
     \<or> (n = ''jcop'' \<and> jcop_says True (jcop_answer cfg out bs))"

lemma shipped_cases:
  assumes "map_of (shipped_builders cfg out) n = Some (Inr s)"
  obtains "n = ''clamav''" "s = clamav_scanner cfg (out_pick out) (out_clamd out)"
  | "n = ''exav''" "exav_scanner cfg (out_pick out) (out_exav_ping out) (out_exav_socket out) (out_loads out) = Inr s"
  | "n = ''jcop''" "jcop_scanner cfg (out_jcop out) (out_sha256 out) (out_world out) = Inr s"
  using assms by (auto simp: shipped_builders_def split: if_splits)

lemma shipped_axis:
  assumes "map_of (shipped_builders cfg out) n = Some (Inr s)"
  shows "sc_category s = ''malware'' \<and> \<not> sc_scored s"
  using assms
proof (cases rule: shipped_cases)
  case 1
  then show ?thesis by (simp add: clamav_scanner_def)
next
  case 2
  then show ?thesis by (auto simp: exav_scanner_def split: if_splits)
next
  case 3
  then show ?thesis by (auto simp: jcop_scanner_def rbind_Inr_iff)
qed

lemma jcop_scan_answer:
  assumes "jcop_scanner cfg (out_jcop out) (out_sha256 out) (out_world out) = Inr s"
  shows "sc_scan s bs = rbind (jcop_answer cfg out bs) jcop_verdict"
  using assms
  by (auto simp: jcop_scanner_def rbind_Inr_iff jcop_answer_def jcop_scan_def split: option.splits)

lemma shipped_outcome:
  assumes "map_of (shipped_builders cfg out) n = Some (Inr s)"
  shows "fst (scan_outcome (sc_scan s bs)) = Clean \<longleftrightarrow> says_clean cfg out n bs"
    and "fst (scan_outcome (sc_scan s bs)) = Malware \<longleftrightarrow> says_malware cfg out n bs"
    and "fst (scan_outcome (sc_scan s bs)) \<noteq> Flagged"
  using assms
proof (atomize (full), cases rule: shipped_cases)
  case 1
  then have "sc_scan s bs = clamav_verdict (clamd_answer cfg out bs)"
    by (simp add: clamav_scanner_def clamav_scan_def clamd_answer_def)
  then show "(fst (scan_outcome (sc_scan s bs)) = Clean \<longleftrightarrow> says_clean cfg out n bs) \<and>
      (fst (scan_outcome (sc_scan s bs)) = Malware \<longleftrightarrow> says_malware cfg out n bs) \<and>
      fst (scan_outcome (sc_scan s bs)) \<noteq> Flagged"
    using 1(1) by (simp add: says_clean_def says_malware_def clamd.outcome_clean clamd.outcome_malware clamd.not_flagged)
next
  case 2
  then have "sc_scan s bs = exav_reply (out_loads out) (exav_answer cfg out bs)"
    by (auto simp: exav_scanner_def exav_scan_def exav_answer_def split: if_splits)
  then show "(fst (scan_outcome (sc_scan s bs)) = Clean \<longleftrightarrow> says_clean cfg out n bs) \<and>
      (fst (scan_outcome (sc_scan s bs)) = Malware \<longleftrightarrow> says_malware cfg out n bs) \<and>
      fst (scan_outcome (sc_scan s bs)) \<noteq> Flagged"
    using 2(1) by (simp add: says_clean_def says_malware_def exav.outcome_clean exav.outcome_malware exav.not_flagged)
next
  case 3
  then show "(fst (scan_outcome (sc_scan s bs)) = Clean \<longleftrightarrow> says_clean cfg out n bs) \<and>
      (fst (scan_outcome (sc_scan s bs)) = Malware \<longleftrightarrow> says_malware cfg out n bs) \<and>
      fst (scan_outcome (sc_scan s bs)) \<noteq> Flagged"
    by (simp add: jcop_scan_answer says_clean_def says_malware_def jcop.outcome_clean jcop.outcome_malware
        jcop.not_flagged)
qed

lemma scan_result_fields [simp]:
  "sr_scanner (scan_result cfg f dur n s) = n"
  "sr_category (scan_result cfg f dur n s) = sc_category s"
  "sr_scored (scan_result cfg f dur n s) = sc_scored s"
  "sr_advisory (scan_result cfg f dur n s) \<longleftrightarrow> n \<in> set (advisory_scanners cfg)"
  "sr_kind (scan_result cfg f dur n s) = fst (scan_outcome (rbind (f n) (sc_scan s)))"
  by (simp_all add: scan_result_def split: prod.splits)

lemma scan_result_kind:
  "sr_kind (scan_result cfg f dur n s) = k \<longleftrightarrow>
     (case f n of Inl _ \<Rightarrow> k = Error | Inr bs \<Rightarrow> fst (scan_outcome (sc_scan s bs)) = k)"
  by (auto simp: scan_outcome_def split: sum.splits exn.splits)

text \<open>The deciding results of the one axis are those of the deciding scanners.\<close>

lemma deciding_results:
  "deciding (map (\<lambda>n. scan_result cfg f dur n (g n)) names)
     = map (\<lambda>n. scan_result cfg f dur n (g n)) (deciding_scanners cfg names)"
  by (simp add: deciding_def deciding_scanners_def Let_def filter_map comp_def)

lemma shipped_run:
  assumes "cache_ok (shipped_builders cfg out) c"
    and avail: "set names \<subseteq> {n. \<exists>s. map_of (shipped_builders cfg out) n = Some (Inr s)}"
    and run: "run_scanners cfg (shipped_builders cfg out) names f dur client (c, m) = (Inr rs, st)"
  shows "rs = map (\<lambda>n. scan_result cfg f dur n (projr (build (shipped_builders cfg out) n))) names"
    and "results_of ''malware'' rs = rs" and "axis_ok rs"
proof -
  have "names \<noteq> []" using run by (auto simp: run_scanners_def)
  from run_scanners_built [OF assms(1,2) this, of cfg f dur client m] run
  show rs: "rs = map (\<lambda>n. scan_result cfg f dur n (projr (build (shipped_builders cfg out) n))) names"
    by (auto simp: scan_results_def)
  have "sc_category s = ''malware'' \<and> \<not> sc_scored s"
    if "n \<in> set names" "s = projr (build (shipped_builders cfg out) n)" for n s
    using that avail shipped_axis by (fastforce simp: build_def)
  then have "\<forall>r\<in>set rs. sr_category r = ''malware'' \<and> \<not> sr_scored r"
    unfolding rs by auto
  then show "results_of ''malware'' rs = rs" and "axis_ok rs"
    using rs \<open>names \<noteq> []\<close> by (auto simp: results_of_def axis_ok_def list_all_iff filter_id_conv)
qed

lemma shipped_clean_iff:
  assumes "cache_ok (shipped_builders cfg out) c"
    and avail: "set names \<subseteq> {n. \<exists>s. map_of (shipped_builders cfg out) n = Some (Inr s)}"
    and run: "run_scanners cfg (shipped_builders cfg out) names f dur client (c, m) = (Inr rs, st)"
    and v: "map_of (verdicts rs) ''malware'' = Some v"
  shows "cv_kind v = Clean \<longleftrightarrow>
     set (deciding_scanners cfg names) \<subseteq> {n. \<exists>bs. f n = Inr bs \<and> says_clean cfg out n bs}
     \<and> set names \<inter> {n. \<exists>bs. f n = Inr bs \<and> says_malware cfg out n bs} = {}"
proof -
  let ?g = "\<lambda>n. projr (build (shipped_builders cfg out) n)"
  note rs = shipped_run [OF assms(1-3)]
  have g: "map_of (shipped_builders cfg out) n = Some (Inr (?g n))" if "n \<in> set names" for n
    using that avail by (auto simp: build_def)
  have dec: "set (deciding_scanners cfg names) \<subseteq> set names" by (auto simp: deciding_scanners_mem)
  have k: "sr_kind (scan_result cfg f dur n (?g n)) = Clean \<longleftrightarrow> (\<exists>bs. f n = Inr bs \<and> says_clean cfg out n bs)"
    "sr_kind (scan_result cfg f dur n (?g n)) = Malware \<longleftrightarrow> (\<exists>bs. f n = Inr bs \<and> says_malware cfg out n bs)"
    "sr_kind (scan_result cfg f dur n (?g n)) \<noteq> Flagged" if "n \<in> set names" for n
    unfolding scan_result_kind using shipped_outcome [OF g [OF that]] by (auto split: sum.splits)
  have "cv_kind v = cv_kind (reduce_category rs)"
    using v rs(2) by (auto simp: map_of_verdicts split: if_splits)
  then have "cv_kind v = Clean \<longleftrightarrow>
      (\<forall>r\<in>set rs. sr_kind r \<noteq> Malware \<and> sr_kind r \<noteq> Flagged) \<and> (\<forall>r\<in>set (deciding rs). sr_kind r = Clean)"
    by (simp add: reduce_clean_iff rs(3))
  also have "\<dots> \<longleftrightarrow> (\<forall>n\<in>set names. \<not> (\<exists>bs. f n = Inr bs \<and> says_malware cfg out n bs))
      \<and> (\<forall>n\<in>set (deciding_scanners cfg names). \<exists>bs. f n = Inr bs \<and> says_clean cfg out n bs)"
    unfolding rs(1) deciding_results using k dec by (simp del: scan_result_fields add: subset_iff) 
  finally show ?thesis by blast
qed

text \<open>C12: What a clean answer asserts. With the shipped engines, whatever the daemons, the service,
  the network and the file do: the malware axis is reported clean exactly when every deciding
  engine of the selection could read the file and itself answered that it examined it in full
  and found nothing, and no engine of the selection, advisory or not, answered malware.\<close>

theorem clean_means_every_deciding_engine_said_so:
  assumes "cache_ok (shipped_builders cfg out) c"
    and avail: "set names \<subseteq> {n. \<exists>s. map_of (shipped_builders cfg out) n = Some (Inr s)}"
    and run: "run_scanners cfg (shipped_builders cfg out) names f dur client (c, m) = (Inr rs, st)"
    and v: "map_of (verdicts rs) ''malware'' = Some v"
  shows "cv_kind v = Clean \<longleftrightarrow>
     set (deciding_scanners cfg names) \<subseteq> {n. \<exists>bs. f n = Inr bs \<and> says_clean cfg out n bs}
     \<and> set names \<inter> {n. \<exists>bs. f n = Inr bs \<and> says_malware cfg out n bs} = {}"
  using assms by (rule shipped_clean_iff)

definition sample_outside :: "(8 word list, rat) outside" where
  "sample_outside = \<lparr>out_pick = (\<lambda>_. 0),
     out_clamd = \<lparr>cl_ping = (\<lambda>_. Inr ''PONG''), cl_instream = (\<lambda>_ _. Inr [(''stream'', (''OK'', None))]),
       cl_version = (\<lambda>_ _. Inr ''ClamAV 1.0/25480/Fri''), cl_dns = (\<lambda>_ _. Inr [[''0.103.1:59:25480:1:1'']])\<rparr>,
     out_exav_ping = (\<lambda>_. Inr ''PONG''),
     out_exav_socket = (\<lambda>_. (\<lparr>so_init = Pair (Inr ()), so_command = (\<lambda>_. Pair (Inr ())), so_sendall = log_send,
       so_recv = Pair (Inr ''UNKNOWN COMMAND''), so_close = (\<lambda>s. s)\<rparr>, [])),
     out_loads = (\<lambda>_. Inl (JSONDecodeError ''Expecting value'')),
     out_jcop = slow_env, out_sha256 = (\<lambda>_. ''e3b0''), out_world = 0\<rparr>"

lemma sample_clamd_answer: "clamd_answer default_settings sample_outside bs = Inr [(''stream'', (''OK'', None))]"
proof -
  have "parse_hosts ''localhost:3310'' = Inr [(''localhost'', 3310)]"
    by (simp add: parse_hosts_def str_strip_def is_space_def str_partition_def py_int_def is_digit_def
        digits_val_def digit_val_def Let_def)
  then show ?thesis
    by (simp add: clamd_answer_def clamav_client_def clamav_endpoints_def default_settings_def
        random_choice_def sample_outside_def)
qed

lemma sample_clamav: "map_of (shipped_builders default_settings sample_outside) ''clamav''
   = Some (Inr (clamav_scanner default_settings (\<lambda>_. 0) (out_clamd sample_outside)))"
  by (simp add: shipped_builders_def sample_outside_def)

text \<open>A run of clamd alone over a file it clears.\<close>

lemma sample_run:
  obtains r where
    "run_scanners default_settings (shipped_builders default_settings sample_outside) [''clamav''] (\<lambda>_. Inr bs) dur client ([], m)
      = (Inr [r], snd (run_scanners default_settings (shipped_builders default_settings sample_outside) [''clamav'']
          (\<lambda>_. Inr bs) dur client ([], m)))"
    and "sr_category r = ''malware''" and "sr_kind r = Clean"
proof -
  let ?s = "clamav_scanner default_settings (\<lambda>_. 0) (out_clamd sample_outside)"
  let ?r = "scan_result default_settings (\<lambda>_. Inr bs) dur ''clamav'' ?s"
  have c: "sr_category ?r = ''malware''" using shipped_axis [OF sample_clamav] by simp
  have k: "sr_kind ?r = Clean"
    unfolding scan_result_kind
    using shipped_outcome(1) [OF sample_clamav, of bs] by (simp add: says_clean_def sample_clamd_answer clamd_examined_def)
  show thesis
    by (rule that [OF _ c k]) (simp add: run_scanners_def scan_one_def get_scanner_def sample_clamav Let_def)
qed

theorem clean_means_every_deciding_engine_said_so_witness:
  "\<exists>v. map_of (verdicts (projr (fst (run_scanners default_settings (shipped_builders default_settings sample_outside)
        [''clamav''] (\<lambda>_. Inr [0x50]) (\<lambda>_. 1) ''drive'' ([], initial_metrics))))) ''malware'' = Some v
    \<and> cv_kind v = Clean"
proof -
  let ?b = "shipped_builders default_settings sample_outside"
  let ?run = "run_scanners default_settings ?b [''clamav''] (\<lambda>_. Inr [0x50]) (\<lambda>_. 1) ''drive'' ([], initial_metrics)"
  obtain r where run: "?run = (Inr [r], snd ?run)" and r: "sr_category r = ''malware''"
    by (rule sample_run)
  have v: "map_of (verdicts [r]) ''malware'' = Some (reduce_category [r])"
    by (simp add: map_of_verdicts results_of_def r)
  have s: "set [''clamav''] \<subseteq> {n. \<exists>s. map_of ?b n = Some (Inr s)}" using sample_clamav by simp
  have d: "deciding_scanners default_settings [''clamav''] = [''clamav'']"
    by (simp add: deciding_scanners_def Let_def)
  have "cv_kind (reduce_category [r]) = Clean"
    unfolding clean_means_every_deciding_engine_said_so [OF cache_ok_Nil s run v] d
    by (simp add: says_clean_def says_malware_def sample_clamd_answer clamd_examined_def clamd_accused_def)
  with v run show ?thesis by (metis sum.sel(2) fst_conv)
qed

end
