(* ===== verification/Encryption.thy ===== *)
theory Encryption
  imports Json "HOL-Library.Word"
begin

text \<open>
  Client-side encryption (\<open>src/encryption.py\<close>): the base64 decoder of the standard library as the
  state machine it is, the key fragment, the additional data of a chunk and the decryption of
  one chunk. The AEAD cipher is the parameter \<open>gcm\<close>: key, IV, body and additional data to the
  plaintext, \<open>None\<close> when the tag does not verify.
\<close>

definition scheme :: string where
  "scheme = ''aes-256-gcm-chunked-v1''"

definition schemes :: "json list" where
  "schemes = [JStr scheme]"

definition iv_bytes :: nat where "iv_bytes = 12"

definition gcm_tag_bytes :: nat where "gcm_tag_bytes = 16"

definition key_bytes :: nat where "key_bytes = 32"

definition overhead_per_chunk :: nat where
  "overhead_per_chunk = iv_bytes + gcm_tag_bytes"

section \<open>Base64\<close>

text \<open>The value of a character of the standard alphabet.\<close>

definition b64_val :: "char \<Rightarrow> nat option" where
  "b64_val ch =
     (let n = (of_char ch :: nat) in
      if 65 \<le> n \<and> n \<le> 90 then Some (n - 65)
      else if 97 \<le> n \<and> n \<le> 122 then Some (n - 71)
      else if 48 \<le> n \<and> n \<le> 57 then Some (n + 4)
      else if ch = CHR ''+'' then Some 62
      else if ch = CHR ''/'' then Some 63
      else None)"

text \<open>
  \<open>binascii.a2b_base64\<close> without strict mode: \<open>q\<close> characters of the current quadruple were read,
  \<open>left\<close> holds their bits that are not written yet and \<open>pads\<close> counts the padding seen. A
  character outside the alphabet is skipped; the padding that completes a quadruple ends the
  input.
\<close>

fun a2b :: "nat \<Rightarrow> nat \<Rightarrow> nat \<Rightarrow> string \<Rightarrow> nat list result" where
  "a2b q left pads [] =
     (if q = 0 then Inr []
      else if q = 1 then Inl (BinasciiError
        ''Invalid base64-encoded string: number of data characters cannot be 1 more than a multiple of 4'')
      else Inl (BinasciiError ''Incorrect padding''))"
| "a2b q left pads (ch # s) =
     (if ch = CHR ''='' then
        (if 2 \<le> q \<and> 4 \<le> q + Suc pads then Inr []
         else a2b q left (if 2 \<le> q then Suc pads else pads) s)
      else case b64_val ch of
          None \<Rightarrow> a2b q left pads s
        | Some v \<Rightarrow>
            if q = 0 then a2b 1 v 0 s
            else if q = 1 then rbind (a2b 2 (v mod 16) 0 s) (\<lambda>bs. Inr ((left * 4 + v div 16) # bs))
            else if q = 2 then rbind (a2b 3 (v mod 4) 0 s) (\<lambda>bs. Inr ((left * 16 + v div 4) # bs))
            else rbind (a2b 0 0 0 s) (\<lambda>bs. Inr ((left * 64 + v) # bs)))"

text \<open>\<open>urlsafe_b64decode\<close>: the two url-safe characters are translated first.\<close>

definition url_to_std :: "char \<Rightarrow> char" where
  "url_to_std ch = (if ch = CHR ''-'' then CHR ''+'' else if ch = CHR ''_'' then CHR ''/'' else ch)"

definition urlsafe_b64decode :: "string \<Rightarrow> 8 word list result" where
  "urlsafe_b64decode s = rbind (a2b 0 0 0 (map url_to_std s)) (\<lambda>bs. Inr (map word_of_nat bs))"

section \<open>The key\<close>

definition url_char :: "char \<Rightarrow> bool" where
  "url_char ch = (let n = (of_char ch :: nat) in
     (65 \<le> n \<and> n \<le> 90) \<or> (97 \<le> n \<and> n \<le> 122) \<or> (48 \<le> n \<and> n \<le> 57) \<or> ch = CHR ''_'' \<or> ch = CHR ''-'')"

definition fragment_body :: "string \<Rightarrow> bool" where
  "fragment_body s \<longleftrightarrow> takeWhile url_char s \<noteq> [] \<and> dropWhile url_char s \<in> {'''', ''='', ''==''}"

text \<open>\<open>_FRAGMENT_RE.match\<close>: the \<open>$\<close> of the expression also matches before a final newline.\<close>

definition fragment_re :: "string \<Rightarrow> bool" where
  "fragment_re s \<longleftrightarrow>
     fragment_body s \<or> (s \<noteq> [] \<and> last s = CHR 10 \<and> fragment_body (butlast s))"

definition decode_key :: "json \<Rightarrow> 8 word list result" where
  "decode_key fragment =
     (case py_or fragment (JStr []) of
        JStr s \<Rightarrow>
          if \<not> fragment_re s then Inl (DecryptionError ''key must be URL-safe base64 (A-Z a-z 0-9 - _)'')
          else rbind (urlsafe_b64decode (s @ replicate (nat (- int (length s) mod 4)) (CHR ''='')))
            (\<lambda>raw. if length raw \<noteq> key_bytes then
               Inl (DecryptionError (''expected a 32-byte key, got '' @ show_nat (length raw)))
             else Inr raw)
      | _ \<Rightarrow> Inl (TypeError ''expected string or bytes-like object''))"

section \<open>One chunk\<close>

type_synonym gcm = "8 word list \<Rightarrow> 8 word list \<Rightarrow> 8 word list \<Rightarrow> string \<Rightarrow> 8 word list option"

definition chunk_aad :: "string \<Rightarrow> int \<Rightarrow> int \<Rightarrow> string" where
  "chunk_aad file_id part_number parts = file_id @ '':'' @ show_int part_number @ '':'' @ show_int parts"

definition decrypt_chunk ::
    "gcm \<Rightarrow> 8 word list \<Rightarrow> 8 word list \<Rightarrow> string \<Rightarrow> int \<Rightarrow> int \<Rightarrow> 8 word list result" where
  "decrypt_chunk gcm key blob file_id part_number parts =
     (if length blob \<le> overhead_per_chunk then
        Inl (DecryptionError (''chunk '' @ show_int part_number @ '' is '' @ show_nat (length blob) @
          '' bytes, too short to hold an IV + tag (28) plus ciphertext''))
      else case gcm key (take iv_bytes blob) (drop iv_bytes blob) (chunk_aad file_id part_number parts) of
          Some plain \<Rightarrow> Inr plain
        | None \<Rightarrow> Inl (DecryptionError (''chunk '' @ show_int part_number @
            '' failed authentication (wrong key, chunking, or tampered/truncated ciphertext)'')))"

section \<open>The caller's side\<close>

text \<open>The url-safe encoding of the key a caller sends, without padding.\<close>

definition b64_char :: "nat \<Rightarrow> char" where
  "b64_char v = (if v < 26 then char_of (v + 65) else if v < 52 then char_of (v + 71)
     else if v < 62 then char_of (v - 4) else if v = 62 then CHR ''-'' else CHR ''_'')"

fun b64_encode :: "nat list \<Rightarrow> nat list" where
  "b64_encode (a # b # c # bs) =
     [a div 4, (a mod 4) * 16 + b div 16, (b mod 16) * 4 + c div 64, c mod 64] @ b64_encode bs"
| "b64_encode [a, b] = [a div 4, (a mod 4) * 16 + b div 16, (b mod 16) * 4]"
| "b64_encode [a] = [a div 4, (a mod 4) * 16]"
| "b64_encode [] = []"

definition encode_key :: "8 word list \<Rightarrow> string" where
  "encode_key key = map b64_char (b64_encode (map unat key))"

lemma unat_byte_less: "unat (w :: 8 word) < 256"
  using unsigned_less [of w] by simp

lemma char_eq_iff: "ch = CHR ''+'' \<longleftrightarrow> of_char ch = (43 :: nat)" "ch = CHR ''-'' \<longleftrightarrow> of_char ch = (45 :: nat)"
  "ch = CHR ''/'' \<longleftrightarrow> of_char ch = (47 :: nat)" "ch = CHR ''='' \<longleftrightarrow> of_char ch = (61 :: nat)"
  "ch = CHR ''_'' \<longleftrightarrow> of_char ch = (95 :: nat)"
  using of_char_eq_iff [of ch "CHR ''+''", where 'a = nat] of_char_eq_iff [of ch "CHR ''-''", where 'a = nat]
    of_char_eq_iff [of ch "CHR ''/''", where 'a = nat] of_char_eq_iff [of ch "CHR ''=''", where 'a = nat]
    of_char_eq_iff [of ch "CHR ''_''", where 'a = nat]
  by simp_all

lemma of_char_b64:
  "v < 64 \<Longrightarrow> of_char (b64_char v) =
     (if v < 26 then v + 65 else if v < 52 then v + 71 else if v < 62 then v - 4 else if v = 62 then 45 else 95 :: nat)"
  by (simp add: b64_char_def)

lemma b64_val_char: "v < 64 \<Longrightarrow> b64_val (url_to_std (b64_char v)) = Some v"
  by (auto simp: b64_val_def url_to_std_def char_eq_iff of_char_b64 Let_def)

lemma url_char_b64: "v < 64 \<Longrightarrow> url_char (b64_char v) \<and> url_to_std (b64_char v) \<noteq> CHR ''=''"
  by (auto simp: url_char_def url_to_std_def char_eq_iff of_char_b64 Let_def)

text \<open>One step of the decoder on an encoded sextet.\<close>

lemma a2b_sextet:
  assumes "v < 64"
  shows "a2b q left pads (url_to_std (b64_char v) # s) =
     (if q = 0 then a2b 1 v 0 s
      else if q = 1 then rbind (a2b 2 (v mod 16) 0 s) (\<lambda>bs. Inr ((left * 4 + v div 16) # bs))
      else if q = 2 then rbind (a2b 3 (v mod 4) 0 s) (\<lambda>bs. Inr ((left * 16 + v div 4) # bs))
      else rbind (a2b 0 0 0 s) (\<lambda>bs. Inr ((left * 64 + v) # bs)))"
  using b64_val_char [OF assms] url_char_b64 [OF assms] by simp

lemma sextets:
  fixes a b c :: nat
  assumes "a < 256" "b < 256" "c < 256"
  shows "a div 4 < 64" "(a mod 4) * 16 + b div 16 < 64" "(b mod 16) * 4 + c div 64 < 64" "c mod 64 < 64"
    "(a mod 4) * 16 < 64" "(b mod 16) * 4 < 64"
  using assms by simp_all

lemma regroup:
  fixes a b c :: nat
  assumes "a < 256" "b < 256" "c < 256"
  shows "a div 4 * 4 + ((a mod 4) * 16 + b div 16) div 16 = a"
    "((a mod 4) * 16 + b div 16) mod 16 * 16 + ((b mod 16) * 4 + c div 64) div 4 = b"
    "((b mod 16) * 4 + c div 64) mod 4 * 64 + c mod 64 = c"
    "((a mod 4) * 16 + b div 16) mod 16 * 16 + ((b mod 16) * 4) div 4 = b"
proof -
  have y: "b div 16 < 16" "c div 64 < 4" using assms by simp_all
  have dm: "(x * n + y) div n = x \<and> (x * n + y) mod n = y" if "y < n" for x y n :: nat
    using that by simp
  show "a div 4 * 4 + ((a mod 4) * 16 + b div 16) div 16 = a" by (simp only: dm [OF y(1)]) simp
  show "((a mod 4) * 16 + b div 16) mod 16 * 16 + ((b mod 16) * 4 + c div 64) div 4 = b"
    by (simp only: dm [OF y(1)] dm [OF y(2)]) simp
  show "((b mod 16) * 4 + c div 64) mod 4 * 64 + c mod 64 = c" by (simp only: dm [OF y(2)]) simp
  show "((a mod 4) * 16 + b div 16) mod 16 * 16 + ((b mod 16) * 4) div 4 = b"
    by (simp only: dm [OF y(1)]) simp
qed

text \<open>With two bytes left over, as a 32-byte key has, the padding the decoder adds completes the
  last quadruple.\<close>

lemma a2b_encode:
  assumes "\<forall>x\<in>set bs. x < 256" and "length bs mod 3 = 2"
  shows "a2b 0 0 0 (map url_to_std (map b64_char (b64_encode bs)) @ [CHR ''='']) = Inr bs"
  using assms
proof (induction bs rule: b64_encode.induct)
  case (1 a b c bs)
  then have lt: "a < 256" "b < 256" "c < 256" by simp_all
  define s1 s2 where "s1 = (a mod 4) * 16 + b div 16" and "s2 = (b mod 16) * 4 + c div 64"
  note rg = regroup(1-3) [OF lt, folded s1_def s2_def]
  note sx = sextets(1-4) [OF lt, folded s1_def s2_def]
  have IH: "a2b 0 0 0 (map url_to_std (map b64_char (b64_encode bs)) @ [CHR ''='']) = Inr bs"
    using 1 by simp
  then show ?case
    unfolding b64_encode.simps(1) s1_def [symmetric] s2_def [symmetric]
    by (simp add: a2b_sextet sx rg del: a2b.simps(2))
next
  case (2 a b)
  then have lt: "a < 256" "b < 256" by simp_all
  define s1 where "s1 = (a mod 4) * 16 + b div 16"
  have "a2b 3 x 0 [CHR ''=''] = Inr []" for x by simp
  moreover have "s1 < 64" "a div 4 < 64" "(b mod 16) * 4 < 64" "a div 4 * 4 + s1 div 16 = a"
    "s1 mod 16 * 16 + ((b mod 16) * 4) div 4 = b"
    using regroup(1,4) [OF lt(1,2), of 0] sextets [OF lt(1,2), of 0] unfolding s1_def by simp_all
  ultimately show ?case
    unfolding b64_encode.simps(2) s1_def [symmetric] by (simp add: a2b_sextet del: a2b.simps(2))
qed simp_all

lemma length_b64_encode: "length (b64_encode bs) = (4 * length bs + 2) div 3"
  by (induction bs rule: b64_encode.induct) simp_all

lemma b64_encode_sextets:
  assumes "\<forall>x\<in>set bs. x < 256"
  shows "\<forall>v\<in>set (b64_encode bs). v < 64"
  using assms
proof (induction bs rule: b64_encode.induct)
  case (1 a b c bs)
  then show ?case using sextets [of a b c] by simp
next
  case (2 a b)
  then show ?case using sextets [of a b 0] by simp
next
  case (3 a)
  then show ?case using sextets [of a 0 0] by simp
qed simp

lemma key_chars:
  assumes "length key = key_bytes"
  shows "length (encode_key key) = 43" and "list_all url_char (encode_key key)"
proof -
  have "\<forall>x\<in>set (map unat key). x < 256" by (simp add: unat_byte_less)
  then show "list_all url_char (encode_key key)"
    using b64_encode_sextets [of "map unat key"] url_char_b64 by (auto simp: encode_key_def list_all_iff)
  show "length (encode_key key) = 43" using assms by (simp add: encode_key_def length_b64_encode key_bytes_def)
qed

lemma fragment_re_key:
  assumes "list_all url_char s" and "s \<noteq> []" and "p \<in> {'''', ''=''}"
  shows "fragment_re (s @ p)"
proof -
  have "takeWhile url_char (s @ p) = s @ takeWhile url_char p" "dropWhile url_char (s @ p) = dropWhile url_char p"
    using assms(1) by (auto simp: list_all_iff)
  moreover have "dropWhile url_char p = p" using assms(3) by (auto simp: url_char_def)
  ultimately show ?thesis using assms(2,3) by (auto simp: fragment_re_def fragment_body_def)
qed

lemma decode_encoded_key:
  assumes "length key = 32" and "p \<in> {'''', ''=''}"
  shows "decode_key (JStr (encode_key key @ p)) = Inr key"
proof -
  let ?s = "encode_key key"
  have k: "length key = key_bytes" using assms(1) by (simp add: key_bytes_def)
  note s = key_chars [OF k]
  then have "?s \<noteq> []" by auto
  then have re: "fragment_re (?s @ p)" using fragment_re_key s(2) assms(2) by blast
  have bytes: "\<forall>x\<in>set (map unat key). x < 256" by (simp add: unat_byte_less)
  have "(?s @ p) @ replicate (nat (- int (length (?s @ p)) mod 4)) (CHR ''='') = ?s @ ''=''"
    using assms(2) s(1) by auto
  then have "urlsafe_b64decode ((?s @ p) @ replicate (nat (- int (length (?s @ p)) mod 4)) (CHR ''='')) = Inr key"
    using a2b_encode [OF bytes] assms(1)
    by (simp add: urlsafe_b64decode_def encode_key_def url_to_std_def comp_def)
  then show ?thesis
    using re k by (simp add: decode_key_def \<open>?s \<noteq> []\<close>)
qed

text \<open>Every AES-256 key travels: from the url-safe base64 text of any 32 bytes, with its padding
  or without it, the service gets exactly those bytes back.\<close>

theorem decode_key_of_encoding:
  assumes "length key = 32" and "p \<in> {'''', ''=''}"
  shows "decode_key (JStr (encode_key key @ p)) = Inr key"
  using assms by (rule decode_encoded_key)

theorem decode_key_of_encoding_witness:
  "decode_key (JStr (encode_key (replicate 32 0xFB))) = Inr (replicate 32 0xFB)"
  using decode_key_of_encoding [of "replicate 32 0xFB" "''''"] by simp

section \<open>What the additional data binds\<close>

lemma show_int_no_colon: "CHR '':'' \<notin> set (show_int i)"
  using show_nat_digits [of "CHR '':''"] by (auto simp: show_int_def is_digit_def)

lemma show_int_inj: "show_int i = show_int j \<longleftrightarrow> i = j"
proof
  have minus: "CHR ''-'' \<notin> set (show_nat n)" for n
    using show_nat_digits [of "CHR ''-''"] by (auto simp: is_digit_def)
  assume e: "show_int i = show_int j"
  show "i = j"
  proof (cases "i < 0"; cases "j < 0")
    assume "i < 0" "\<not> j < 0"
    with e have "CHR ''-'' \<in> set (show_nat (nat j))" by (metis show_int_def append_Cons list.set_intros(1))
    with minus show ?thesis by simp
  next
    assume "\<not> i < 0" "j < 0"
    with e have "CHR ''-'' \<in> set (show_nat (nat i))" by (metis show_int_def append_Cons list.set_intros(1))
    with minus show ?thesis by simp
  qed (use e in \<open>auto simp: show_int_def show_nat_inj\<close>)
qed simp

lemma last_field:
  assumes "xs @ c # s = ys @ c # t" and "c \<notin> set s" and "c \<notin> set t"
  shows "xs = ys \<and> s = t"
proof -
  have "takeWhile (\<lambda>x. x \<noteq> c) (rev (xs @ c # s)) = rev s"
    using assms(2) by (subst rev_append, subst rev.simps, subst append_assoc, subst takeWhile_append2) auto
  moreover have "takeWhile (\<lambda>x. x \<noteq> c) (rev (ys @ c # t)) = rev t"
    using assms(3) by (subst rev_append, subst rev.simps, subst append_assoc, subst takeWhile_append2) auto
  ultimately have "s = t" using assms(1) by simp
  with assms(1) show ?thesis by simp
qed

lemma chunk_aad_inj:
  "chunk_aad f p n = chunk_aad g q m \<longleftrightarrow> f = g \<and> p = q \<and> n = m"
proof
  assume "chunk_aad f p n = chunk_aad g q m"
  then have "(f @ '':'' @ show_int p) @ CHR '':'' # show_int n = (g @ '':'' @ show_int q) @ CHR '':'' # show_int m"
    by (simp add: chunk_aad_def)
  from last_field [OF this show_int_no_colon show_int_no_colon]
  have e: "f @ CHR '':'' # show_int p = g @ CHR '':'' # show_int q" "show_int n = show_int m" by simp_all
  moreover from last_field [OF e(1) show_int_no_colon show_int_no_colon]
  have "f = g \<and> show_int p = show_int q" .
  ultimately show "f = g \<and> p = q \<and> n = m" by (simp add: show_int_inj)
qed simp

end
