(* ===== verification/Download.thy ===== *)
theory Download
  imports Encryption Config
begin

text \<open>
  The download writers of \<open>src/tasks.py\<close>: the size and time budgets, the writer of a plain body and
  the writer that decrypts a client-encrypted one. A body is the list of the chunks the network
  layer yields, each with the seconds elapsed since the start when it arrives, and the exception
  that cuts it short, if any. A writer gives its result and what the file then holds.
\<close>

type_synonym wire_body = "(8 word list \<times> rat) list"

type_synonym enc_params = "(string, json) dict"

text \<open>\<open>None\<close> and the empty dictionary are both no parameters.\<close>

definition wire_cap :: "settings \<Rightarrow> enc_params \<Rightarrow> int" where
  "wire_cap cfg enc =
     (let cap = cfg_max_url_size cfg in
      if enc = [] then cap
      else case rbind (item enc ''chunk_size'') json_int of
          Inl _ \<Rightarrow> cap
        | Inr chunk_size \<Rightarrow>
            if chunk_size \<le> 0 then cap
            else cap + max 1 (ceil_div cap chunk_size) * int overhead_per_chunk)"

definition check_limits :: "settings \<Rightarrow> nat \<Rightarrow> rat \<Rightarrow> int \<Rightarrow> unit result" where
  "check_limits cfg read_bytes elapsed cap =
     (if of_int (cfg_download_max_seconds cfg) < elapsed then
        Inl (FileError (''download_timeout: exceeded '' @ show_int (cfg_download_max_seconds cfg) @
          ''s total transfer budget''))
      else if cap < int read_bytes then
        Inl (FileError (''file_too_large: streamed over '' @ show_int cap @
          '' bytes (Content-Length missing or understated)''))
      else Inr ())"

text \<open>The end of the body: the exception that cut it, or the value.\<close>

definition at_end :: "exn option \<Rightarrow> 'a result \<Rightarrow> 'a result" where
  "at_end fin r = (case fin of Some e \<Rightarrow> Inl e | None \<Rightarrow> r)"

fun plain_loop :: "settings \<Rightarrow> exn option \<Rightarrow> nat \<Rightarrow> 8 word list \<Rightarrow> wire_body \<Rightarrow> nat result \<times> 8 word list" where
  "plain_loop cfg fin read out [] = (at_end fin (Inr read), out)"
| "plain_loop cfg fin read out ((chunk, t) # rest) =
     (let read' = read + length chunk in
      case check_limits cfg read' t (cfg_max_url_size cfg) of
        Inl e \<Rightarrow> (Inl e, out)
      | Inr _ \<Rightarrow> plain_loop cfg fin read' (out @ chunk) rest)"

definition write_plaintext :: "settings \<Rightarrow> wire_body \<Rightarrow> exn option \<Rightarrow> nat result \<times> 8 word list" where
  "write_plaintext cfg body fin = plain_loop cfg fin 0 [] body"

section \<open>Decrypting\<close>

record chunk_params =
  cp_key :: "8 word list"
  cp_file_id :: string
  cp_chunk_size :: int
  cp_parts :: int

definition invalid_params :: "exn \<Rightarrow> exn" where
  "invalid_params e =
     (case e of
        KeyError m \<Rightarrow> DecryptionError (''invalid encryption params: '' @ m)
      | TypeError m \<Rightarrow> DecryptionError (''invalid encryption params: '' @ m)
      | _ \<Rightarrow> if is_value_error e then DecryptionError (''invalid encryption params: '' @ exn_str e) else e)"

definition read_params :: "enc_params \<Rightarrow> chunk_params result" where
  "read_params enc =
     rbind (rbind (item enc ''key'') decode_key) (\<lambda>key.
     rbind (item enc ''file_id'') (\<lambda>file_id.
     rbind (rbind (item enc ''chunk_size'') json_int) (\<lambda>chunk_size.
     rbind (rbind (item enc ''parts'') json_int) (\<lambda>parts.
       Inr \<lparr>cp_key = key, cp_file_id = json_str file_id, cp_chunk_size = chunk_size, cp_parts = parts\<rparr>))))"

definition check_params :: "settings \<Rightarrow> enc_params \<Rightarrow> chunk_params result" where
  "check_params cfg enc =
     (let sch = (case map_of enc ''scheme'' of None \<Rightarrow> JStr scheme | Some v \<Rightarrow> v);
          lo = cfg_encryption_min_chunk_size cfg; hi = cfg_encryption_max_chunk_size cfg in
      if \<not> hashable sch then Inl (TypeError ''unhashable type'')
      else if sch \<notin> set schemes then
        Inl (DecryptionError (''unsupported encryption scheme '' @ json_repr sch))
      else case read_params enc of
          Inl e \<Rightarrow> Inl (invalid_params e)
        | Inr cp \<Rightarrow>
            if cp_chunk_size cp < lo \<or> hi < cp_chunk_size cp then
              Inl (DecryptionError (''chunk_size '' @ show_int (cp_chunk_size cp) @ '' out of range ('' @
                show_int lo @ ''..'' @ show_int hi @ '')''))
            else if cp_parts cp < 0 then Inl (DecryptionError (''invalid parts '' @ show_int (cp_parts cp)))
            else Inr cp)"

text \<open>Python's \<open>xs[:i]\<close> and what \<open>del xs[:i]\<close> leaves: a negative index counts from the end.\<close>

definition py_take :: "int \<Rightarrow> 'a list \<Rightarrow> 'a list" where
  "py_take i xs = (if i < 0 then take (length xs - nat (- i)) xs else take (nat i) xs)"

definition py_drop :: "int \<Rightarrow> 'a list \<Rightarrow> 'a list" where
  "py_drop i xs = (if i < 0 then drop (length xs - nat (- i)) xs else drop (nat i) xs)"

definition blob_size :: "chunk_params \<Rightarrow> int" where
  "blob_size cp = cp_chunk_size cp + int overhead_per_chunk"

text \<open>\<open>_write_plain\<close>: the plaintext written so far is the file.\<close>

definition write_plain :: "settings \<Rightarrow> 8 word list \<Rightarrow> 8 word list \<Rightarrow> 8 word list result" where
  "write_plain cfg out plain =
     (if cfg_max_url_size cfg < int (length out + length plain) then
        Inl (FileError (''file_too_large: plaintext over '' @ show_int (cfg_max_url_size cfg) @ '' bytes''))
      else Inr (out @ plain))"

text \<open>Decrypt the chunk of that number and write it.\<close>

definition write_chunk ::
    "settings \<Rightarrow> gcm \<Rightarrow> chunk_params \<Rightarrow> int \<Rightarrow> 8 word list \<Rightarrow> 8 word list \<Rightarrow> 8 word list result" where
  "write_chunk cfg gcm cp part_number out blob =
     rbind (decrypt_chunk gcm (cp_key cp) blob (cp_file_id cp) part_number (cp_parts cp)) (write_plain cfg out)"

lemma write_chunk_length: "write_chunk cfg gcm cp n out blob = Inr f \<Longrightarrow> overhead_per_chunk < length blob"
  by (auto simp: write_chunk_def decrypt_chunk_def rbind_Inr_iff split: if_splits)

lemma py_drop_shorter: "0 < length (py_take i xs) \<Longrightarrow> length (py_drop i xs) < length xs"
  by (auto simp: py_take_def py_drop_def split: if_splits)

text \<open>The inner loop: every whole chunk of the buffer.\<close>

function drain ::
    "settings \<Rightarrow> gcm \<Rightarrow> chunk_params \<Rightarrow> 8 word list \<Rightarrow> int \<Rightarrow> 8 word list
      \<Rightarrow> unit result \<times> 8 word list \<times> int \<times> 8 word list" where
  "drain cfg gcm cp buffer part_number out =
     (if int (length buffer) < blob_size cp then (Inr (), buffer, part_number, out)
      else case write_chunk cfg gcm cp (part_number + 1) out (py_take (blob_size cp) buffer) of
          Inl e \<Rightarrow> (Inl e, buffer, part_number + 1, out)
        | Inr out' \<Rightarrow> drain cfg gcm cp (py_drop (blob_size cp) buffer) (part_number + 1) out')"
  by pat_completeness auto
termination
  by (relation "measure (\<lambda>(_, _, _, buffer, _). length buffer)")
     (auto dest!: write_chunk_length intro!: py_drop_shorter)

declare drain.simps [simp del]

text \<open>The tail after the last chunk of the body, and the count of the chunks.\<close>

definition finish ::
    "settings \<Rightarrow> gcm \<Rightarrow> chunk_params \<Rightarrow> nat \<Rightarrow> 8 word list \<Rightarrow> int \<Rightarrow> 8 word list \<Rightarrow> nat result \<times> 8 word list" where
  "finish cfg gcm cp read buffer part_number out =
     (case (if buffer = [] then Inr (part_number, out)
            else rbind (write_chunk cfg gcm cp (part_number + 1) out buffer) (\<lambda>f. Inr (part_number + 1, f))) of
        Inl e \<Rightarrow> (Inl e, out)
      | Inr (n, f) \<Rightarrow>
          if n \<noteq> cp_parts cp then
            (Inl (DecryptionError (''expected '' @ show_int (cp_parts cp) @ '' chunks, decrypted '' @
              show_int n @ '' (truncated?)'')), f)
          else (Inr read, f))"

fun cipher_loop ::
    "settings \<Rightarrow> gcm \<Rightarrow> chunk_params \<Rightarrow> int \<Rightarrow> exn option \<Rightarrow> nat \<Rightarrow> 8 word list \<Rightarrow> int \<Rightarrow> 8 word list
      \<Rightarrow> wire_body \<Rightarrow> nat result \<times> 8 word list" where
  "cipher_loop cfg gcm cp cap fin read buffer part_number out [] =
     (case fin of Some e \<Rightarrow> (Inl e, out)
      | None \<Rightarrow> finish cfg gcm cp read buffer part_number out)"
| "cipher_loop cfg gcm cp cap fin read buffer part_number out ((chunk, t) # rest) =
     (let read' = read + length chunk in
      case check_limits cfg read' t cap of
        Inl e \<Rightarrow> (Inl e, out)
      | Inr _ \<Rightarrow>
          (case drain cfg gcm cp (buffer @ chunk) part_number out of
             (Inl e, _, _, out') \<Rightarrow> (Inl e, out')
           | (Inr _, buffer', part_number', out') \<Rightarrow>
               cipher_loop cfg gcm cp cap fin read' buffer' part_number' out' rest))"

definition write_decrypted ::
    "settings \<Rightarrow> gcm \<Rightarrow> enc_params \<Rightarrow> wire_body \<Rightarrow> exn option \<Rightarrow> nat result \<times> 8 word list" where
  "write_decrypted cfg gcm enc body fin =
     (case check_params cfg enc of
        Inl e \<Rightarrow> (Inl e, [])
      | Inr cp \<Rightarrow> cipher_loop cfg gcm cp (wire_cap cfg enc) fin 0 [] 0 [] body)"

section \<open>The reference: the body as one piece\<close>

text \<open>Cut the whole ciphertext into blobs of \<open>blob_size\<close> and decrypt them in order.\<close>

function decrypt_body ::
    "settings \<Rightarrow> gcm \<Rightarrow> chunk_params \<Rightarrow> int \<Rightarrow> 8 word list \<Rightarrow> 8 word list \<Rightarrow> (int \<times> 8 word list) result" where
  "decrypt_body cfg gcm cp n out data =
     (if data = [] then Inr (n, out)
      else case write_chunk cfg gcm cp (n + 1) out (take (nat (blob_size cp)) data) of
          Inl e \<Rightarrow> Inl e
        | Inr out' \<Rightarrow> decrypt_body cfg gcm cp (n + 1) out' (drop (nat (blob_size cp)) data))"
  by pat_completeness auto
termination
  by (relation "measure (\<lambda>(_, _, _, _, _, data). length data)") (auto dest!: write_chunk_length)

declare decrypt_body.simps [simp del]

lemma decrypt_body_Nil [simp]: "decrypt_body cfg gcm cp n out [] = Inr (n, out)"
  by (simp add: decrypt_body.simps)

text \<open>The inner loop advances the reference, whatever is still to come.\<close>

lemma drain_reference:
  assumes "0 < blob_size cp"
  shows "case drain cfg gcm cp buffer n out of
      (Inl e, _) \<Rightarrow> decrypt_body cfg gcm cp n out (buffer @ rest) = Inl e
    | (Inr _, buffer', n', out') \<Rightarrow>
        int (length buffer') < blob_size cp
        \<and> decrypt_body cfg gcm cp n out (buffer @ rest) = decrypt_body cfg gcm cp n' out' (buffer' @ rest)"
  using assms
proof (induction cfg gcm cp buffer n out rule: drain.induct)
  case (1 cfg gcm cp buffer n out)
  show ?case
  proof (cases "int (length buffer) < blob_size cp")
    case True
    then show ?thesis by (simp add: drain.simps [of cfg gcm cp buffer])
  next
    case False
    have pos: "\<not> blob_size cp < 0" "nat (blob_size cp) \<le> length buffer"
      using False "1.prems" by simp_all
    moreover have "buffer \<noteq> []" using False "1.prems" by auto
    note pos = pos this
    then have td: "py_take (blob_size cp) buffer = take (nat (blob_size cp)) (buffer @ rest)"
      "py_drop (blob_size cp) buffer @ rest = drop (nat (blob_size cp)) (buffer @ rest)"
      by (simp_all add: py_take_def py_drop_def)
    show ?thesis
    proof (cases "write_chunk cfg gcm cp (n + 1) out (py_take (blob_size cp) buffer)")
      case (Inl e)
      then show ?thesis
        using False pos by (simp add: drain.simps [of cfg gcm cp buffer] decrypt_body.simps [of _ _ _ n _ "buffer @ rest"] td)
    next
      case (Inr f)
      then show ?thesis
        using "1.IH" [OF False Inr "1.prems"] False pos
        by (simp add: drain.simps [of cfg gcm cp buffer] decrypt_body.simps [of _ _ _ n _ "buffer @ rest"] td
            split: prod.splits sum.splits)
    qed
  qed
qed

fun within_limits :: "settings \<Rightarrow> int \<Rightarrow> nat \<Rightarrow> wire_body \<Rightarrow> bool" where
  "within_limits cfg cap read [] = True"
| "within_limits cfg cap read ((chunk, t) # rest) \<longleftrightarrow>
     check_limits cfg (read + length chunk) t cap = Inr () \<and> within_limits cfg cap (read + length chunk) rest"

definition body_bytes :: "wire_body \<Rightarrow> 8 word list" where
  "body_bytes body = concat (map fst body)"

text \<open>The bytes read and the file of a run that succeeded.\<close>

definition outcome :: "nat result \<times> 8 word list \<Rightarrow> (nat \<times> 8 word list) result" where
  "outcome r = rbind (fst r) (\<lambda>n. Inr (n, snd r))"

definition counted :: "chunk_params \<Rightarrow> nat \<Rightarrow> (int \<times> 8 word list) result \<Rightarrow> (nat \<times> 8 word list) result" where
  "counted cp read r = rbind r (\<lambda>(n, f).
     if n \<noteq> cp_parts cp then
       Inl (DecryptionError (''expected '' @ show_int (cp_parts cp) @ '' chunks, decrypted '' @
         show_int n @ '' (truncated?)''))
     else Inr (read, f))"

lemma finish_reference:
  assumes "int (length buffer) < blob_size cp"
  shows "outcome (finish cfg gcm cp read buffer n out) = counted cp read (decrypt_body cfg gcm cp n out buffer)"
proof (cases "buffer = []")
  case True
  then show ?thesis by (simp add: finish_def outcome_def counted_def)
next
  case False
  have "take (nat (blob_size cp)) buffer = buffer" "drop (nat (blob_size cp)) buffer = []"
    using assms by simp_all
  then show ?thesis
    using False
    by (cases "write_chunk cfg gcm cp (n + 1) out buffer")
      (simp_all add: finish_def outcome_def counted_def decrypt_body.simps [of _ _ _ n _ buffer])
qed

lemma cipher_loop_reference:
  assumes "0 < blob_size cp" and "within_limits cfg cap read body" and "int (length buffer) < blob_size cp"
  shows "outcome (cipher_loop cfg gcm cp cap None read buffer n out body) =
     counted cp (read + length (body_bytes body)) (decrypt_body cfg gcm cp n out (buffer @ body_bytes body))"
  using assms(2,3)
proof (induction body arbitrary: read buffer n out)
  case Nil
  then show ?case by (simp add: body_bytes_def finish_reference)
next
  case (Cons ct body)
  obtain chunk t where ct: "ct = (chunk, t)" by (cases ct) auto
  have lim: "check_limits cfg (read + length chunk) t cap = Inr ()"
    "within_limits cfg cap (read + length chunk) body"
    using Cons.prems(1) by (simp_all add: ct)
  obtain d b n' f where d: "drain cfg gcm cp (buffer @ chunk) n out = (d, b, n', f)" by (metis prod_cases4)
  note ref = drain_reference [OF assms(1), where cfg = cfg and gcm = gcm and buffer = "buffer @ chunk"
      and n = n and out = out and rest = "body_bytes body", unfolded d]
  have bb: "buffer @ body_bytes (ct # body) = (buffer @ chunk) @ body_bytes body"
    by (simp add: body_bytes_def ct)
  show ?case
  proof (cases d)
    case (Inl e)
    then show ?thesis
      using ref lim(1) unfolding bb by (simp add: ct d outcome_def counted_def del: append_assoc)
  next
    case (Inr u)
    then have "outcome (cipher_loop cfg gcm cp cap None (read + length chunk) b n' f body) =
        counted cp (read + length chunk + length (body_bytes body)) (decrypt_body cfg gcm cp n' f (b @ body_bytes body))"
      using ref by (intro Cons.IH [OF lim(2)]) simp
    then show ?thesis
      using ref lim(1) Inr unfolding bb by (simp add: ct d body_bytes_def add.assoc del: append_assoc)
  qed
qed

lemma cipher_loop_success:
  "cipher_loop cfg gcm cp cap fin read buffer n out body = (Inr k, f) \<Longrightarrow>
     within_limits cfg cap read body \<and> fin = None"
  by (induction cfg gcm cp cap fin read buffer n out body rule: cipher_loop.induct)
     (auto simp: Let_def split: option.splits sum.splits prod.splits)

lemma check_params_blob:
  assumes "check_params cfg enc = Inr cp" and "0 \<le> cfg_encryption_min_chunk_size cfg"
  shows "0 < blob_size cp"
  using assms
  by (auto simp: check_params_def Let_def blob_size_def overhead_per_chunk_def iv_bytes_def
      split: if_splits sum.splits)

text \<open>C18: How the network cuts the body does not matter. Within the size and time budgets, the
  streaming decryption gives exactly what decrypting the whole body as one piece gives, success
  and every error alike: the same plaintext, the same count check, the same number of bytes.\<close>

theorem streaming_equals_whole_body:
  assumes "check_params cfg enc = Inr cp" and "0 \<le> cfg_encryption_min_chunk_size cfg"
    and "within_limits cfg (wire_cap cfg enc) 0 body"
  shows "outcome (write_decrypted cfg gcm enc body None) =
    counted cp (length (body_bytes body)) (decrypt_body cfg gcm cp 0 [] (body_bytes body))"
  using check_params_blob [OF assms(1,2)] cipher_loop_reference [OF _ assms(3), of cp "[]"]
  by (simp add: write_decrypted_def assms(1))

section \<open>Round trip\<close>

function pieces :: "nat \<Rightarrow> 'a list \<Rightarrow> 'a list list" where
  "pieces n xs = (if n = 0 \<or> xs = [] then [] else take n xs # pieces n (drop n xs))"
  by pat_completeness auto
termination by (relation "measure (\<lambda>(n, xs). length xs)") auto

declare pieces.simps [simp del]

lemma pieces_Nil [simp]: "pieces n [] = []"
  by (simp add: pieces.simps)

lemma concat_pieces [simp]: "0 < n \<Longrightarrow> concat (pieces n xs) = xs"
  by (induction n xs rule: pieces.induct) (simp add: pieces.simps [of _ xs for xs])

text \<open>The caller's side: each piece sealed under its own IV with its position as additional data.\<close>

type_synonym seal = "8 word list \<Rightarrow> 8 word list \<Rightarrow> 8 word list \<Rightarrow> string \<Rightarrow> 8 word list"

fun sealed :: "seal \<Rightarrow> (int \<Rightarrow> 8 word list) \<Rightarrow> chunk_params \<Rightarrow> int \<Rightarrow> 8 word list list \<Rightarrow> 8 word list" where
  "sealed seal iv cp n [] = []"
| "sealed seal iv cp n (p # ps) =
     iv n @ seal (cp_key cp) (iv n) p (chunk_aad (cp_file_id cp) n (cp_parts cp)) @ sealed seal iv cp (n + 1) ps"

text \<open>What is relied on of AES-GCM: it opens what it sealed and adds a tag of 16 bytes.\<close>

definition aead :: "gcm \<Rightarrow> seal \<Rightarrow> bool" where
  "aead gcm seal \<longleftrightarrow> (\<forall>k iv p a. gcm k iv (seal k iv p a) a = Some p
     \<and> length (seal k iv p a) = length p + gcm_tag_bytes)"

lemma decrypt_body_step:
  assumes "data \<noteq> []" and "take (nat (blob_size cp)) data = b" and "drop (nat (blob_size cp)) data = rest"
    and "write_chunk cfg gcm cp (n + 1) out b = Inr out'"
  shows "decrypt_body cfg gcm cp n out data = decrypt_body cfg gcm cp (n + 1) out' rest"
  using assms by (simp add: decrypt_body.simps [of _ _ _ n _ data])

lemma decrypt_sealed:
  assumes "aead gcm seal" and iv: "\<And>n. length (iv n) = iv_bytes" and c: "0 < cp_chunk_size cp"
    and "int (length out + length plain) \<le> cfg_max_url_size cfg"
  shows "decrypt_body cfg gcm cp n out (sealed seal iv cp (n + 1) (pieces (nat (cp_chunk_size cp)) plain))
     = Inr (n + int (length (pieces (nat (cp_chunk_size cp)) plain)), out @ plain)"
  using assms(4)
proof (induction "length plain" arbitrary: plain n out rule: less_induct)
  case less
  let ?c = "nat (cp_chunk_size cp)"
  show ?case
  proof (cases "plain = []")
    case True
    then show ?thesis by (simp add: pieces.simps)
  next
    case False
    let ?p = "take ?c plain" and ?rest = "drop ?c plain"
    let ?blob = "iv (n + 1) @ seal (cp_key cp) (iv (n + 1)) ?p (chunk_aad (cp_file_id cp) (n + 1) (cp_parts cp))"
    let ?more = "sealed seal iv cp (n + 1 + 1) (pieces ?c ?rest)"
    have pcs: "pieces ?c plain = ?p # pieces ?c ?rest" using False c by (simp add: pieces.simps [of _ plain])
    have len: "length ?blob = length ?p + overhead_per_chunk"
      using assms(1) iv by (simp add: aead_def overhead_per_chunk_def)
    have "0 < length ?p" using False c by (simp add: min_def)
    then have big: "\<not> length ?blob \<le> overhead_per_chunk" unfolding len by simp
    have tk: "take iv_bytes ?blob = iv (n + 1)"
      "drop iv_bytes ?blob = seal (cp_key cp) (iv (n + 1)) ?p (chunk_aad (cp_file_id cp) (n + 1) (cp_parts cp))"
      by (simp_all add: iv)
    have op: "gcm k v (seal k v p a) a = Some p" for k v p a using assms(1) by (simp add: aead_def)
    have "decrypt_chunk gcm (cp_key cp) ?blob (cp_file_id cp) (n + 1) (cp_parts cp) = Inr ?p"
      unfolding decrypt_chunk_def if_not_P [OF big] tk op by simp
    moreover have "write_plain cfg out ?p = Inr (out @ ?p)"
      using less.prems by (simp add: write_plain_def)
    ultimately have w: "write_chunk cfg gcm cp (n + 1) out ?blob = Inr (out @ ?p)"
      by (simp add: write_chunk_def)
    have cut: "take (nat (blob_size cp)) (?blob @ ?more) = ?blob" "drop (nat (blob_size cp)) (?blob @ ?more) = ?more"
    proof -
      have b: "nat (blob_size cp) = ?c + overhead_per_chunk" using c by (simp add: blob_size_def nat_add_distrib)
      show "take (nat (blob_size cp)) (?blob @ ?more) = ?blob" "drop (nat (blob_size cp)) (?blob @ ?more) = ?more"
      proof (atomize (full), cases "?c \<le> length plain")
        case True
        then have "length ?blob = nat (blob_size cp)" unfolding b len by simp
        then show "take (nat (blob_size cp)) (?blob @ ?more) = ?blob
            \<and> drop (nat (blob_size cp)) (?blob @ ?more) = ?more"
          by (metis append_eq_conv_conj)
      next
        case False
        then have "?more = []" by simp
        moreover have "length ?blob \<le> nat (blob_size cp)" using False unfolding b len by simp
        ultimately show "take (nat (blob_size cp)) (?blob @ ?more) = ?blob
            \<and> drop (nat (blob_size cp)) (?blob @ ?more) = ?more"
          by (simp only: append_Nil2 take_all drop_all simp_thms)
      qed
    qed
    have ne: "?blob @ ?more \<noteq> []" using len \<open>0 < length ?p\<close> by (metis append_is_Nil_conv length_0_conv add_is_0 less_irrefl)
    have "decrypt_body cfg gcm cp (n + 1) (out @ ?p) ?more
        = Inr (n + 1 + int (length (pieces ?c ?rest)), (out @ ?p) @ ?rest)"
      using False c less.prems by (intro less.hyps) simp_all
    moreover note decrypt_body_step [OF ne cut w]
    ultimately show ?thesis by (simp add: pcs)
  qed
qed

lemma length_pieces: "0 < n \<Longrightarrow> int (length (pieces n xs)) = ceil_div (int (length xs)) (int n)"
proof (induction n xs rule: pieces.induct)
  case (1 n xs)
  show ?case
  proof (cases "xs = []")
    case True
    then show ?thesis by (simp add: ceil_div_def)
  next
    case False
    have IH: "int (length (pieces n (drop n xs))) = ceil_div (int (length (drop n xs))) (int n)"
      using 1 False by simp
    have n: "int n \<noteq> 0" using "1.prems" by simp
    have "ceil_div (int (length xs)) (int n) = 1 + ceil_div (int (length (drop n xs))) (int n)"
    proof (cases "n \<le> length xs")
      case True
      then have "- int (length xs) = - int (length (drop n xs)) + (- 1) * int n" by simp
      then have "- int (length xs) div int n = - int (length (drop n xs)) div int n + - 1"
        by (metis div_mult_self3 n add.commute)
      then show ?thesis by (simp add: ceil_div_def)
    next
      case short: False
      have "- int (length xs) div int n = - 1"
        by (rule int_div_pos_eq [where r = "int n - int (length xs)"]) (use short False in simp_all)
      with short show ?thesis by (simp add: ceil_div_def)
    qed
    with IH False "1.prems" show ?thesis by (simp add: pieces.simps [of n xs])
  qed
qed

lemma length_sealed:
  assumes "aead gcm seal" and "\<And>n. length (iv n) = iv_bytes"
  shows "length (sealed seal iv cp n ps) = length (concat ps) + length ps * overhead_per_chunk"
  using assms by (induction ps arbitrary: n) (simp_all add: aead_def overhead_per_chunk_def)

lemma check_params_range:
  assumes "check_params cfg enc = Inr cp"
  shows "cfg_encryption_min_chunk_size cfg \<le> cp_chunk_size cp" and "enc \<noteq> []"
    and "rbind (item enc ''chunk_size'') json_int = Inr (cp_chunk_size cp)"
  using assms
  by (auto simp: check_params_def read_params_def rbind_Inr_iff item_def Let_def split: if_splits sum.splits)

text \<open>A file within the size limit fits the wire limit once sealed.\<close>

lemma sealed_fits:
  assumes "aead gcm seal" and "\<And>n. length (iv n) = iv_bytes"
    and p: "check_params cfg enc = Inr cp" and c: "0 < cp_chunk_size cp"
    and "int (length plain) \<le> cfg_max_url_size cfg"
  shows "int (length (sealed seal iv cp 1 (pieces (nat (cp_chunk_size cp)) plain))) \<le> wire_cap cfg enc"
proof -
  let ?c = "cp_chunk_size cp"
  have "int (length (pieces (nat ?c) plain)) = ceil_div (int (length plain)) ?c"
    using c length_pieces [of "nat ?c" plain] by simp
  also have "\<dots> \<le> max 1 (ceil_div (cfg_max_url_size cfg) ?c)"
    using ceil_div_mono [OF c assms(5)] by simp
  finally have "int (length (pieces (nat ?c) plain)) * int overhead_per_chunk
      \<le> max 1 (ceil_div (cfg_max_url_size cfg) ?c) * int overhead_per_chunk"
    by (intro mult_right_mono) simp_all
  then show ?thesis
    using c assms(5) check_params_range(2,3) [OF p]
    by (simp add: length_sealed [OF assms(1,2)] wire_cap_def Let_def)
qed

lemma within_limits_total:
  assumes "\<forall>(chunk, t)\<in>set body. t \<le> of_int (cfg_download_max_seconds cfg)"
    and "int (read + length (body_bytes body)) \<le> cap"
  shows "within_limits cfg cap read body"
  using assms by (induction body arbitrary: read) (auto simp: check_limits_def body_bytes_def)

text \<open>C19: An encrypted upload of any admissible file comes out as the file. For AES-GCM that opens
  what it sealed, parameters the service accepts and a file of at most \<open>MAX_URL_SIZE\<close> bytes sealed
  piece by piece as the contract says, the download succeeds however the network cuts it (within
  the time budget): it is never refused for its size on the wire and the file written is the
  caller's, byte for byte.\<close>

theorem encrypted_upload_round_trip:
  assumes "aead gcm seal" and "\<And>n. length (iv n) = iv_bytes"
    and p: "check_params cfg enc = Inr cp" and "0 < cp_chunk_size cp"
    and "int (length plain) \<le> cfg_max_url_size cfg"
    and "cp_parts cp = int (length (pieces (nat (cp_chunk_size cp)) plain))"
    and "body_bytes body = sealed seal iv cp 1 (pieces (nat (cp_chunk_size cp)) plain)"
    and "\<forall>(chunk, t)\<in>set body. t \<le> of_int (cfg_download_max_seconds cfg)"
  shows "write_decrypted cfg gcm enc body None = (Inr (length (body_bytes body)), plain)"
proof -
  have blob: "0 < blob_size cp" using assms(4) by (simp add: blob_size_def)
  have "within_limits cfg (wire_cap cfg enc) 0 body"
    using within_limits_total [OF assms(8)] sealed_fits [OF assms(1,2) p assms(4,5)] assms(7) by simp
  from cipher_loop_reference [OF blob this, of "[]" gcm 0 "[]"] blob
  have "outcome (write_decrypted cfg gcm enc body None) =
      counted cp (length (body_bytes body)) (decrypt_body cfg gcm cp 0 [] (body_bytes body))"
    by (simp add: write_decrypted_def p)
  also have "decrypt_body cfg gcm cp 0 [] (body_bytes body) = Inr (cp_parts cp, plain)"
    using decrypt_sealed [OF assms(1,2,4), where n = 0 and out = "[]" and plain = plain and cfg = cfg] assms(5,6,7)
    by simp
  finally have "outcome (write_decrypted cfg gcm enc body None) = Inr (length (body_bytes body), plain)"
    by (simp add: counted_def)
  then show ?thesis
    by (cases "write_decrypted cfg gcm enc body None") (auto simp: outcome_def rbind_Inr_iff)
qed

section \<open>Authenticity\<close>

text \<open>
  A file id names one upload. What is relied on of the tag under the caller's key: nothing opens but pieces of the uploads
  \<open>G\<close> sealed under that key (file id, piece size, content), each in its place of its file.
\<close>

definition only_opens :: "gcm \<Rightarrow> 8 word list \<Rightarrow> (string \<times> nat \<times> 8 word list) set \<Rightarrow> bool" where
  "only_opens gcm key G \<longleftrightarrow>
     (\<forall>iv body aad p. gcm key iv body aad = Some p \<longrightarrow>
        (\<exists>fid c d i. (fid, c, d) \<in> G \<and> 0 < c \<and> i < length (pieces c d)
           \<and> aad = chunk_aad fid (int i + 1) (int (length (pieces c d))) \<and> p = pieces c d ! i))"

definition unique_ids :: "(string \<times> nat \<times> 8 word list) set \<Rightarrow> bool" where
  "unique_ids G \<longleftrightarrow> (\<forall>f c d c' d'. (f, c, d) \<in> G \<longrightarrow> (f, c', d') \<in> G \<longrightarrow> c = c' \<and> d = d')"

lemma decrypt_body_authentic:
  assumes "only_opens gcm (cp_key cp) G"
    and unique: "unique_ids G"
    and "decrypt_body cfg gcm cp (int k) out data = Inr (m, f)"
  shows "(m = int k \<and> f = out) \<or> (\<exists>c d. (cp_file_id cp, c, d) \<in> G \<and> 0 < c \<and> k < nat m \<and> int (nat m) = m
     \<and> nat m \<le> length (pieces c d) \<and> cp_parts cp = int (length (pieces c d))
     \<and> f = out @ concat (take (nat m - k) (drop k (pieces c d))))"
  using assms(3)
proof (induction "length data" arbitrary: data k out rule: less_induct)
  case less
  show ?case
  proof (cases "data = []")
    case True
    with less.prems show ?thesis by simp
  next
    case False
    with less.prems obtain out' where w: "write_chunk cfg gcm cp (int k + 1) out (take (nat (blob_size cp)) data) = Inr out'"
      and r: "decrypt_body cfg gcm cp (int (Suc k)) out' (drop (nat (blob_size cp)) data) = Inr (m, f)"
      by (auto simp: decrypt_body.simps [of _ _ _ _ _ data] add.commute split: sum.splits)
    from w obtain p iv b where p: "gcm (cp_key cp) iv b (chunk_aad (cp_file_id cp) (int k + 1) (cp_parts cp)) = Some p"
      and o: "out' = out @ p"
      by (auto simp: write_chunk_def decrypt_chunk_def write_plain_def rbind_Inr_iff split: if_splits option.splits)
    from assms(1) p obtain fid c d i where i: "(fid, c, d) \<in> G" "0 < c" "i < length (pieces c d)"
      "chunk_aad (cp_file_id cp) (int k + 1) (cp_parts cp) = chunk_aad fid (int i + 1) (int (length (pieces c d)))"
      "p = pieces c d ! i"
      unfolding only_opens_def by metis
    then have g: "(cp_file_id cp, c, d) \<in> G" "0 < c" "k < length (pieces c d)"
      "cp_parts cp = int (length (pieces c d))" "p = pieces c d ! k"
      unfolding chunk_aad_inj by simp_all
    have "length (drop (nat (blob_size cp)) data) < length data"
      using write_chunk_length [OF w] False by (simp add: overhead_per_chunk_def) linarith
    from less.hyps [OF this r] show ?thesis
    proof
      assume "m = int (Suc k) \<and> f = out'"
      then have m: "m = int (Suc k)" "f = out'" by auto
      have nm: "nat m = Suc k" "int (nat m) = m" using m by simp_all
      moreover have "take 1 (drop k (pieces c d)) = [p]" using g(3,5) by (simp add: take_Suc hd_drop_conv_nth)
      ultimately show ?thesis using g(1-4) m(2) o by (intro disjI2 exI [of _ c] exI [of _ d]) simp
    next
      assume "\<exists>c d. (cp_file_id cp, c, d) \<in> G \<and> 0 < c \<and> Suc k < nat m \<and> int (nat m) = m
        \<and> nat m \<le> length (pieces c d) \<and> cp_parts cp = int (length (pieces c d))
        \<and> f = out' @ concat (take (nat m - Suc k) (drop (Suc k) (pieces c d)))"
      then have h: "Suc k < nat m" "int (nat m) = m" "nat m \<le> length (pieces c d)"
        "f = out' @ concat (take (nat m - Suc k) (drop (Suc k) (pieces c d)))"
        using unique g(1) unfolding unique_ids_def by metis+
      have "take (nat m - k) (drop k (pieces c d)) = p # take (nat m - Suc k) (drop (Suc k) (pieces c d))"
      proof -
        have "nat m - k = Suc (nat m - Suc k)" using h(1) by simp
        then show ?thesis using g(3,5) by (simp add: Cons_nth_drop_Suc [symmetric])
      qed
      with g(1-4) h o show ?thesis by (intro disjI2 exI [of _ c] exI [of _ d]) simp
    qed
  qed
qed

lemma decrypted_is_sealed:
  assumes "check_params cfg enc = Inr cp" and "0 \<le> cfg_encryption_min_chunk_size cfg"
    and "only_opens gcm (cp_key cp) G"
    and unique: "unique_ids G"
    and ok: "write_decrypted cfg gcm enc body fin = (Inr n, f)" and "0 < cp_parts cp"
  shows "\<exists>c d. (cp_file_id cp, c, d) \<in> G \<and> f = d \<and> cp_parts cp = int (length (pieces c d))"
proof -
  have "cipher_loop cfg gcm cp (wire_cap cfg enc) fin 0 [] 0 [] body = (Inr n, f)"
    using ok by (simp add: write_decrypted_def assms(1))
  moreover from cipher_loop_success [OF this] have lim: "within_limits cfg (wire_cap cfg enc) 0 body" "fin = None"
    by simp_all
  note blob = check_params_blob [OF assms(1,2)]
  from blob cipher_loop_reference [OF blob lim(1), of "[]" gcm 0 "[]"] lim(2) calculation
  have "counted cp (length (body_bytes body)) (decrypt_body cfg gcm cp (int 0) [] (body_bytes body)) = Inr (n, f)"
    by (simp add: outcome_def)
  then have "decrypt_body cfg gcm cp (int 0) [] (body_bytes body) = Inr (cp_parts cp, f)"
    by (auto simp: counted_def rbind_Inr_iff split: if_splits)
  from decrypt_body_authentic [OF assms(3) assms(4) this] assms(6) obtain c d where
    g: "(cp_file_id cp, c, d) \<in> G" "0 < c" "cp_parts cp = int (length (pieces c d))"
    "f = concat (take (nat (cp_parts cp)) (pieces c d))" by auto
  then have "f = d" by simp
  with g show ?thesis by blast
qed

text \<open>C11: No truncation, reordering or mixing passes. When nothing opens under the key but pieces of
  the caller's own uploads, whatever body the source serves: a download that succeeds with at
  least one part gives the whole content of the upload of that file id, with exactly the
  announced number of parts.\<close>

theorem decrypted_file_is_the_upload:
  assumes "check_params cfg enc = Inr cp" and "0 \<le> cfg_encryption_min_chunk_size cfg"
    and "only_opens gcm (cp_key cp) G"
    and unique: "unique_ids G"
    and ok: "write_decrypted cfg gcm enc body fin = (Inr n, f)" and "0 < cp_parts cp"
  shows "\<exists>c d. (cp_file_id cp, c, d) \<in> G \<and> f = d \<and> cp_parts cp = int (length (pieces c d))"
  using assms by (rule decrypted_is_sealed)

section \<open>Bounds\<close>

lemma write_chunk_bound:
  "write_chunk cfg gcm cp n out b = Inr out' \<Longrightarrow> int (length out') \<le> cfg_max_url_size cfg"
  by (auto simp: write_chunk_def write_plain_def rbind_Inr_iff split: if_splits)

lemma drain_bound:
  "int (length out) \<le> cfg_max_url_size cfg \<Longrightarrow>
   int (length (snd (snd (snd (drain cfg gcm cp buffer n out))))) \<le> cfg_max_url_size cfg"
proof (induction cfg gcm cp buffer n out rule: drain.induct)
  case (1 cfg gcm cp buffer n out)
  then show ?case
    by (cases "write_chunk cfg gcm cp (n + 1) out (py_take (blob_size cp) buffer)")
      (auto simp: drain.simps [of _ _ _ buffer] dest: write_chunk_bound)
qed

lemma finish_bound:
  "int (length out) \<le> cfg_max_url_size cfg \<Longrightarrow>
   int (length (snd (finish cfg gcm cp read buffer n out))) \<le> cfg_max_url_size cfg"
  by (cases "write_chunk cfg gcm cp (n + 1) out buffer") (auto simp: finish_def dest: write_chunk_bound)

lemma cipher_loop_bound:
  "int (length out) \<le> cfg_max_url_size cfg \<Longrightarrow>
   int (length (snd (cipher_loop cfg gcm cp cap fin read buffer n out body))) \<le> cfg_max_url_size cfg"
proof (induction body arbitrary: read buffer n out)
  case Nil
  then show ?case by (simp add: finish_bound split: option.splits)
next
  case (Cons ct body)
  obtain chunk t where ct: "ct = (chunk, t)" by (cases ct) auto
  obtain d b n' f where d: "drain cfg gcm cp (buffer @ chunk) n out = (d, b, n', f)" by (metis prod_cases4)
  have "int (length f) \<le> cfg_max_url_size cfg"
    using drain_bound [OF Cons.prems, of gcm cp "buffer @ chunk" n] by (simp add: d)
  with Cons show ?case by (auto simp: ct d Let_def split: sum.splits)
qed

lemma cipher_loop_read:
  "fst (cipher_loop cfg gcm cp cap fin read buffer n out body) = Inr k \<Longrightarrow>
     k = read + length (body_bytes body) \<and> (body = [] \<or> int k \<le> cap)"
proof (induction body arbitrary: read buffer n out)
  case Nil
  then show ?case
    by (auto simp: finish_def body_bytes_def split: option.splits sum.splits if_splits)
next
  case (Cons ct body)
  obtain chunk t where ct: "ct = (chunk, t)" by (cases ct) auto
  obtain d b n' f where d: "drain cfg gcm cp (buffer @ chunk) n out = (d, b, n', f)" by (metis prod_cases4)
  from Cons.prems have lim: "check_limits cfg (read + length chunk) t cap = Inr ()"
    and rest: "fst (cipher_loop cfg gcm cp cap fin (read + length chunk) b n' f body) = Inr k"
    by (auto simp: ct d Let_def split: sum.splits)
  from lim have "int (read + length chunk) \<le> cap" by (auto simp: check_limits_def split: if_splits)
  with Cons.IH [OF rest] show ?case by (auto simp: ct body_bytes_def)
qed

lemma plain_loop_result:
  "int (length out) \<le> cfg_max_url_size cfg \<Longrightarrow> read = length out \<Longrightarrow>
   int (length (snd (plain_loop cfg fin read out body))) \<le> cfg_max_url_size cfg
   \<and> (\<forall>k. fst (plain_loop cfg fin read out body) = Inr k \<longrightarrow>
        k = read + length (body_bytes body) \<and> snd (plain_loop cfg fin read out body) = out @ body_bytes body)"
proof (induction body arbitrary: read out)
  case Nil
  then show ?case by (auto simp: body_bytes_def at_end_def split: option.splits)
next
  case (Cons ct body)
  obtain chunk t where ct: "ct = (chunk, t)" by (cases ct) auto
  show ?case
  proof (cases "check_limits cfg (read + length chunk) t (cfg_max_url_size cfg)")
    case (Inl e)
    with Cons.prems show ?thesis by (simp add: ct)
  next
    case (Inr u)
    then have "int (length (out @ chunk)) \<le> cfg_max_url_size cfg"
      using Cons.prems by (auto simp: check_limits_def split: if_splits)
    moreover have "body_bytes (ct # body) = chunk @ body_bytes body" by (simp add: body_bytes_def ct)
    ultimately show ?thesis
      using Cons.IH [of "out @ chunk" "read + length chunk"] Inr Cons.prems by (simp add: ct add.assoc)
  qed
qed

text \<open>C29: The scan volume is bounded. Whatever the server sends and wherever the transfer stops, the
  file on disk never holds more than \<open>MAX_URL_SIZE\<close> bytes, with both writers; a transfer that
  succeeds read exactly the body, at most the wire limit, and a plain one wrote exactly it.\<close>

theorem download_is_bounded:
  assumes "0 \<le> cfg_max_url_size cfg"
  shows "int (length (snd (write_plaintext cfg body fin))) \<le> cfg_max_url_size cfg
    \<and> int (length (snd (write_decrypted cfg gcm enc body fin))) \<le> cfg_max_url_size cfg
    \<and> (fst (write_plaintext cfg body fin) \<in> range Inl
       \<or> write_plaintext cfg body fin = (Inr (length (body_bytes body)), body_bytes body))
    \<and> (fst (write_decrypted cfg gcm enc body fin) \<in> range Inl
       \<or> fst (write_decrypted cfg gcm enc body fin) = Inr (length (body_bytes body))
         \<and> int (length (body_bytes body)) \<le> wire_cap cfg enc)"
proof (intro conjI)
  have p: "int (length (snd (write_plaintext cfg body fin))) \<le> cfg_max_url_size cfg
      \<and> (\<forall>k. fst (write_plaintext cfg body fin) = Inr k \<longrightarrow>
        k = length (body_bytes body) \<and> snd (write_plaintext cfg body fin) = body_bytes body)"
    using plain_loop_result [of "[]" cfg 0 fin body] assms by (simp add: write_plaintext_def)
  then show "int (length (snd (write_plaintext cfg body fin))) \<le> cfg_max_url_size cfg" by simp
  show "fst (write_plaintext cfg body fin) \<in> range Inl
       \<or> write_plaintext cfg body fin = (Inr (length (body_bytes body)), body_bytes body)"
    using p by (cases "write_plaintext cfg body fin"; cases "fst (write_plaintext cfg body fin)") auto
  show "int (length (snd (write_decrypted cfg gcm enc body fin))) \<le> cfg_max_url_size cfg"
    using cipher_loop_bound [of "[]"] assms by (auto simp: write_decrypted_def split: sum.splits)
  have cap: "0 \<le> wire_cap cfg enc"
    using assms by (auto simp: wire_cap_def Let_def split: sum.splits)
  show "fst (write_decrypted cfg gcm enc body fin) \<in> range Inl
       \<or> fst (write_decrypted cfg gcm enc body fin) = Inr (length (body_bytes body))
         \<and> int (length (body_bytes body)) \<le> wire_cap cfg enc"
  proof (cases "check_params cfg enc")
    case (Inr cp)
    show ?thesis
      using cipher_loop_read [of cfg gcm cp "wire_cap cfg enc" fin 0 "[]" 0 "[]" body] cap
      by (cases "fst (cipher_loop cfg gcm cp (wire_cap cfg enc) fin 0 [] 0 [] body)")
        (auto simp: write_decrypted_def Inr body_bytes_def)
  qed (simp add: write_decrypted_def)
qed

section \<open>Samples\<close>

definition sample_enc :: enc_params where
  "sample_enc = [(''key'', JStr (encode_key (replicate 32 0xFB))), (''file_id'', JStr ''f''),
     (''chunk_size'', JInt 4096), (''parts'', JInt 1)]"

definition sample_cp :: chunk_params where
  "sample_cp = \<lparr>cp_key = replicate 32 0xFB, cp_file_id = ''f'', cp_chunk_size = 4096, cp_parts = 1\<rparr>"

lemma sample_params: "check_params default_settings sample_enc = Inr sample_cp"
  using decode_encoded_key [of "replicate 32 0xFB" "''''"]
  by (simp add: check_params_def sample_enc_def sample_cp_def read_params_def item_def json_int_def json_str_def
      schemes_def default_settings_def Let_def)

text \<open>A cipher that opens one chunk only, and its seal.\<close>

definition sample_tag :: "8 word list" where
  "sample_tag = replicate 16 7"

definition sample_gcm :: gcm where
  "sample_gcm key iv body aad =
     (if aad = chunk_aad ''f'' 1 1 \<and> body = 0x41 # sample_tag then Some [0x41] else None)"

definition open_gcm :: gcm where
  "open_gcm key iv body aad = Some (take (length body - 16) body)"

definition open_seal :: seal where
  "open_seal key iv p aad = p @ sample_tag"

lemma open_aead: "aead open_gcm open_seal"
  by (simp add: aead_def open_gcm_def open_seal_def sample_tag_def gcm_tag_bytes_def)

definition sample_body :: wire_body where
  "sample_body = [(replicate 12 0 @ [0x41], 1), (sample_tag, 2)]"

lemma sample_limits: "within_limits default_settings (wire_cap default_settings sample_enc) 0 sample_body"
  by (simp add: sample_body_def check_limits_def sample_tag_def default_settings_def wire_cap_def sample_enc_def
      item_def json_int_def overhead_per_chunk_def iv_bytes_def gcm_tag_bytes_def ceil_div_def)

lemma sample_pieces: "pieces 4096 [0x41 :: 8 word] = [[0x41]]"
  by (simp add: pieces.simps)

lemma sample_bytes: "body_bytes sample_body = replicate 12 0 @ 0x41 # sample_tag"
  by (simp add: body_bytes_def sample_body_def)

theorem streaming_equals_whole_body_witness:
  "outcome (write_decrypted default_settings sample_gcm sample_enc sample_body None) =
     counted sample_cp 29 (decrypt_body default_settings sample_gcm sample_cp 0 [] (body_bytes sample_body))"
  using streaming_equals_whole_body [OF sample_params _ sample_limits, of sample_gcm]
  by (simp add: default_settings_def sample_bytes sample_tag_def)

theorem encrypted_upload_round_trip_witness:
  "write_decrypted default_settings open_gcm sample_enc sample_body None = (Inr 29, [0x41])"
proof -
  have "write_decrypted default_settings open_gcm sample_enc sample_body None
      = (Inr (length (body_bytes sample_body)), [0x41])"
    by (rule encrypted_upload_round_trip [OF open_aead _ sample_params, where iv = "\<lambda>_. replicate 12 0"])
      (simp_all add: sample_cp_def sample_pieces sample_bytes open_seal_def iv_bytes_def default_settings_def,
       simp add: sample_body_def)
  then show ?thesis by (simp add: sample_bytes sample_tag_def)
qed

lemma sample_decrypted: "write_decrypted default_settings sample_gcm sample_enc sample_body None = (Inr 29, [0x41])"
proof -
  have b: "0 < blob_size sample_cp" "blob_size sample_cp = 4124"
    by (simp_all add: blob_size_def sample_cp_def overhead_per_chunk_def iv_bytes_def gcm_tag_bytes_def)
  have "decrypt_body default_settings sample_gcm sample_cp 0 [] (body_bytes sample_body) = Inr (1, [0x41])"
    by (simp add: decrypt_body.simps [of _ _ _ 0] blob_size_def sample_bytes write_chunk_def decrypt_chunk_def write_plain_def
        sample_gcm_def sample_cp_def overhead_per_chunk_def iv_bytes_def gcm_tag_bytes_def sample_tag_def default_settings_def)
  with cipher_loop_reference [OF b(1) sample_limits, of "[]" sample_gcm 0 "[]"] b(1)
  have "outcome (write_decrypted default_settings sample_gcm sample_enc sample_body None) = Inr (29, [0x41])"
    by (simp add: write_decrypted_def sample_params counted_def sample_bytes sample_tag_def)
       (simp add: sample_cp_def)
  then show ?thesis
    by (cases "write_decrypted default_settings sample_gcm sample_enc sample_body None")
      (auto simp: outcome_def rbind_Inr_iff)
qed

lemma sample_opens: "only_opens sample_gcm (cp_key sample_cp) {(''f'', 4096, [0x41])}"
  by (auto simp: only_opens_def sample_gcm_def sample_pieces split: if_splits)

lemma sample_floor: "0 \<le> cfg_encryption_min_chunk_size default_settings"
  by (simp add: default_settings_def)

lemma sample_unique: "unique_ids {(''f'', 4096, [0x41 :: 8 word])}"
  by (simp add: unique_ids_def)

theorem decrypted_file_is_the_upload_witness:
  "\<exists>c d. (''f'', c, d) \<in> {(''f'', 4096, [0x41])} \<and> snd (write_decrypted default_settings sample_gcm sample_enc sample_body None) = d"
  using decrypted_file_is_the_upload [OF sample_params sample_floor sample_opens sample_unique sample_decrypted]
  by (simp add: sample_cp_def sample_decrypted)

theorem download_is_bounded_witness:
  "int (length (snd (write_plaintext default_settings [([0x50], 1)] None))) \<le> 2 ^ 31 - 3"
  using download_is_bounded [of default_settings "[([0x50], 1)]" None] by (simp add: default_settings_def)

end
