(* ===== verification/Ip.thy ===== *)
theory Ip
  imports Prelude "HOL-Library.Word"
begin

unbundle bit_operations_syntax

text \<open>
  What the source uses of the standard \<open>ipaddress\<close> module (Python 3.14): the parser of the two
  address notations, the printed form and the classification against the registries, a 32-bit or
  128-bit word each. An IPv4-mapped IPv6 address is classified as the IPv4 address it carries.
\<close>

datatype ip = V4 "32 word" | V6 "128 word" "string option"

section \<open>Parsing\<close>

definition hex_digit :: "char \<Rightarrow> nat option" where
  "hex_digit ch =
     (let n = (of_char ch :: nat) in
      if 48 \<le> n \<and> n \<le> 57 then Some (n - 48)
      else if 97 \<le> n \<and> n \<le> 102 then Some (n - 87)
      else if 65 \<le> n \<and> n \<le> 70 then Some (n - 55)
      else None)"

definition parse_octet :: "string \<Rightarrow> nat option" where
  "parse_octet s =
     (if s = [] \<or> \<not> list_all is_digit s \<or> 3 < length s \<or> (s \<noteq> ''0'' \<and> hd s = CHR ''0'') then None
      else if 255 < digits_val s then None else Some (digits_val s))"

fun all_some :: "'a option list \<Rightarrow> 'a list option" where
  "all_some [] = Some []"
| "all_some (None # xs) = None"
| "all_some (Some x # xs) = map_option (Cons x) (all_some xs)"

definition parse_ipv4 :: "string \<Rightarrow> 32 word option" where
  "parse_ipv4 s =
     (let octets = str_split (CHR ''.'') s in
      if CHR ''/'' \<in> set s \<or> length octets \<noteq> 4 then None
      else map_option (foldl (\<lambda>w o'. push_bit 8 w OR word_of_nat o') 0) (all_some (map parse_octet octets)))"

definition parse_hextet :: "string \<Rightarrow> nat option" where
  "parse_hextet s =
     (if s = [] \<or> 4 < length s then None
      else map_option (foldl (\<lambda>n d. 16 * n + d) 0) (all_some (map hex_digit s)))"

definition hex4 :: "nat \<Rightarrow> string" where
  "hex4 n =
     (let ds = dropWhile (\<lambda>ch. ch = CHR ''0'') (map (\<lambda>k. hex_char (n div 16 ^ k mod 16)) [3, 2, 1, 0])
      in if ds = [] then ''0'' else ds)"

text \<open>A dotted last part stands for two parts.\<close>

definition expand_dotted :: "string list \<Rightarrow> string list option" where
  "expand_dotted parts =
     (if CHR ''.'' \<in> set (last parts) then
        map_option (\<lambda>w. butlast parts @ [hex4 (unat (drop_bit 16 w)), hex4 (unat (w AND 0xFFFF))])
          (parse_ipv4 (last parts))
      else Some parts)"

text \<open>The eight hextets of the parts, with the run a double colon stands for filled in.\<close>

definition hextets :: "string list \<Rightarrow> string list option" where
  "hextets parts =
     (case filter (\<lambda>i. parts ! i = []) [1..<length parts - 1] of
        [] \<Rightarrow> if length parts = 8 \<and> hd parts \<noteq> [] \<and> last parts \<noteq> [] then Some parts else None
      | [k] \<Rightarrow>
          (let hi = take k parts; lo = drop (Suc k) parts;
               hi' = (if hd parts = [] then tl hi else hi);
               lo' = (if last parts = [] then butlast lo else lo);
               skipped = 8 - int (length hi' + length lo')
           in if (hd parts = [] \<and> hi' \<noteq> []) \<or> (last parts = [] \<and> lo' \<noteq> []) \<or> skipped < 1 then None
              else Some (hi' @ replicate (nat skipped) ''0'' @ lo'))
      | _ \<Rightarrow> None)"

definition parse_ipv6_int :: "string \<Rightarrow> 128 word option" where
  "parse_ipv6_int s =
     (let parts = str_split (CHR '':'') s in
      if s = [] \<or> length parts < 3 then None
      else case expand_dotted parts of
          None \<Rightarrow> None
        | Some parts \<Rightarrow>
            if 9 < length parts then None
            else Option.bind (Option.bind (hextets parts) (\<lambda>hs. all_some (map parse_hextet hs)))
              (\<lambda>ns. Some (foldl (\<lambda>w h. push_bit 16 w OR word_of_nat h) 0 ns)))"

definition parse_ipv6 :: "string \<Rightarrow> ip option" where
  "parse_ipv6 s =
     (let (addr, scope) = str_partition (CHR ''%'') s in
      if CHR ''/'' \<in> set s then None
      else if CHR ''%'' \<notin> set s then map_option (\<lambda>w. V6 w None) (parse_ipv6_int addr)
      else if scope = [] \<or> CHR ''%'' \<in> set scope then None
      else map_option (\<lambda>w. V6 w (Some scope)) (parse_ipv6_int addr))"

text \<open>\<open>ipaddress.ip_address(s)\<close>; \<open>None\<close> is its \<open>ValueError\<close>.\<close>

definition ip_address :: "string \<Rightarrow> ip option" where
  "ip_address s = (case parse_ipv4 s of Some w \<Rightarrow> Some (V4 w) | None \<Rightarrow> parse_ipv6 s)"

section \<open>Printing\<close>

definition ipv4_str :: "32 word \<Rightarrow> string" where
  "ipv4_str w = join_with ''.'' (map (\<lambda>k. show_nat (unat (drop_bit (8 * k) w AND 0xFF))) [3, 2, 1, 0])"

text \<open>The longest run of zero hextets, the first of equals: its start and length.\<close>

fun zero_runs :: "nat \<Rightarrow> nat list \<Rightarrow> (nat \<times> nat) list" where
  "zero_runs i [] = []"
| "zero_runs i (h # hs) =
     (if h = 0 then (i, length (takeWhile (\<lambda>x. x = 0) (h # hs))) # zero_runs (Suc i) hs
      else zero_runs (Suc i) hs)"

definition compress_hextets :: "nat list \<Rightarrow> string" where
  "compress_hextets hs =
     (case zero_runs 0 hs of
        [] \<Rightarrow> join_with '':'' (map hex4 hs)
      | r # rs \<Rightarrow>
          (let (start, len) = max_by snd r rs in
           if len \<le> 1 then join_with '':'' (map hex4 hs)
           else join_with '':'' (map hex4 (take start hs)) @ ''::'' @
                join_with '':'' (map hex4 (drop (start + len) hs))))"

definition ipv4_mapped :: "128 word \<Rightarrow> 32 word option" where
  "ipv4_mapped w = (if drop_bit 32 w = 0xFFFF then Some (ucast w) else None)"

definition ipv6_str :: "128 word \<Rightarrow> string" where
  "ipv6_str w =
     (case ipv4_mapped w of
        Some v4 \<Rightarrow> ''::ffff:'' @ ipv4_str v4
      | None \<Rightarrow> compress_hextets (map (\<lambda>k. unat (drop_bit (16 * k) w AND 0xFFFF)) [7, 6, 5, 4, 3, 2, 1, 0]))"

fun ip_str :: "ip \<Rightarrow> string" where
  "ip_str (V4 w) = ipv4_str w"
| "ip_str (V6 w None) = ipv6_str w"
| "ip_str (V6 w (Some scope)) = ipv6_str w @ ''%'' @ scope"

section \<open>Classification\<close>

text \<open>\<open>address in network\<close>: the leading \<open>n\<close> bits agree.\<close>

definition in_net :: "'a::len word \<Rightarrow> 'a word \<times> nat \<Rightarrow> bool" where
  "in_net w = (\<lambda>(net, n). drop_bit (LENGTH('a) - n) w = drop_bit (LENGTH('a) - n) net)"

definition in_nets :: "'a::len word \<Rightarrow> ('a word \<times> nat) list \<Rightarrow> bool" where
  "in_nets w nets \<longleftrightarrow> list_ex (in_net w) nets"

definition v4_private :: "(32 word \<times> nat) list" where
  "v4_private =
     [(0x00000000, 8), (0x0A000000, 8), (0x7F000000, 8), (0xA9FE0000, 16), (0xAC100000, 12),
      (0xC0000000, 24), (0xC00000AA, 31), (0xC0000200, 24), (0xC0A80000, 16), (0xC6120000, 15),
      (0xC6336400, 24), (0xCB007100, 24), (0xF0000000, 4), (0xFFFFFFFF, 32)]"

definition v4_private_exceptions :: "(32 word \<times> nat) list" where
  "v4_private_exceptions = [(0xC0000009, 32), (0xC000000A, 32)]"

definition v4_is_private :: "32 word \<Rightarrow> bool" where
  "v4_is_private w \<longleftrightarrow> in_nets w v4_private \<and> \<not> in_nets w v4_private_exceptions"

definition v4_is_loopback :: "32 word \<Rightarrow> bool" where
  "v4_is_loopback w \<longleftrightarrow> in_net w (0x7F000000, 8)"

definition v4_is_link_local :: "32 word \<Rightarrow> bool" where
  "v4_is_link_local w \<longleftrightarrow> in_net w (0xA9FE0000, 16)"

definition v4_is_multicast :: "32 word \<Rightarrow> bool" where
  "v4_is_multicast w \<longleftrightarrow> in_net w (0xE0000000, 4)"

definition v4_is_reserved :: "32 word \<Rightarrow> bool" where
  "v4_is_reserved w \<longleftrightarrow> in_net w (0xF0000000, 4)"

definition v4_is_global :: "32 word \<Rightarrow> bool" where
  "v4_is_global w \<longleftrightarrow> \<not> in_net w (0x64400000, 10) \<and> \<not> v4_is_private w"

definition v6_private :: "(128 word \<times> nat) list" where
  "v6_private =
     [(1, 128), (0, 128), (0xFFFF00000000, 96), (0x0064FF9B000100000000000000000000, 48),
      (0x01000000000000000000000000000000, 64), (0x20010000000000000000000000000000, 23),
      (0x20010DB8000000000000000000000000, 32), (0x20020000000000000000000000000000, 16),
      (0x3FFF0000000000000000000000000000, 20), (0xFC000000000000000000000000000000, 7),
      (0xFE800000000000000000000000000000, 10)]"

definition v6_private_exceptions :: "(128 word \<times> nat) list" where
  "v6_private_exceptions =
     [(0x20010001000000000000000000000001, 128), (0x20010001000000000000000000000002, 128),
      (0x20010003000000000000000000000000, 32), (0x20010004011200000000000000000000, 48),
      (0x20010020000000000000000000000000, 28), (0x20010030000000000000000000000000, 28)]"

definition v6_reserved :: "(128 word \<times> nat) list" where
  "v6_reserved =
     [(0x00000000000000000000000000000000, 8), (0x01000000000000000000000000000000, 8),
      (0x02000000000000000000000000000000, 7), (0x04000000000000000000000000000000, 6),
      (0x08000000000000000000000000000000, 5), (0x10000000000000000000000000000000, 4),
      (0x40000000000000000000000000000000, 3), (0x60000000000000000000000000000000, 3),
      (0x80000000000000000000000000000000, 3), (0xA0000000000000000000000000000000, 3),
      (0xC0000000000000000000000000000000, 3), (0xE0000000000000000000000000000000, 4),
      (0xF0000000000000000000000000000000, 5), (0xF8000000000000000000000000000000, 6),
      (0xFE000000000000000000000000000000, 9)]"

text \<open>The properties of an IPv6 address: of the mapped IPv4 address where there is one.\<close>

definition v6_prop :: "(32 word \<Rightarrow> bool) \<Rightarrow> (128 word \<Rightarrow> bool) \<Rightarrow> 128 word \<Rightarrow> bool" where
  "v6_prop p4 p6 w = (case ipv4_mapped w of Some v4 \<Rightarrow> p4 v4 | None \<Rightarrow> p6 w)"

fun is_loopback :: "ip \<Rightarrow> bool" where
  "is_loopback (V4 w) = v4_is_loopback w"
| "is_loopback (V6 w _) = v6_prop v4_is_loopback (\<lambda>w. w = 1) w"

fun is_link_local :: "ip \<Rightarrow> bool" where
  "is_link_local (V4 w) = v4_is_link_local w"
| "is_link_local (V6 w _) = v6_prop v4_is_link_local (\<lambda>w. in_net w (0xFE800000000000000000000000000000, 10)) w"

fun is_multicast :: "ip \<Rightarrow> bool" where
  "is_multicast (V4 w) = v4_is_multicast w"
| "is_multicast (V6 w _) = v6_prop v4_is_multicast (\<lambda>w. in_net w (0xFF000000000000000000000000000000, 8)) w"

fun is_reserved :: "ip \<Rightarrow> bool" where
  "is_reserved (V4 w) = v4_is_reserved w"
| "is_reserved (V6 w _) = v6_prop v4_is_reserved (\<lambda>w. in_nets w v6_reserved) w"

fun is_private :: "ip \<Rightarrow> bool" where
  "is_private (V4 w) = v4_is_private w"
| "is_private (V6 w _) =
     v6_prop v4_is_private (\<lambda>w. in_nets w v6_private \<and> \<not> in_nets w v6_private_exceptions) w"

fun is_global :: "ip \<Rightarrow> bool" where
  "is_global (V4 w) = v4_is_global w"
| "is_global (V6 w s) = v6_prop v4_is_global (\<lambda>w. \<not> is_private (V6 w s)) w"

section \<open>Networks as intervals\<close>

lemma drop_bit_eq_iff:
  fixes w net :: "'a::len word"
  assumes "k \<le> LENGTH('a)" and "2 ^ k dvd unat net"
  shows "drop_bit k w = drop_bit k net \<longleftrightarrow> unat net \<le> unat w \<and> unat w < unat net + 2 ^ k"
proof -
  have "drop_bit k w = drop_bit k net \<longleftrightarrow> unat w div 2 ^ k = unat net div 2 ^ k"
    by (metis unat_drop_bit_eq drop_bit_eq_div word_unat_eq_iff)
  also have "\<dots> \<longleftrightarrow> unat net \<le> unat w \<and> unat w < unat net + 2 ^ k"
  proof -
    from assms(2) obtain q where q: "unat net = 2 ^ k * q" by (elim dvdE)
    have "unat w div 2 ^ k = q \<longleftrightarrow> q * 2 ^ k \<le> unat w \<and> unat w < Suc q * 2 ^ k"
      by (simp add: div_nat_eqI less_mult_imp_div_less antisym_conv1) 
        (metis div_le_mono div_mult_self_is_m div_nat_eqI less_mult_imp_div_less mult.commute mult_Suc
          mult_Suc_right nonzero_mult_div_cancel_right pos2 power_not_zero times_div_less_eq_dividend
          dividend_less_times_div zero_less_power)
    then show ?thesis by (simp add: q mult.commute add.commute)
  qed
  finally show ?thesis .
qed

end
