(* ===== verification/Urls.thy ===== *)
theory Urls
  imports Ip
begin

text \<open>
  What the source uses of \<open>urllib.parse\<close>: \<open>urlparse\<close> with its \<open>scheme\<close>, \<open>hostname\<close> and \<open>port\<close>,
  and \<open>urlunparse\<close>. The normalisation check of a non-ASCII authority is left out.
\<close>

record url =
  u_scheme :: string
  u_netloc :: string
  u_path :: string
  u_params :: string
  u_query :: string
  u_fragment :: string

text \<open>Control characters and blanks are stripped, tabs and newlines removed.\<close>

definition clean_url :: "string \<Rightarrow> string" where
  "clean_url s =
     filter (\<lambda>ch. (of_char ch :: nat) \<notin> {9, 10, 13}) (dropWhile (\<lambda>ch. (of_char ch :: nat) \<le> 32) s)"

definition is_alpha :: "char \<Rightarrow> bool" where
  "is_alpha ch = (let n = (of_char ch :: nat) in (65 \<le> n \<and> n \<le> 90) \<or> (97 \<le> n \<and> n \<le> 122))"

definition scheme_char :: "char \<Rightarrow> bool" where
  "scheme_char ch \<longleftrightarrow> is_alpha ch \<or> is_digit ch \<or> ch \<in> set ''+-.''"

definition split_scheme :: "string \<Rightarrow> string \<times> string" where
  "split_scheme s =
     (let (sch, rest) = str_partition (CHR '':'') s in
      if CHR '':'' \<in> set s \<and> sch \<noteq> [] \<and> is_alpha (hd sch) \<and> list_all scheme_char sch
      then (str_lower sch, rest) else ([], s))"

definition split_netloc :: "string \<Rightarrow> string \<times> string" where
  "split_netloc s =
     (if starts_with ''//'' s then
        (takeWhile (\<lambda>ch. ch \<notin> set ''/?#'') (drop 2 s), dropWhile (\<lambda>ch. ch \<notin> set ''/?#'') (drop 2 s))
      else ([], s))"

text \<open>\<open>rpartition('@')[2]\<close>: what follows the last \<open>@\<close>.\<close>

definition host_info :: "string \<Rightarrow> string" where
  "host_info netloc = rev (takeWhile (\<lambda>ch. ch \<noteq> CHR ''@'') (rev netloc))"

definition check_bracketed_host :: "string \<Rightarrow> bool" where
  "check_bracketed_host h =
     (if h \<noteq> [] \<and> hd h = CHR ''v'' then
        (let (v, rest) = str_partition (CHR ''.'') (tl h) in
         v \<noteq> [] \<and> list_all (\<lambda>ch. hex_digit ch \<noteq> None) v \<and> CHR ''.'' \<in> set h \<and> rest \<noteq> []
         \<and> CHR 10 \<notin> set rest)
      else case ip_address h of Some (V6 _ _) \<Rightarrow> True | _ \<Rightarrow> False)"

text \<open>A bracketed host must come first and be followed by nothing but a port.\<close>

definition check_netloc :: "string \<Rightarrow> bool" where
  "check_netloc netloc =
     (let lb = CHR ''['' \<in> set netloc; rb = CHR '']'' \<in> set netloc; info = host_info netloc in
      if lb \<noteq> rb then False
      else if \<not> lb then True
      else if CHR ''['' \<in> set info then
        (let (pre, bracketed) = str_partition (CHR ''['') info;
             (hostname, port) = str_partition (CHR '']'') bracketed
         in pre = [] \<and> (port = [] \<or> hd port = CHR '':'') \<and> check_bracketed_host hostname)
      else check_bracketed_host (fst (str_partition (CHR '':'') info)))"

text \<open>\<open>;params\<close> of the last path segment.\<close>

definition split_params :: "string \<Rightarrow> string \<times> string" where
  "split_params path =
     (let lastseg = rev (takeWhile (\<lambda>ch. ch \<noteq> CHR ''/'') (rev path));
          pre = take (length path - length lastseg) path
      in if CHR '';'' \<in> set lastseg then
           (pre @ fst (str_partition (CHR '';'') lastseg), snd (str_partition (CHR '';'') lastseg))
         else (path, []))"

definition uses_params :: "string list" where
  "uses_params = ['''', ''ftp'', ''hdl'', ''prospero'', ''http'', ''https'', ''shttp'', ''rtsp'', ''rtsps'',
     ''rtspu'', ''sip'', ''sips'', ''mms'', ''sftp'', ''tel'']"

definition urlparse :: "string \<Rightarrow> url result" where
  "urlparse s =
     (let (sch, rest) = split_scheme (clean_url s);
          (netloc, rest) = split_netloc rest;
          (rest, fragment) = str_partition (CHR ''#'') rest;
          (path, query) = str_partition (CHR ''?'') rest;
          (path, params) = (if sch \<in> set uses_params then split_params path else (path, []))
      in if \<not> check_netloc netloc then Inl (ValueError ''Invalid IPv6 URL'')
         else Inr \<lparr>u_scheme = sch, u_netloc = netloc, u_path = path, u_params = params,
           u_query = query, u_fragment = fragment\<rparr>)"

text \<open>Host and port text of the authority.\<close>

definition host_port :: "string \<Rightarrow> string \<times> string" where
  "host_port netloc =
     (let info = host_info netloc in
      if CHR ''['' \<in> set info then
        (let (hostname, rest) = str_partition (CHR '']'') (snd (str_partition (CHR ''['') info))
         in (hostname, snd (str_partition (CHR '':'') rest)))
      else str_partition (CHR '':'') info)"

text \<open>\<open>parsed.hostname\<close>, the empty string for none: lower case but for an IPv6 zone.\<close>

definition hostname :: "url \<Rightarrow> string" where
  "hostname u =
     (let h = fst (host_port (u_netloc u)) in
      if CHR ''%'' \<in> set h then
        str_lower (fst (str_partition (CHR ''%'') h)) @ ''%'' @ snd (str_partition (CHR ''%'') h)
      else str_lower h)"

definition port_of :: "url \<Rightarrow> int option result" where
  "port_of u =
     (let p = snd (host_port (u_netloc u)) in
      if p = [] then Inr None
      else if \<not> list_all is_digit p then Inl (ValueError (''Port could not be cast to integer value as '' @ py_repr p))
      else if 65535 < digits_val p then Inl (ValueError ''Port out of range 0-65535'')
      else Inr (Some (int (digits_val p))))"

definition uses_netloc :: "string list" where
  "uses_netloc = ['''', ''ftp'', ''http'', ''gopher'', ''nntp'', ''telnet'', ''imap'', ''wais'', ''file'',
     ''mms'', ''https'', ''shttp'', ''snews'', ''prospero'', ''rtsp'', ''rtsps'', ''rtspu'', ''rsync'',
     ''svn'', ''svn+ssh'', ''sftp'', ''nfs'', ''git'', ''git+ssh'', ''ws'', ''wss'', ''itms-services'']"

definition urlunparse :: "url \<Rightarrow> string" where
  "urlunparse u =
     (let path = (if u_params u \<noteq> [] then u_path u @ '';'' @ u_params u else u_path u);
          s = (if u_netloc u \<noteq> [] then
                 ''//'' @ u_netloc u @ (if path \<noteq> [] \<and> hd path \<noteq> CHR ''/'' then ''/'' else []) @ path
               else if starts_with ''//'' path then ''//'' @ path
               else if u_scheme u \<noteq> [] \<and> u_scheme u \<in> set uses_netloc \<and> (path = [] \<or> hd path = CHR ''/'')
               then ''//'' @ path else path);
          s = (if u_scheme u \<noteq> [] then u_scheme u @ '':'' @ s else s);
          s = (if u_query u \<noteq> [] then s @ ''?'' @ u_query u else s)
      in if u_fragment u \<noteq> [] then s @ ''#'' @ u_fragment u else s)"

end
