(* ===== verification/Ssrf.thy ===== *)
theory Ssrf
  imports Urls Config
begin

text \<open>
  Protection against server-side request forgery (\<open>src/ssrf.py\<close>): the address check, the
  validation of a host name, the adapter that connects to the validated address and the session
  that follows redirects by hand. The resolver and the network act on a world \<open>'w\<close>, so a name may
  resolve differently at every look-up; \<open>urljoin\<close> is a parameter too, the checks hold whatever
  it gives. A failing look-up (\<open>socket.gaierror\<close>) is an \<open>OSError\<close>.
\<close>

definition cloud_metadata_ips :: "string list" where
  "cloud_metadata_ips = [''169.254.169.254'', ''fd00:ec2::254'']"

definition max_redirects :: nat where "max_redirects = 5"

definition redirect_status_codes :: "int list" where
  "redirect_status_codes = [301, 302, 303, 307, 308]"

definition ssrf_allowed_hosts :: "settings \<Rightarrow> string list" where
  "ssrf_allowed_hosts cfg = map str_lower (split_csv (cfg_ssrf_allowed_hosts cfg))"

definition is_allowlisted_host :: "settings \<Rightarrow> string \<Rightarrow> bool" where
  "is_allowlisted_host cfg host \<longleftrightarrow>
     host \<noteq> [] \<and> str_lower host \<in> set (ssrf_allowed_hosts cfg)"

definition check_ip :: "ip \<Rightarrow> string \<Rightarrow> unit result" where
  "check_ip ip_addr host =
     (if ip_str ip_addr \<in> set cloud_metadata_ips then
        Inl (SSRFValidationError (host @ '' resolves to cloud metadata endpoint''))
      else if is_loopback ip_addr then Inl (SSRFValidationError (host @ '' resolves to loopback address''))
      else if is_link_local ip_addr then Inl (SSRFValidationError (host @ '' resolves to link-local address''))
      else if is_multicast ip_addr then Inl (SSRFValidationError (host @ '' resolves to multicast address''))
      else if is_reserved ip_addr then Inl (SSRFValidationError (host @ '' resolves to reserved address''))
      else if is_private ip_addr then Inl (SSRFValidationError (host @ '' resolves to private IP address''))
      else if \<not> is_global ip_addr then Inl (SSRFValidationError (host @ '' resolves to non-global address''))
      else Inr ())"

definition assert_public_ip :: "string \<Rightarrow> string \<Rightarrow> unit result" where
  "assert_public_ip ip host =
     (case ip_address ip of
        None \<Rightarrow> Inl (SSRFValidationError (''Invalid IP address '' @ py_repr ip))
      | Some a \<Rightarrow> check_ip a (if host \<noteq> [] then host else ip))"

text \<open>The loop over the resolved addresses.\<close>

fun check_addrs :: "bool \<Rightarrow> string \<Rightarrow> string list \<Rightarrow> string list result" where
  "check_addrs allowlisted host [] = Inr []"
| "check_addrs allowlisted host (s # rest) =
     (case ip_address s of
        None \<Rightarrow> Inl (SSRFValidationError ''Invalid IP address in DNS response'')
      | Some a \<Rightarrow>
          rbind (if allowlisted then Inr () else check_ip a host) (\<lambda>_.
          rbind (check_addrs allowlisted host rest) (\<lambda>ips. Inr (s # ips))))"

type_synonym 'w resolver = "string \<Rightarrow> 'w \<Rightarrow> string list result \<times> 'w"

text \<open>The \<open>except socket.gaierror\<close> clause.\<close>

definition resolver_error :: "exn \<Rightarrow> exn" where
  "resolver_error e = (case e of OSError _ \<Rightarrow> SSRFValidationError ''Unable to resolve hostname'' | _ \<Rightarrow> e)"

definition validate_hostname ::
    "settings \<Rightarrow> 'w resolver \<Rightarrow> string \<Rightarrow> bool \<Rightarrow> 'w \<Rightarrow> string list result \<times> 'w" where
  "validate_hostname cfg dns host allow_ip_literal w =
     (if host = [] then (Inl (SSRFValidationError ''Invalid hostname (missing)''), w)
      else let allowlisted = is_allowlisted_host cfg host in
        case ip_address host of
          Some a \<Rightarrow>
            (if \<not> allow_ip_literal then
               Inl (SSRFValidationError ''IP addresses are not allowed (domain name required)'')
             else rbind (if allowlisted then Inr () else check_ip a host) (\<lambda>_. Inr [ip_str a]), w)
        | None \<Rightarrow>
            (case dns host w of
               (Inl e, w') \<Rightarrow> (Inl (resolver_error e), w')
             | (Inr addrs, w') \<Rightarrow>
                 (rbind (check_addrs allowlisted host addrs) (\<lambda>ips.
                    if ips = [] then Inl (SSRFValidationError ''No valid IP addresses found'') else Inr ips), w')))"

section \<open>The session\<close>

text \<open>One connection the session opens: where it goes, what it asks for and as whom.\<close>

record conn =
  cn_method :: string
  cn_ip :: string
  cn_port :: int
  cn_url :: string
  cn_host :: string
  cn_tls_name :: "string option"

record 'r web =
  wr_status :: int
  wr_location :: "string option"
  wr_data :: 'r

record ('w, 'r) network =
  nw_dns :: "'w resolver"
  nw_http :: "conn \<Rightarrow> 'w \<Rightarrow> 'r web result \<times> 'w"
  nw_urljoin :: "string \<Rightarrow> string \<Rightarrow> string result"

text \<open>\<open>_validate_and_unpack\<close>: validated address, host name, scheme and port.\<close>

definition validate_and_unpack ::
    "settings \<Rightarrow> 'w resolver \<Rightarrow> string \<Rightarrow> 'w \<Rightarrow> (string \<times> string \<times> string \<times> int) result \<times> 'w" where
  "validate_and_unpack cfg dns url w =
     (case urlparse url of
        Inl e \<Rightarrow> (Inl e, w)
      | Inr parsed \<Rightarrow>
          if u_scheme parsed \<notin> {''http'', ''https''} then
            (Inl (SSRFValidationError ''Invalid URL scheme (only http/https allowed)''), w)
          else if hostname parsed = [] then
            (Inl (SSRFValidationError ''Invalid URL (missing hostname)''), w)
          else (case validate_hostname cfg dns (hostname parsed) False w of
            (r, w') \<Rightarrow> (rbind r (\<lambda>ips. rbind (port_of parsed) (\<lambda>p.
               Inr (hd ips, hostname parsed, u_scheme parsed,
                 case p of Some n \<Rightarrow> if n \<noteq> 0 then n else if u_scheme parsed = ''http'' then 80 else 443
                   | None \<Rightarrow> if u_scheme parsed = ''http'' then 80 else 443))), w')))"

definition ip_netloc :: "string \<Rightarrow> int \<Rightarrow> string" where
  "ip_netloc ip port =
     (if CHR '':'' \<in> set ip then ''['' @ ip @ '']:'' @ show_int port else ip @ '':'' @ show_int port)"

text \<open>\<open>SSRFProtectedAdapter.send\<close> with \<open>init_poolmanager\<close>: the URL's authority becomes the
  validated address, the Host header and the TLS name stay the original host's.\<close>

definition pinned_conn :: "string \<Rightarrow> string \<times> string \<times> string \<times> int \<Rightarrow> string \<Rightarrow> conn result" where
  "pinned_conn http_method = (\<lambda>(dest_ip, original_hostname, original_scheme, dest_port) url.
     rbind (urlparse url) (\<lambda>parsed. rbind (port_of parsed) (\<lambda>p.
       Inr \<lparr>cn_method = http_method, cn_ip = dest_ip, cn_port = dest_port,
         cn_url = urlunparse (parsed\<lparr>u_netloc := ip_netloc dest_ip dest_port\<rparr>),
         cn_host = (case p of
             Some n \<Rightarrow> if n \<noteq> 0 \<and> n \<noteq> 80 \<and> n \<noteq> 443 then original_hostname @ '':'' @ show_int n else original_hostname
           | None \<Rightarrow> original_hostname),
         cn_tls_name = (if original_scheme = ''https'' then Some original_hostname else None)\<rparr>)))"

definition pin ::
    "settings \<Rightarrow> 'w resolver \<Rightarrow> string \<Rightarrow> string \<Rightarrow> 'w \<Rightarrow> conn result \<times> 'w" where
  "pin cfg dns http_method url w =
     (case validate_and_unpack cfg dns url w of
        (r, w') \<Rightarrow> (rbind r (\<lambda>t. pinned_conn http_method t url), w'))"

definition url_scheme :: "string \<Rightarrow> string result" where
  "url_scheme url = rbind (urlparse url) (\<lambda>u. Inr (u_scheme u))"

text \<open>What the loop does after a response: stop with it, or the URL of the next hop.\<close>

definition next_hop ::
    "(string \<Rightarrow> string \<Rightarrow> string result) \<Rightarrow> bool \<Rightarrow> string \<Rightarrow> 'r web \<Rightarrow> string option result" where
  "next_hop urljoin follow current_url response =
     (if \<not> follow \<or> wr_status response \<notin> set redirect_status_codes then Inr None
      else case wr_location response of
          None \<Rightarrow> Inr None
        | Some location \<Rightarrow>
            if location = [] then Inr None
            else rbind (urljoin current_url location) (\<lambda>next_url.
              rbind (url_scheme current_url) (\<lambda>s. rbind (url_scheme next_url) (\<lambda>s'.
                if s = ''https'' \<and> s' = ''http'' then
                  Inl (SSRFValidationError ''Refusing to follow HTTPS->HTTP redirect downgrade'')
                else Inr (Some next_url)))))"

fun hops ::
    "settings \<Rightarrow> ('w, 'r) network \<Rightarrow> string \<Rightarrow> bool \<Rightarrow> nat \<Rightarrow> string \<Rightarrow> 'w
      \<Rightarrow> 'r web result \<times> conn list \<times> 'w" where
  "hops cfg nw http_method follow 0 url w =
     (Inl (SSRFValidationError ''Too many redirects (max 5)''), [], w)"
| "hops cfg nw http_method follow (Suc n) url w =
     (case pin cfg (nw_dns nw) http_method url w of
        (Inl e, w1) \<Rightarrow> (Inl e, [], w1)
      | (Inr c, w1) \<Rightarrow>
          (case nw_http nw c w1 of
             (Inl e, w2) \<Rightarrow> (Inl e, [c], w2)
           | (Inr r, w2) \<Rightarrow>
               (case next_hop (nw_urljoin nw) follow url r of
                  Inl e \<Rightarrow> (Inl e, [c], w2)
                | Inr None \<Rightarrow> (Inr r, [c], w2)
                | Inr (Some next_url) \<Rightarrow>
                    (case hops cfg nw http_method follow n next_url w2 of
                       (res, cs, w3) \<Rightarrow> (res, c # cs, w3)))))"

text \<open>\<open>get\<close> follows redirects, \<open>post\<close> is called with \<open>allow_redirects=False\<close>.\<close>

definition request_with_redirects ::
    "settings \<Rightarrow> ('w, 'r) network \<Rightarrow> string \<Rightarrow> bool \<Rightarrow> string \<Rightarrow> 'w \<Rightarrow> 'r web result \<times> conn list \<times> 'w" where
  "request_with_redirects cfg nw http_method allow_redirects url w =
     hops cfg nw http_method allow_redirects (max_redirects + 1) url w"

section \<open>What a validated host gives\<close>

text \<open>An address the service may dial for a host.\<close>

definition dialable :: "settings \<Rightarrow> string \<Rightarrow> string \<Rightarrow> bool" where
  "dialable cfg host s \<longleftrightarrow>
     (\<exists>a. ip_address s = Some a \<and> (is_allowlisted_host cfg host \<or> check_ip a host = Inr ()))"

lemma check_addrs_good:
  "check_addrs (is_allowlisted_host cfg host) host addrs = Inr ips \<Longrightarrow>
     ips = addrs \<and> list_all (dialable cfg host) ips"
  by (induction addrs arbitrary: ips)
     (auto simp: rbind_Inr_iff dialable_def split: option.splits if_splits)

text \<open>The contract of host validation for its two clients, the session and the request policy:
  the addresses it returns are dialable, and there is one.\<close>

locale host_guard =
  fixes validate :: "string \<Rightarrow> 'w \<Rightarrow> string list result \<times> 'w"
    and good :: "string \<Rightarrow> string \<Rightarrow> bool"
    and literal :: "string \<Rightarrow> bool"
  assumes validated: "fst (validate h w) = Inr ips \<Longrightarrow> ips \<noteq> [] \<and> list_all (good h) ips"
    and named: "fst (validate h w) = Inr ips \<Longrightarrow> \<not> literal h"
begin

lemma first_good: "fst (validate h w) = Inr ips \<Longrightarrow> good h (hd ips) \<and> \<not> literal h"
  using validated named by (cases ips) fastforce+

lemma literal_refused: "literal h \<Longrightarrow> \<exists>e. fst (validate h w) = Inl e"
  using named by (cases "fst (validate h w)") auto

end

text \<open>What a host name must resolve to at a moment: addresses, all of which may be dialled.\<close>

definition resolves_safely :: "settings \<Rightarrow> 'w resolver \<Rightarrow> string \<Rightarrow> 'w \<Rightarrow> bool" where
  "resolves_safely cfg dns host w \<longleftrightarrow>
     host \<noteq> [] \<and> ip_address host = None
     \<and> (case fst (dns host w) of Inl _ \<Rightarrow> False | Inr ips \<Rightarrow> ips \<noteq> [] \<and> list_all (dialable cfg host) ips)"

lemma check_addrs_all:
  "list_all (dialable cfg host) addrs \<Longrightarrow> check_addrs (is_allowlisted_host cfg host) host addrs = Inr addrs"
  by (induction addrs) (auto simp: dialable_def)

lemma validate_hostname_Inr:
  "fst (validate_hostname cfg dns h False w) = Inr ips \<longleftrightarrow> resolves_safely cfg dns h w \<and> fst (dns h w) = Inr ips"
proof (cases "h = [] \<or> ip_address h \<noteq> None")
  case False
  then have n: "h \<noteq> []" "ip_address h = None" by auto
  obtain r w' where d: "dns h w = (r, w')" by (cases "dns h w")
  show ?thesis
  proof (cases r)
    case (Inr addrs)
    then show ?thesis
      using n d check_addrs_good [of cfg h addrs] check_addrs_all [of cfg h addrs]
      by (auto simp: validate_hostname_def resolves_safely_def rbind_Inr_iff split: if_splits)
  qed (simp add: n d validate_hostname_def resolves_safely_def)
qed (auto simp: validate_hostname_def resolves_safely_def)

text \<open>An address that some look-up of the host gave, in an answer that passed as a whole.\<close>

definition looked_up :: "settings \<Rightarrow> 'w resolver \<Rightarrow> string \<Rightarrow> string \<Rightarrow> bool" where
  "looked_up cfg dns host ip \<longleftrightarrow>
     (\<exists>w ips. fst (dns host w) = Inr ips \<and> ip \<in> set ips \<and> list_all (dialable cfg host) ips)"

interpretation guard: host_guard "\<lambda>h. validate_hostname cfg dns h False" "looked_up cfg dns"
    "\<lambda>h. ip_address h \<noteq> None" for cfg dns
proof unfold_locales
  fix h w ips
  assume "fst (validate_hostname cfg dns h False w) = Inr ips"
  then have r: "resolves_safely cfg dns h w" and d: "fst (dns h w) = Inr ips"
    by (simp_all add: validate_hostname_Inr)
  from r d have ok: "ips \<noteq> []" "list_all (dialable cfg h) ips" by (simp_all add: resolves_safely_def)
  with d show "ips \<noteq> [] \<and> list_all (looked_up cfg dns h) ips"
    by (auto simp: list_all_iff looked_up_def)
  show "\<not> ip_address h \<noteq> None" using r by (simp add: resolves_safely_def)
qed

section \<open>The blocked ranges\<close>

lemma in_net_interval:
  fixes w net :: "32 word"
  assumes "n \<le> 32" and "2 ^ (32 - n) dvd unat net"
  shows "in_net w (net, n) \<longleftrightarrow> unat net \<le> unat w \<and> unat w < unat net + 2 ^ (32 - n)"
  using drop_bit_eq_iff [of "32 - n" net w] assms by (simp add: in_net_def)

text \<open>The IPv4 ranges that must not be dialled: start and size.\<close>

definition blocked_v4 :: "(nat \<times> nat) list" where
  "blocked_v4 =
     [(0, 2 ^ 24), (10 * 2 ^ 24, 2 ^ 24), (100 * 2 ^ 24 + 64 * 2 ^ 16, 2 ^ 22), (127 * 2 ^ 24, 2 ^ 24),
      (169 * 2 ^ 24 + 254 * 2 ^ 16, 2 ^ 16), (172 * 2 ^ 24 + 16 * 2 ^ 16, 2 ^ 20),
      (192 * 2 ^ 24, 9), (192 * 2 ^ 24 + 11, 245), (192 * 2 ^ 24 + 2 * 2 ^ 8, 2 ^ 8),
      (192 * 2 ^ 24 + 168 * 2 ^ 16, 2 ^ 16), (198 * 2 ^ 24 + 18 * 2 ^ 16, 2 ^ 17),
      (198 * 2 ^ 24 + 51 * 2 ^ 16 + 100 * 2 ^ 8, 2 ^ 8), (203 * 2 ^ 24 + 113 * 2 ^ 8, 2 ^ 8),
      (224 * 2 ^ 24, 2 ^ 29)]"

definition v4_blocked :: "nat \<Rightarrow> bool" where
  "v4_blocked n \<longleftrightarrow> list_ex (\<lambda>(lo, size). lo \<le> n \<and> n < lo + size) blocked_v4"

lemma div_interval:
  "in_net w (net, n) \<longleftrightarrow> unat net \<le> unat w \<and> unat w < unat net + 2 ^ (32 - n)"
  if "n \<le> 32" "unat net mod 2 ^ (32 - n) = 0" for w net :: "32 word"
  using in_net_interval [of n net w] that by (simp add: mod_eq_0_iff_dvd)

lemma v4_nets:
  assumes "unat a \<noteq> 0xC0000009" and "unat a \<noteq> 0xC000000A"
  shows "v4_is_loopback a \<or> v4_is_link_local a \<or> v4_is_multicast a \<or> v4_is_reserved a
      \<or> v4_is_private a \<or> \<not> v4_is_global a \<longleftrightarrow> v4_blocked (unat a)"
proof -
  define x where "x = unat a"
  have lt: "x < 2 ^ 32" using unsigned_less [of a] by (simp add: x_def)
  show ?thesis
    using assms lt
    unfolding v4_is_loopback_def v4_is_link_local_def v4_is_multicast_def v4_is_reserved_def
      v4_is_private_def v4_is_global_def in_nets_def v4_private_def v4_private_exceptions_def
    by (simp add: div_interval v4_blocked_def blocked_v4_def x_def [symmetric]) presburger
qed

lemma v4_nets_all:
  "v4_is_loopback a \<or> v4_is_link_local a \<or> v4_is_multicast a \<or> v4_is_reserved a
     \<or> v4_is_private a \<or> \<not> v4_is_global a \<longleftrightarrow> v4_blocked (unat a)"
proof (cases "unat a = 0xC0000009 \<or> unat a = 0xC000000A")
  case True
  then show ?thesis
    unfolding v4_is_loopback_def v4_is_link_local_def v4_is_multicast_def v4_is_reserved_def
      v4_is_private_def v4_is_global_def in_nets_def v4_private_def v4_private_exceptions_def
    by (elim disjE) (simp_all add: div_interval v4_blocked_def blocked_v4_def)
qed (use v4_nets in blast)

lemma check_ip_v4:
  "check_ip (V4 a) h = Inr () \<longleftrightarrow> ip_str (V4 a) \<notin> set cloud_metadata_ips \<and> \<not> v4_blocked (unat a)"
  unfolding v4_nets_all [symmetric] by (auto simp: check_ip_def)

lemma check_ip_mapped:
  assumes "ipv4_mapped w = Some a"
  shows "check_ip (V6 w s) h = Inr () \<longleftrightarrow> \<not> v4_blocked (unat a)"
proof -
  have "ip_str (V6 w s) \<notin> set cloud_metadata_ips"
    using assms by (cases s) (simp_all add: ipv6_str_def cloud_metadata_ips_def)
  then show ?thesis
    unfolding v4_nets_all [symmetric] using assms by (auto simp: check_ip_def v6_prop_def)
qed



section \<open>Every hop\<close>

text \<open>What a connection of the session keeps to.\<close>

definition safe_conn :: "settings \<Rightarrow> 'w resolver \<Rightarrow> conn \<Rightarrow> bool" where
  "safe_conn cfg dns c \<longleftrightarrow>
     (\<exists>host u. ip_address host = None \<and> looked_up cfg dns host (cn_ip c)
        \<and> starts_with host (cn_host c)
        \<and> cn_url c = urlunparse u \<and> u_netloc u = ip_netloc (cn_ip c) (cn_port c)
        \<and> (u_scheme u = ''https'' \<and> cn_tls_name c = Some host \<or> u_scheme u = ''http'' \<and> cn_tls_name c = None))"

definition secure :: "conn \<Rightarrow> bool" where
  "secure c \<longleftrightarrow> cn_tls_name c \<noteq> None"

lemma pin_safe:
  assumes "pin cfg dns http_method url w = (Inr c, w')"
  shows "safe_conn cfg dns c" and "url_scheme url = Inr (if secure c then ''https'' else ''http'')"
proof -
  from assms obtain ip host sch port where v: "fst (validate_and_unpack cfg dns url w) = Inr (ip, host, sch, port)"
    and c: "pinned_conn http_method (ip, host, sch, port) url = Inr c"
    by (auto simp: pin_def rbind_Inr_iff split: prod.splits)
  then obtain u ips where u: "urlparse url = Inr u" "u_scheme u = ''http'' \<or> u_scheme u = ''https''"
    "host = hostname u" "sch = u_scheme u" "fst (validate_hostname cfg dns (hostname u) False w) = Inr ips" "ip = hd ips"
    by (auto simp: validate_and_unpack_def rbind_Inr_iff split: sum.splits if_splits prod.splits)
  have g: "looked_up cfg dns host ip" "ip_address host = None"
    using guard.first_good [OF u(5)] u(3,6) by auto
  from c u(1) obtain p where p: "port_of u = Inr p" by (auto simp: pinned_conn_def rbind_Inr_iff)
  have cs: "cn_ip c = ip" "cn_port c = port" "cn_url c = urlunparse (u\<lparr>u_netloc := ip_netloc ip port\<rparr>)"
    "cn_tls_name c = (if sch = ''https'' then Some host else None)" "starts_with host (cn_host c)"
    using c u(1) p by (auto simp: pinned_conn_def starts_with_iff split: option.splits)
  show "safe_conn cfg dns c"
    unfolding safe_conn_def using g cs u(2,4)
    by (intro exI [of _ host] exI [of _ "u\<lparr>u_netloc := ip_netloc ip port\<rparr>"]) auto
  show "url_scheme url = Inr (if secure c then ''https'' else ''http'')"
    using u(1,2,4) cs(4) by (auto simp: url_scheme_def secure_def)
qed

lemma next_hop_scheme:
  assumes "next_hop join follow url r = Inr (Some next)" and "url_scheme url = Inr ''https''"
  shows "url_scheme next \<noteq> Inr ''http''"
  using assms
  by (auto simp: next_hop_def rbind_Inr_iff split: if_splits option.splits)

text \<open>What the connections of a request, made from a URL with a budget of hops, have in common.\<close>

definition trail_ok :: "settings \<Rightarrow> 'w resolver \<Rightarrow> nat \<Rightarrow> string \<Rightarrow> conn list \<Rightarrow> bool" where
  "trail_ok cfg dns n url cs \<longleftrightarrow>
     list_all (safe_conn cfg dns) cs \<and> length cs \<le> n
     \<and> (url_scheme url = Inr ''https'' \<longrightarrow> list_all secure cs)
     \<and> sorted (map secure cs)"

lemma hops_first:
  assumes "hops cfg nw http_method follow n url w = (res, cs, w')" and "cs \<noteq> []"
  shows "\<exists>d w4. pin cfg (nw_dns nw) http_method url w = (Inr d, w4)"
proof (cases n)
  case (Suc m)
  obtain p w4 where p: "pin cfg (nw_dns nw) http_method url w = (p, w4)"
    by (cases "pin cfg (nw_dns nw) http_method url w")
  then show ?thesis using assms Suc by (cases p) simp_all
qed (use assms in simp)

lemma hops_trail:
  assumes "hops cfg nw http_method follow n url w = (res, cs, w')"
  shows "trail_ok cfg (nw_dns nw) n url cs"
  using assms
proof (induction n arbitrary: url w res cs w')
  case (Suc n)
  obtain p w1 where p: "pin cfg (nw_dns nw) http_method url w = (p, w1)"
    by (cases "pin cfg (nw_dns nw) http_method url w")
  show ?case
  proof (cases p)
    case (Inl e)
    with Suc.prems p show ?thesis by (auto simp: trail_ok_def)
  next
    case (Inr c)
    note safe = pin_safe [OF p [unfolded Inr]]
    obtain h w2 where h: "nw_http nw c w1 = (h, w2)" by (cases "nw_http nw c w1")
    have one: "trail_ok cfg (nw_dns nw) (Suc n) url [c]" using safe by (simp add: trail_ok_def)
    show ?thesis
    proof (cases h)
      case (Inl e)
      with Suc.prems p \<open>p = Inr c\<close> h one show ?thesis by simp
    next
      case (Inr r)
      show ?thesis
      proof (cases "next_hop (nw_urljoin nw) follow url r")
        case (Inl e)
        with Suc.prems p \<open>p = Inr c\<close> h Inr one show ?thesis by simp
      next
        case nh: (Inr o')
        show ?thesis
        proof (cases o')
          case None
          with Suc.prems p \<open>p = Inr c\<close> h Inr nh one show ?thesis by simp
        next
          case (Some next_url)
          obtain r' cs' w3 where rec: "hops cfg nw http_method follow n next_url w2 = (r', cs', w3)"
            by (metis prod_cases3)
          with Suc.prems p \<open>p = Inr c\<close> h Inr nh Some have cs: "cs = c # cs'" by simp
          have "url_scheme next_url = Inr ''https''" if sc: "secure c" and ne: "cs' \<noteq> []"
          proof -
            obtain d w4 where d: "pin cfg (nw_dns nw) http_method next_url w2 = (Inr d, w4)"
              using hops_first [OF rec ne] by blast
            have "url_scheme next_url \<noteq> Inr ''http''"
              using next_hop_scheme [OF nh [unfolded Some]] safe(2) sc by simp
            with pin_safe(2) [OF d] show ?thesis by (simp split: if_splits)
          qed
          then have "list_all secure cs'" if "secure c"
            using Suc.IH [OF rec] that by (cases "cs' = []") (simp_all add: trail_ok_def)
          then show ?thesis
            using Suc.IH [OF rec] safe
            by (cases "secure c") (simp_all add: cs trail_ok_def list_all_iff)
        qed
      qed
    qed
  qed
qed (simp add: trail_ok_def)

text \<open>C8: Every request the session sends is safe, first hop and redirects alike, although names may
  resolve differently at each look-up and servers redirect where they like: it goes to an address
  that a look-up of the host gave, in an answer all of whose addresses passed the check (or
  belong to an allowlisted host), by http or
  https to a host name and not to an address literal, with the host's own name in the Host header
  and in the TLS verification; there are at most six, and after an https hop none is plain http.\<close>

theorem every_hop_is_validated:
  "case request_with_redirects cfg nw http_method follow url w of (res, cs, w') \<Rightarrow>
     list_all (safe_conn cfg (nw_dns nw)) cs \<and> length cs \<le> 6 \<and> sorted (map secure cs)"
proof -
  obtain res cs w' where r: "request_with_redirects cfg nw http_method follow url w = (res, cs, w')"
    by (metis prod_cases3)
  have "hops cfg nw http_method follow 6 url w = (res, cs, w')"
    using r by (simp add: request_with_redirects_def max_redirects_def)
  from hops_trail [OF this] show ?thesis by (simp add: r trail_ok_def)
qed

end
