(* ===== verification/Validation.thy ===== *)
theory Validation
  imports Ssrf
begin

text \<open>
  The scan-request policy of \<open>src/validation.py\<close>, enforced by the web layer and again by the
  worker: the positive host allowlist and the validation of both hosts a request names.
\<close>

definition host_allowed :: "settings \<Rightarrow> string \<Rightarrow> bool" where
  "host_allowed cfg host =
     (if cfg_allowed_url_hosts cfg = [] then True
      else let hosts = map str_lower (split_csv (cfg_allowed_url_hosts cfg))
           in hosts = [] \<or> str_lower host \<in> set hosts)"

definition assert_scannable ::
    "settings \<Rightarrow> 'w resolver \<Rightarrow> string \<Rightarrow> string option \<Rightarrow> 'w \<Rightarrow> unit result \<times> 'w" where
  "assert_scannable cfg dns url webhook_url w =
     (case urlparse url of
        Inl e \<Rightarrow> (Inl e, w)
      | Inr parsed \<Rightarrow>
          if hostname parsed = [] then (Inl (SSRFValidationError ''invalid url (missing hostname)''), w)
          else if \<not> host_allowed cfg (hostname parsed) then
            (Inl (SSRFValidationError (''host '' @ hostname parsed @ '' not allowed'')), w)
          else if cfg_testing cfg then (Inr (), w)
          else (case validate_hostname cfg dns (hostname parsed) False w of
              (Inl e, w1) \<Rightarrow> (Inl e, w1)
            | (Inr _, w1) \<Rightarrow>
                (case webhook_url of
                   None \<Rightarrow> (Inr (), w1)
                 | Some hook \<Rightarrow>
                     if hook = [] then (Inr (), w1)
                     else case urlparse hook of
                         Inl e \<Rightarrow> (Inl e, w1)
                       | Inr u \<Rightarrow>
                           if hostname u = [] then
                             (Inl (SSRFValidationError ''invalid webhook_url (missing hostname)''), w1)
                           else (case validate_hostname cfg dns (hostname u) False w1 of
                               (Inl e, w2) \<Rightarrow> (Inl e, w2)
                             | (Inr _, w2) \<Rightarrow> (Inr (), w2)))))"

section \<open>What an accepted request gives\<close>

lemma validate_hostname_world:
  "resolves_safely cfg dns h w \<Longrightarrow> snd (validate_hostname cfg dns h False w) = snd (dns h w)"
  by (cases "dns h w") (auto simp: validate_hostname_def resolves_safely_def split: sum.splits)

lemma validate_hostname_cases:
  obtains (ok) ips where "resolves_safely cfg dns h w" "validate_hostname cfg dns h False w = (Inr ips, snd (dns h w))"
  | (bad) e w' where "\<not> resolves_safely cfg dns h w" "validate_hostname cfg dns h False w = (Inl e, w')"
proof (cases "fst (validate_hostname cfg dns h False w)")
  case (Inl e)
  then have "\<not> resolves_safely cfg dns h w"
    using validate_hostname_Inr [of cfg dns h w] by (cases "fst (dns h w)") (auto simp: resolves_safely_def)
  with Inl bad show thesis by (metis prod.collapse)
next
  case (Inr ips)
  then have "resolves_safely cfg dns h w" by (simp add: validate_hostname_Inr)
  with Inr ok validate_hostname_world show thesis by (metis prod.collapse)
qed

text \<open>The policy as a predicate on the request and the moments of its two look-ups.\<close>

definition scannable :: "settings \<Rightarrow> 'w resolver \<Rightarrow> string \<Rightarrow> string option \<Rightarrow> 'w \<Rightarrow> bool" where
  "scannable cfg dns url webhook_url w \<longleftrightarrow>
     (case urlparse url of
        Inl _ \<Rightarrow> False
      | Inr u \<Rightarrow> hostname u \<noteq> [] \<and> host_allowed cfg (hostname u)
          \<and> (cfg_testing cfg \<or> resolves_safely cfg dns (hostname u) w
             \<and> (case webhook_url of
                  None \<Rightarrow> True
                | Some hook \<Rightarrow> hook = [] \<or>
                    (case urlparse hook of Inl _ \<Rightarrow> False
                     | Inr v \<Rightarrow> resolves_safely cfg dns (hostname v) (snd (dns (hostname u) w))))))"

lemma assert_scannable_iff:
  "fst (assert_scannable cfg dns url hook w) = Inr () \<longleftrightarrow> scannable cfg dns url hook w"
proof (cases "urlparse url")
  case u: (Inr u)
  show ?thesis
  proof (cases "hostname u = [] \<or> \<not> host_allowed cfg (hostname u) \<or> cfg_testing cfg")
    case False
    show ?thesis
    proof (cases rule: validate_hostname_cases [of cfg dns "hostname u" w])
      case (ok ips)
      show ?thesis
      proof (cases "hook = None \<or> hook = Some []")
        case nh: False
        then obtain h where h: "hook = Some h" "h \<noteq> []" by auto
        show ?thesis
        proof (cases "urlparse h")
          case (Inr v)
          show ?thesis
            by (cases rule: validate_hostname_cases [of cfg dns "hostname v" "snd (dns (hostname u) w)"])
               (use u False ok h Inr in \<open>auto simp: assert_scannable_def scannable_def resolves_safely_def\<close>)
        qed (use u False ok h in \<open>simp add: assert_scannable_def scannable_def\<close>)
      qed (use u False ok in \<open>auto simp: assert_scannable_def scannable_def\<close>)
    qed (use u False in \<open>simp add: assert_scannable_def scannable_def\<close>)
  qed (use u in \<open>auto simp: assert_scannable_def scannable_def\<close>)
qed (simp add: assert_scannable_def scannable_def)


section \<open>A concrete host\<close>

text \<open>A public host that answers every request alike, for the examples of the other theories.\<close>

definition sample_dns :: "'w resolver" where
  "sample_dns h w = (Inr [''93.184.216.34''], w)"

definition answering :: "'r web \<Rightarrow> (unit, 'r) network" where
  "answering r = \<lparr>nw_dns = sample_dns, nw_http = (\<lambda>c w. (Inr r, w)), nw_urljoin = (\<lambda>b l. Inr l)\<rparr>"

definition drive_urls :: "string list" where
  "drive_urls = [''https://drive.example/f'', ''https://drive.example/hook'']"

definition drive_url :: "string \<Rightarrow> url" where
  "drive_url path = \<lparr>u_scheme = ''https'', u_netloc = ''drive.example'', u_path = path, u_params = [], u_query = [], u_fragment = []\<rparr>"

lemma drive_parsed:
  assumes "x \<in> set drive_urls"
  shows "\<exists>path. urlparse x = Inr (drive_url path)"
proof -
  have "urlparse ''https://drive.example/f'' = Inr (drive_url ''/f'')" by code_simp
  moreover have "urlparse ''https://drive.example/hook'' = Inr (drive_url ''/hook'')" by code_simp
  ultimately show ?thesis using assms by (auto simp: drive_urls_def)
qed

lemma drive_host: "hostname (drive_url path) = ''drive.example''" "port_of (drive_url path) = Inr None" "u_scheme (drive_url path) = ''https''"
proof -
  have "host_port ''drive.example'' = (''drive.example'', [])" "str_lower ''drive.example'' = ''drive.example''" by code_simp+
  then show "hostname (drive_url path) = ''drive.example''" "port_of (drive_url path) = Inr None" "u_scheme (drive_url path) = ''https''"
    by (simp_all add: hostname_def port_of_def drive_url_def Let_def)
qed

lemma drive_valid: "validate_hostname cfg sample_dns ''drive.example'' False w = (Inr [''93.184.216.34''], w)"
proof -
  have "ip_address ''drive.example'' = None" by code_simp
  moreover have "check_addrs allowlisted ''drive.example'' [''93.184.216.34''] = Inr [''93.184.216.34'']" for allowlisted
  proof (cases allowlisted)
    case True
    have "check_addrs True ''drive.example'' [''93.184.216.34''] = Inr [''93.184.216.34'']" by code_simp
    with True show ?thesis by simp
  next
    case False
    have "check_addrs False ''drive.example'' [''93.184.216.34''] = Inr [''93.184.216.34'']" by code_simp
    with False show ?thesis by simp
  qed
  ultimately show ?thesis by (simp add: validate_hostname_def sample_dns_def Let_def)
qed

lemma drive_scannable:
  assumes "x \<in> set drive_urls" and "hook = None \<or> (\<exists>h\<in>set drive_urls. hook = Some h)" and "cfg_allowed_url_hosts cfg = []"
  shows "assert_scannable cfg sample_dns x hook w = (Inr (), w)"
proof -
  obtain p where p: "urlparse x = Inr (drive_url p)" using drive_parsed [OF assms(1)] by blast
  have a: "host_allowed cfg ''drive.example''" using assms(3) by (simp add: host_allowed_def)
  from assms(2) show ?thesis
  proof
    assume "\<exists>h\<in>set drive_urls. hook = Some h"
    then obtain h where h: "hook = Some h" "h \<in> set drive_urls" by blast
    then have "h \<noteq> []" by (auto simp: drive_urls_def)
    moreover obtain q where "urlparse h = Inr (drive_url q)" using drive_parsed [OF h(2)] by blast
    ultimately show ?thesis by (simp add: assert_scannable_def p a h drive_host drive_valid)
  qed (simp add: assert_scannable_def p a drive_host drive_valid)
qed

lemma drive_request:
  assumes "x \<in> set drive_urls" and "wr_location r = None"
  shows "\<exists>c. request_with_redirects cfg (answering r) http_method follow x w = (Inr r, [c], w)"
proof -
  obtain p where p: "urlparse x = Inr (drive_url p)" using drive_parsed [OF assms(1)] by blast
  have "validate_and_unpack cfg sample_dns x w = (Inr (''93.184.216.34'', ''drive.example'', ''https'', 443), w)"
    by (simp add: validate_and_unpack_def p drive_host drive_valid)
  then obtain c where c: "pin cfg (nw_dns (answering r)) http_method x w = (Inr c, w)"
    by (simp add: pin_def pinned_conn_def p drive_host answering_def)
  have six: "max_redirects + 1 = Suc 5" by (simp add: max_redirects_def)
  have h: "next_hop urljoin follow x r = Inr None" "nw_http (answering r) c v = (Inr r, v)" for urljoin v
    using assms(2) by (simp_all add: next_hop_def answering_def)
  show ?thesis unfolding request_with_redirects_def six hops.simps(2) c by (simp add: h)
qed

end
