(* ===== verification/Wire.thy ===== *)
theory Wire
  imports Verdicts
begin

text \<open>
  The API wire formats of \<open>src/wire.py\<close>: which version a path asks for, the v1 scalar of a verdict
  and the downgrade of a canonical payload, an insertion-ordered dictionary of JSON values.
\<close>

type_synonym payload = "(string, json) dict"

definition v1 :: string where "v1 = ''v1.0''"

definition v2 :: string where "v2 = ''v2.0''"

definition prefixes :: "(string, string) dict" where
  "prefixes = [(''/api/v2.0/'', v2), (''/api/v1.0/'', v1)]"

definition of_path :: "string \<Rightarrow> string" where
  "of_path path =
     (case find (\<lambda>(prefix, version). starts_with prefix path) prefixes of
        Some (prefix, version) \<Rightarrow> version
      | None \<Rightarrow> v2)"

definition scalar :: "payload \<Rightarrow> json" where
  "scalar verdict =
     (let kind = jget verdict ''kind''; score = jget verdict ''score'' in
      if kind = JStr ''malware'' then JBool True
      else if kind = JStr ''flagged'' then (if score \<noteq> JNull then score else JBool True)
      else if kind = JStr ''clean'' then (if score \<noteq> JNull then score else JBool False)
      else JNull)"

definition set_scalar :: "payload \<Rightarrow> string \<times> json \<Rightarrow> payload" where
  "set_scalar out = (\<lambda>(category, verdict).
     case verdict of JObj d \<Rightarrow> dict_set category (scalar d) out | _ \<Rightarrow> out)"

definition qualify_malware :: "json \<Rightarrow> payload \<Rightarrow> payload" where
  "qualify_malware verdict out =
     (case verdict of
        JObj d \<Rightarrow>
          if jget d ''kind'' = JStr ''partial'' \<or> jget d ''kind'' = JStr ''error'' then
            (let out1 = dict_setdefault ''error_kind''
                   (JStr (if jget d ''kind'' = JStr ''partial'' then ''file'' else ''transient'')) out
             in if truthy (jget d ''reason'') then dict_setdefault ''error'' (jget d ''reason'') out1 else out1)
          else out
      | _ \<Rightarrow> out)"

definition to_v1 :: "payload \<Rightarrow> payload" where
  "to_v1 payload =
     (let out = filter (\<lambda>(k, v). k \<noteq> ''verdicts'') payload in
      case jget payload ''verdicts'' of
        JObj vs \<Rightarrow> qualify_malware (jget vs ''malware'') (foldl set_scalar out vs)
      | _ \<Rightarrow> out)"

definition serialize :: "payload \<Rightarrow> string \<Rightarrow> payload" where
  "serialize payload version =
     dict_set ''api_version'' (JStr version) (if version = v1 then to_v1 payload else payload)"

section \<open>Lookups\<close>

text \<open>The v1 scalar of a verdict, as the table in the module's documentation has it.\<close>

definition v1_scalar :: "category_verdict \<Rightarrow> json" where
  "v1_scalar v =
     (case cv_kind v of
        Malware \<Rightarrow> JBool True
      | Flagged \<Rightarrow> (case cv_score v of Some s \<Rightarrow> JFloat (round4 s) | None \<Rightarrow> JBool True)
      | Clean \<Rightarrow> (case cv_score v of Some s \<Rightarrow> JFloat (round4 s) | None \<Rightarrow> JBool False)
      | Partial \<Rightarrow> JNull
      | Error \<Rightarrow> JNull)"

text \<open>\<open>{c: v.as_dict() for c, v in report.verdicts().items()}\<close>.\<close>

definition verdicts_json :: "report \<Rightarrow> payload" where
  "verdicts_json rs = map (\<lambda>(c, v). (c, JObj (verdict_as_dict v))) (verdicts rs)"

lemma jget_verdict:
  "jget (verdict_as_dict v) ''kind'' = JStr (kind_str (cv_kind v))"
  "jget (verdict_as_dict v) ''score'' = (case cv_score v of None \<Rightarrow> JNull | Some s \<Rightarrow> JFloat (round4 s))"
  "jget (verdict_as_dict v) ''reason'' = cv_reason v"
  by (simp_all add: verdict_as_dict_def jget_def split: option.splits)

lemma scalar_verdict: "scalar (verdict_as_dict v) = v1_scalar v"
  by (cases "cv_kind v") (simp_all add: scalar_def jget_verdict v1_scalar_def split: option.splits)

lemma map_of_verdicts_json: "map_of (verdicts_json rs) c = map_option (JObj \<circ> verdict_as_dict) (map_of (verdicts rs) c)"
  unfolding verdicts_json_def by (induction "verdicts rs") (auto simp: map_of_map)

lemma keys_verdicts_json: "map fst (verdicts_json rs) = map fst (verdicts rs)"
  by (simp add: verdicts_json_def comp_def case_prod_beta)

lemma map_of_set_scalars:
  assumes "distinct (map fst d)" and "snd ` set d \<subseteq> range JObj"
  shows "map_of (foldl set_scalar out d) k =
     (case map_of d k of Some (JObj v) \<Rightarrow> Some (scalar v) | _ \<Rightarrow> map_of out k)"
  using assms
proof (induction d arbitrary: out)
  case (Cons e d)
  then obtain c v where e: "e = (c, JObj v)" by (cases e) auto
  have "map_of d c = None" using Cons.prems(1) by (simp add: e map_of_eq_None_iff)
  with Cons show ?case
    by (auto simp: e set_scalar_def map_of_dict_set split: option.splits json.splits)
qed simp

lemma map_of_qualify:
  "map_of (qualify_malware w out) k =
     (case w of
        JObj d \<Rightarrow>
          if jget d ''kind'' \<in> {JStr ''partial'', JStr ''error''} \<and> map_of out k = None
             \<and> (k = ''error_kind'' \<or> k = ''error'' \<and> truthy (jget d ''reason''))
          then Some (if k = ''error'' then jget d ''reason''
                     else JStr (if jget d ''kind'' = JStr ''partial'' then ''file'' else ''transient''))
          else map_of out k
      | _ \<Rightarrow> map_of out k)"
  by (auto simp: qualify_malware_def Let_def map_of_setdefault split: json.splits option.splits)

lemma map_of_to_v1:
  assumes "map_of p ''verdicts'' = Some (JObj (verdicts_json rs))"
  shows "map_of (to_v1 p) k =
     (case map_of (verdicts rs) k of
        Some v \<Rightarrow> Some (v1_scalar v)
      | None \<Rightarrow>
         (let x = (if k = ''verdicts'' then None else map_of p k) in
          case map_of (verdicts rs) ''malware'' of
            Some m \<Rightarrow>
              if (cv_kind m = Partial \<or> cv_kind m = Error) \<and> x = None
                 \<and> (k = ''error_kind'' \<or> k = ''error'' \<and> truthy (cv_reason m))
              then Some (if k = ''error'' then cv_reason m
                         else JStr (if cv_kind m = Partial then ''file'' else ''transient''))
              else x
          | None \<Rightarrow> x))"
proof -
  have d: "distinct (map fst (verdicts_json rs))" "snd ` set (verdicts_json rs) \<subseteq> range JObj"
    by (simp add: keys_verdicts_json keys_verdicts) (auto simp: verdicts_json_def)
  have f: "map_of (filter (\<lambda>(k, v). k \<noteq> ''verdicts'') p) k = (if k = ''verdicts'' then None else map_of p k)"
    by (simp add: map_of_filter_key)
  have s: "map_of (foldl set_scalar out (verdicts_json rs)) k =
      (case map_of (verdicts rs) k of Some v \<Rightarrow> Some (v1_scalar v) | None \<Rightarrow> map_of out k)" for out
    unfolding map_of_set_scalars [OF d] map_of_verdicts_json
    by (simp add: scalar_verdict split: option.splits)
  have m: "jget (verdicts_json rs) ''malware'' =
      (case map_of (verdicts rs) ''malware'' of None \<Rightarrow> JNull | Some v \<Rightarrow> JObj (verdict_as_dict v))"
    by (simp add: jget_def map_of_verdicts_json split: option.splits)
  have v: "jget p ''verdicts'' = JObj (verdicts_json rs)" using assms by (simp add: jget_def)
  have k: "JStr (kind_str x) \<in> {JStr ''partial'', JStr ''error''} \<longleftrightarrow> x = Partial \<or> x = Error"
    "kind_str x = ''partial'' \<longleftrightarrow> x = Partial" for x
    by (cases x; simp)+
  define x where "x = (if k = ''verdicts'' then None else map_of p k)"
  define out where "out = foldl set_scalar (filter (\<lambda>(k, v). k \<noteq> ''verdicts'') p) (verdicts_json rs)"
  have o: "map_of out k = (case map_of (verdicts rs) k of Some v \<Rightarrow> Some (v1_scalar v) | None \<Rightarrow> x)"
    unfolding out_def s f x_def ..
  have t: "map_of (to_v1 p) k = map_of (qualify_malware (jget (verdicts_json rs) ''malware'') out) k"
    by (simp add: to_v1_def v out_def)
  show ?thesis
    unfolding Let_def x_def [symmetric]
  proof (cases "map_of (verdicts rs) ''malware''")
    case None
    then show "map_of (to_v1 p) k =
     (case map_of (verdicts rs) k of
        Some v \<Rightarrow> Some (v1_scalar v)
      | None \<Rightarrow>
         (case map_of (verdicts rs) ''malware'' of
            Some m \<Rightarrow>
              if (cv_kind m = Partial \<or> cv_kind m = Error) \<and> x = None
                 \<and> (k = ''error_kind'' \<or> k = ''error'' \<and> truthy (cv_reason m))
              then Some (if k = ''error'' then cv_reason m
                         else JStr (if cv_kind m = Partial then ''file'' else ''transient''))
              else x
          | None \<Rightarrow> x))"
      by (simp only: t m map_of_qualify o option.case json.case)
  next
    case (Some mv)
    then have q: "map_of (to_v1 p) k =
        (if (cv_kind mv = Partial \<or> cv_kind mv = Error) \<and> map_of out k = None
            \<and> (k = ''error_kind'' \<or> k = ''error'' \<and> truthy (cv_reason mv))
         then Some (if k = ''error'' then cv_reason mv
                    else JStr (if cv_kind mv = Partial then ''file'' else ''transient''))
         else map_of out k)"
      by (cases "cv_kind mv") (auto simp: t m map_of_qualify jget_verdict)
    show "map_of (to_v1 p) k =
     (case map_of (verdicts rs) k of
        Some v \<Rightarrow> Some (v1_scalar v)
      | None \<Rightarrow>
         (case map_of (verdicts rs) ''malware'' of
            Some m \<Rightarrow>
              if (cv_kind m = Partial \<or> cv_kind m = Error) \<and> x = None
                 \<and> (k = ''error_kind'' \<or> k = ''error'' \<and> truthy (cv_reason m))
              then Some (if k = ''error'' then cv_reason m
                         else JStr (if cv_kind m = Partial then ''file'' else ''transient''))
              else x
          | None \<Rightarrow> x))"
      unfolding q Some o by (cases "map_of (verdicts rs) k") simp_all
  qed
qed

section \<open>The two views\<close>

text \<open>C30: The two wire versions cannot disagree about a file. For any payload that carries the
  verdicts of a report, whatever else its envelope holds, the v1 value of a category is the one
  the documented table gives for its verdict: \<open>False\<close> only for a clean verdict, no answer exactly
  for a partial one or an error.\<close>

theorem v1_scalar_follows_verdict:
  assumes "map_of p ''verdicts'' = Some (JObj (verdicts_json rs))"
    and "map_of (verdicts rs) c = Some v" and "c \<noteq> ''api_version''"
  shows "map_of (serialize p v1) c = Some (v1_scalar v)
    \<and> (map_of (serialize p v1) c = Some (JBool False) \<longleftrightarrow> cv_kind v = Clean \<and> cv_score v = None)
    \<and> (map_of (serialize p v1) c = Some JNull \<longleftrightarrow> cv_kind v = Partial \<or> cv_kind v = Error)"
proof -
  have "map_of (serialize p v1) c = Some (v1_scalar v)"
    using assms(2,3) by (simp add: serialize_def map_of_to_v1 [OF assms(1)])
  moreover have "v1_scalar v = JBool False \<longleftrightarrow> cv_kind v = Clean \<and> cv_score v = None"
    by (auto simp: v1_scalar_def split: kind.splits option.splits)
  moreover have "v1_scalar v = JNull \<longleftrightarrow> cv_kind v = Partial \<or> cv_kind v = Error"
    by (auto simp: v1_scalar_def split: kind.splits option.splits)
  ultimately show ?thesis by simp
qed

theorem v1_scalar_follows_verdict_witness:
  "map_of (serialize [(''status'', JStr ''done''),
      (''verdicts'', JObj (verdicts_json [sample_result ''exav'' Partial (JStr ''UNSCANNABLE'') False False]))] v1)
     ''malware'' = Some JNull"
proof -
  let ?r = "sample_result ''exav'' Partial (JStr ''UNSCANNABLE'') False False"
  have v: "map_of (verdicts [?r]) ''malware'' = Some (reduce_category [?r])"
    by (simp add: map_of_verdicts results_of_def sample_result_def)
  have k: "cv_kind (reduce_category [?r]) = Partial" by (simp add: report_eval)
  have p: "map_of [(''status'', JStr ''done''), (''verdicts'', JObj (verdicts_json [?r]))] ''verdicts''
      = Some (JObj (verdicts_json [?r]))" by simp
  show ?thesis
    using v1_scalar_follows_verdict [OF p v, THEN conjunct2, THEN conjunct2] k by simp
qed

text \<open>The qualifier of an unanswered malware axis, and the envelope: in v1 the \<open>error_kind\<close> is
  the one the envelope sets, else \<open>file\<close> for a partial malware verdict and \<open>transient\<close> for an
  error, and absent otherwise; v2 is the payload itself. Both carry the version they are in.\<close>

lemma v1_error_kind_qualifies_malware:
  assumes "map_of p ''verdicts'' = Some (JObj (verdicts_json rs))"
    and "map_of (verdicts rs) ''error_kind'' = None"
  shows "map_of (serialize p v1) ''error_kind'' =
      (case map_of p ''error_kind'' of
         Some x \<Rightarrow> Some x
       | None \<Rightarrow> (case map_option cv_kind (map_of (verdicts rs) ''malware'') of
           Some Partial \<Rightarrow> Some (JStr ''file'') | Some Error \<Rightarrow> Some (JStr ''transient'') | _ \<Rightarrow> None))
    \<and> map_of (serialize p v2) = (map_of p)(''api_version'' \<mapsto> JStr v2)
    \<and> map_of (serialize p v1) ''api_version'' = Some (JStr v1)"
  using assms(2)
  by (auto simp: serialize_def map_of_to_v1 [OF assms(1)] v1_def v2_def Let_def
      split: option.splits kind.splits)

lemma v1_error_kind_qualifies_malware_example:
  "map_of (serialize [(''verdicts'', JObj (verdicts_json
      [sample_result ''exav'' Error (JStr ''down'') False False]))] v1) ''error_kind'' = Some (JStr ''transient'')"
proof -
  let ?r = "sample_result ''exav'' Error (JStr ''down'') False False"
  have v: "map_of (verdicts [?r]) c = (if c = ''malware'' then Some (reduce_category [?r]) else None)" for c
    by (simp add: map_of_verdicts results_of_def sample_result_def)
  have k: "cv_kind (reduce_category [?r]) = Error" by (simp add: report_eval)
  have p: "map_of [(''verdicts'', JObj (verdicts_json [?r]))] ''verdicts'' = Some (JObj (verdicts_json [?r]))" by simp
  show ?thesis
    using v1_error_kind_qualifies_malware [OF p] k by (simp add: v)
qed

end
