(* ===== verification/Results_Store.thy ===== *)
theory Results_Store
  imports Wire Config
begin

text \<open>
  The optional job store (\<open>src/results.py\<close>). The result backend belongs to the task library: its
  two operations over a state \<open>'b\<close> (which includes the passing of time) are a parameter, with what
  the store relies on in \<open>backend_laws\<close>.
\<close>

definition pending :: string where "pending = ''pending''"

definition done_status :: string where "done_status = ''done''"

definition error_status :: string where "error_status = ''error''"

text \<open>The keying message of a job: the queue, the actor and the job's id are all that the backend
  keys on.\<close>

type_synonym key_msg = "string \<times> string \<times> string"

definition key_message :: "string \<Rightarrow> key_msg" where
  "key_message job_id = (''default'', ''scan_task'', job_id)"

record 'b backend =
  be_store :: "key_msg \<Rightarrow> json \<Rightarrow> int \<Rightarrow> 'b \<Rightarrow> unit result \<times> 'b"
  be_get :: "key_msg \<Rightarrow> 'b \<Rightarrow> json result"

definition enabled :: "settings \<Rightarrow> bool" where
  "enabled cfg \<longleftrightarrow> 0 < cfg_worker_result_ttl cfg"

text \<open>The exception of the \<open>try\<close> is swallowed: only its effect on the backend remains.\<close>

definition record_job :: "settings \<Rightarrow> 'b backend \<Rightarrow> string \<Rightarrow> string \<Rightarrow> payload \<Rightarrow> 'b \<Rightarrow> 'b" where
  "record_job cfg be job_id owner payload b =
     (if enabled cfg then
        snd (be_store be (key_message job_id)
          (JObj [(''owner'', JStr owner), (''record'', JObj payload)]) (cfg_worker_result_ttl cfg * 1000) b)
      else b)"

definition fetch_job :: "settings \<Rightarrow> 'b backend \<Rightarrow> string \<Rightarrow> string \<Rightarrow> 'b \<Rightarrow> json" where
  "fetch_job cfg be job_id owner b =
     (if \<not> enabled cfg then JNull
      else case be_get be (key_message job_id) b of
          Inl _ \<Rightarrow> JNull
        | Inr (JObj wrapper) \<Rightarrow>
            if jget wrapper ''owner'' \<noteq> JStr owner then JNull else jget wrapper ''record''
        | Inr _ \<Rightarrow> JNull)"

section \<open>The contract of the store\<close>

text \<open>
  What is relied on: a \<open>store_result\<close>, whether it reports success or not, leaves under its own key
  the new value, the old one or nothing readable (expiry, a failure), and under any other key
  the old value or nothing readable.
\<close>

definition backend_laws :: "'b backend \<Rightarrow> bool" where
  "backend_laws be \<longleftrightarrow>
     (\<forall>k x ttl b k'. be_get be k' (snd (be_store be k x ttl b)) = Inr x \<and> k' = k
        \<or> be_get be k' (snd (be_store be k x ttl b)) = be_get be k' b
        \<or> (\<exists>e. be_get be k' (snd (be_store be k x ttl b)) = Inl e))"

text \<open>
  The interface the task and the API see. \<open>recorded job owner r\<close> after a write is what a read may
  show: each read of a job by an owner gives nothing, what it gave before, or what has just been
  written for that very job and owner.
\<close>

locale job_store =
  fixes put :: "string \<Rightarrow> string \<Rightarrow> payload \<Rightarrow> 'b \<Rightarrow> 'b"
    and get :: "string \<Rightarrow> string \<Rightarrow> 'b \<Rightarrow> json"
    and ok :: "'b \<Rightarrow> bool"
  assumes put_ok: "ok b \<Longrightarrow> ok (put job owner p b)"
    and get_put: "ok b \<Longrightarrow> get j o' (put job owner p b) \<noteq> JNull \<Longrightarrow>
      get j o' (put job owner p b) = get j o' b \<or> (j = job \<and> o' = owner \<and> get j o' (put job owner p b) = JObj p)"
begin

definition put_all :: "(string \<times> string \<times> payload) list \<Rightarrow> 'b \<Rightarrow> 'b" where
  "put_all ws b = foldl (\<lambda>b (job, owner, p). put job owner p b) b ws"

lemma put_all_ok: "ok b \<Longrightarrow> ok (put_all ws b)"
  unfolding put_all_def by (induction ws arbitrary: b) (auto simp: put_ok)

text \<open>A read shows what the start showed or one of the writes of the same job and owner.\<close>

lemma get_put_all:
  assumes "ok b" and "get j o' (put_all ws b) \<noteq> JNull"
  shows "get j o' (put_all ws b) = get j o' b \<or> (\<exists>p. (j, o', p) \<in> set ws \<and> get j o' (put_all ws b) = JObj p)"
  using assms(2)
proof (induction ws rule: rev_induct)
  case (snoc w ws)
  obtain job owner p where w: "w = (job, owner, p)" by (cases w) auto
  have s: "put_all (ws @ [w]) b = put job owner p (put_all ws b)" by (simp add: put_all_def w)
  show ?case
    using snoc get_put [OF put_all_ok [OF assms(1), of ws], of j o' job owner p]
    unfolding s by (auto simp: w)
qed (simp add: put_all_def)

end

lemma fetch_recorded:
  assumes laws: "backend_laws be" and ne: "fetch_job cfg be j o' (record_job cfg be job owner p b) \<noteq> JNull"
  shows "fetch_job cfg be j o' (record_job cfg be job owner p b) = fetch_job cfg be j o' b
    \<or> (j = job \<and> o' = owner \<and> fetch_job cfg be j o' (record_job cfg be job owner p b) = JObj p)"
proof (cases "enabled cfg")
  case True
  let ?x = "JObj [(''owner'', JStr owner), (''record'', JObj p)]"
  let ?b = "snd (be_store be (key_message job) ?x (cfg_worker_result_ttl cfg * 1000) b)"
  have r: "record_job cfg be job owner p b = ?b" using True by (simp add: record_job_def)
  consider (new) "be_get be (key_message j) ?b = Inr ?x" "key_message j = key_message job"
    | (old) "be_get be (key_message j) ?b = be_get be (key_message j) b"
    | (none) e where "be_get be (key_message j) ?b = Inl e"
    using laws unfolding backend_laws_def by metis
  then show ?thesis
  proof cases
    case new
    then show ?thesis
      using ne True by (auto simp: r fetch_job_def key_message_def jget_def split: if_splits)
  next
    case old
    then show ?thesis by (simp add: r fetch_job_def)
  next
    case none
    then show ?thesis using ne True by (simp add: r fetch_job_def)
  qed
qed (use ne in \<open>simp add: record_job_def\<close>)

interpretation store: job_store "record_job cfg be" "fetch_job cfg be" "\<lambda>_. backend_laws be" for cfg be
  by unfold_locales (simp, rule fetch_recorded)


text \<open>A backend that keeps everything, as a list of writes.\<close>

definition list_backend :: "(key_msg \<times> json) list backend" where
  "list_backend = \<lparr>be_store = (\<lambda>k x ttl b. (Inr (), (k, x) # b)),
     be_get = (\<lambda>k b. case map_of b k of None \<Rightarrow> Inl (ResultMissing ''missing'') | Some x \<Rightarrow> Inr x)\<rparr>"

lemma list_backend_laws: "backend_laws list_backend"
  by (simp add: backend_laws_def list_backend_def)

definition store_cfg :: settings where
  "store_cfg = default_settings\<lparr>cfg_worker_result_ttl := 3600\<rparr>"


end
