(* ===== verification/Jwt_Auth.thy ===== *)
theory Jwt_Auth
  imports Encryption Config "HOL-Library.Countable"
begin

text \<open>
  JSON web tokens in both directions (\<open>src/jwt_auth.py\<close>): loading the keys, verification of a
  caller's token, the binding of a token to its request, signing of webhooks and the published
  key set. PyJWT, the Ed25519 keys and SHA-256 are the parameter \<open>jwt_lib\<close>; a key is its 32 raw
  bytes. The result of verification depends on the clock, an argument \<open>now\<close>.
\<close>

type_synonym raw_key = "8 word list"

type_synonym claims = "(string, json) dict"

datatype pyjwt_error =
    ExpiredSignatureError
  | InvalidAudienceError
  | MissingRequiredClaimError string
  | InvalidAlgorithmError string
  | InvalidSignatureError
  | PyJWTError string

text \<open>
  \<open>jl_claims\<close> is \<open>jwt.decode\<close> without verification (\<open>Inl\<close>: the text of its \<open>PyJWTError\<close>),
  \<open>jl_verify\<close> the one with the algorithm pinned and \<open>exp\<close> and \<open>iat\<close> required: token, public key,
  audience, leeway, time.
\<close>

record jwt_lib =
  jl_claims :: "string \<Rightarrow> string + claims"
  jl_verify :: "string \<Rightarrow> raw_key \<Rightarrow> string \<Rightarrow> int \<Rightarrow> rat \<Rightarrow> pyjwt_error + claims"
  jl_encode :: "claims \<Rightarrow> raw_key \<Rightarrow> claims option \<Rightarrow> string"
  jl_public :: "raw_key \<Rightarrow> raw_key"
  jl_jwk :: "raw_key \<Rightarrow> claims"
  jl_sha256 :: "8 word list \<Rightarrow> 8 word list"

definition alg :: string where "alg = ''EdDSA''"

definition jwt_key_bytes :: nat where "jwt_key_bytes = 32"

section \<open>Keys\<close>

definition b64url_encode :: "8 word list \<Rightarrow> string" where
  "b64url_encode raw = encode_key raw"

definition b64url_decode :: "string \<Rightarrow> 8 word list result" where
  "b64url_decode segment =
     (if list_all (\<lambda>ch. (of_char ch :: nat) < 128) segment then
        urlsafe_b64decode (segment @ replicate (nat (- int (length segment) mod 4)) (CHR ''=''))
      else Inl (ValueError ''string argument should contain only ASCII characters''))"

definition key_of_fragment :: "string \<Rightarrow> raw_key result" where
  "key_of_fragment fragment =
     rbind (b64url_decode (str_strip fragment)) (\<lambda>raw.
       if length raw \<noteq> jwt_key_bytes then
         Inl (JWTError (''Ed25519 key must be 32 bytes, got '' @ show_nat (length raw)))
       else Inr raw)"

definition load_private :: "settings \<Rightarrow> raw_key option result" where
  "load_private cfg =
     (if cfg_jwt_signing_key cfg = [] then Inr None
      else rbind (key_of_fragment (cfg_jwt_signing_key cfg)) (\<lambda>k. Inr (Some k)))"

text \<open>One entry of the loop of \<open>_load_issuers\<close>.\<close>

definition load_issuer :: "(string, raw_key) dict \<Rightarrow> string \<Rightarrow> (string, raw_key) dict result" where
  "load_issuer keys raw_entry =
     (let entry = str_strip raw_entry in
      if entry = [] then Inr keys
      else if CHR '':'' \<notin> set entry then
        Inl (ValueError (''JWT_ISSUER_KEYS entry '' @ py_repr entry @
          '' is missing the 'iss:pubkey' separator ':'.''))
      else case str_partition (CHR '':'') entry of
          (iss, pub) \<Rightarrow> rbind (key_of_fragment pub) (\<lambda>k. Inr (dict_set (str_strip iss) k keys)))"

fun load_entries :: "(string, raw_key) dict \<Rightarrow> string list \<Rightarrow> (string, raw_key) dict result" where
  "load_entries keys [] = Inr keys"
| "load_entries keys (e # es) = rbind (load_issuer keys e) (\<lambda>keys'. load_entries keys' es)"

definition load_issuers :: "settings \<Rightarrow> (string, raw_key) dict result" where
  "load_issuers cfg = load_entries [] (str_split (CHR '','') (cfg_jwt_issuer_keys cfg))"

definition enabled_incoming :: "(string, raw_key) dict \<Rightarrow> bool" where
  "enabled_incoming issuer_keys \<longleftrightarrow> issuer_keys \<noteq> []"

definition can_sign :: "raw_key option \<Rightarrow> bool" where
  "can_sign private \<longleftrightarrow> private \<noteq> None"

section \<open>Encode and decode\<close>

definition jwt_encode ::
    "jwt_lib \<Rightarrow> settings \<Rightarrow> raw_key option \<Rightarrow> claims \<Rightarrow> raw_key option \<Rightarrow> string result" where
  "jwt_encode lib cfg private payload private_key =
     (case (case private_key of Some k \<Rightarrow> Some k | None \<Rightarrow> private) of
        None \<Rightarrow> Inl (JWTError ''no signing key configured (JWT_SIGNING_KEY)'')
      | Some key \<Rightarrow>
          Inr (jl_encode lib payload key
            (if cfg_jwt_signing_kid cfg \<noteq> [] then Some [(''kid'', JStr (cfg_jwt_signing_kid cfg))] else None)))"

definition verify_error :: "string \<Rightarrow> pyjwt_error \<Rightarrow> exn" where
  "verify_error audience e =
     JWTError (case e of
         ExpiredSignatureError \<Rightarrow> ''token expired''
       | InvalidAudienceError \<Rightarrow> ''wrong audience; expected '' @ py_repr audience
       | MissingRequiredClaimError m \<Rightarrow> ''missing claim: '' @ m
       | InvalidAlgorithmError m \<Rightarrow> ''algorithm not allowed: '' @ m
       | InvalidSignatureError \<Rightarrow> ''bad signature''
       | PyJWTError m \<Rightarrow> ''invalid token: '' @ m)"

text \<open>\<open>keys.get(iss)\<close>: only a string can be a key of the issuer map; a list or an object is not
  hashable.\<close>

definition issuer_key :: "(string, raw_key) dict \<Rightarrow> json \<Rightarrow> raw_key option result" where
  "issuer_key keys iss =
     (if \<not> hashable iss then Inl (TypeError ''unhashable type'')
      else Inr (case iss of JStr s \<Rightarrow> map_of keys s | _ \<Rightarrow> None))"

text \<open>The number an \<open>isinstance(v, (int, float))\<close> value stands for; a truth value is an integer.\<close>

definition json_num :: "json \<Rightarrow> rat option" where
  "json_num v = (case v of JInt i \<Rightarrow> Some (of_int i) | JFloat q \<Rightarrow> Some q
     | JBool b \<Rightarrow> Some (if b then 1 else 0) | _ \<Rightarrow> None)"

definition check_lifetime :: "int \<Rightarrow> claims \<Rightarrow> unit result" where
  "check_lifetime max_age claims =
     (if max_age = 0 then Inr ()
      else case (json_num (jget claims ''iat''), json_num (jget claims ''exp'')) of
          (Some issued, Some expiry) \<Rightarrow>
            if of_int max_age < expiry - issued then
              Inl (JWTError (''token lifetime exceeds max_age ('' @ show_int max_age @ ''s)''))
            else Inr ()
        | _ \<Rightarrow> Inr ())"

definition jwt_decode ::
    "jwt_lib \<Rightarrow> settings \<Rightarrow> (string, raw_key) dict \<Rightarrow> rat \<Rightarrow> string
      \<Rightarrow> (string, raw_key) dict option \<Rightarrow> string option \<Rightarrow> int option \<Rightarrow> int option \<Rightarrow> claims result" where
  "jwt_decode lib cfg loaded now token issuer_keys audience0 max_age0 leeway0 =
     (let keys = (case issuer_keys of None \<Rightarrow> loaded | Some ks \<Rightarrow> ks);
          audience = (case audience0 of None \<Rightarrow> cfg_jwt_audience cfg | Some a \<Rightarrow> a);
          max_age = (case max_age0 of None \<Rightarrow> cfg_jwt_max_age cfg | Some n \<Rightarrow> n);
          leeway = (case leeway0 of None \<Rightarrow> cfg_jwt_leeway cfg | Some n \<Rightarrow> n) in
      case jl_claims lib token of
        Inl m \<Rightarrow> Inl (JWTError (''malformed token: '' @ m))
      | Inr unverified \<Rightarrow>
          rbind (issuer_key keys (jget unverified ''iss'')) (\<lambda>found.
            case found of
              None \<Rightarrow> Inl (JWTError (''unknown issuer '' @ json_repr (jget unverified ''iss'')))
            | Some key \<Rightarrow>
                (case jl_verify lib token key audience leeway now of
                   Inl e \<Rightarrow> Inl (verify_error audience e)
                 | Inr claims \<Rightarrow> rbind (check_lifetime max_age claims) (\<lambda>_. Inr claims))))"

section \<open>Request binding\<close>

definition request_target :: "string \<Rightarrow> string \<Rightarrow> string \<Rightarrow> string \<times> string" where
  "request_target http_method path query =
     (str_upper http_method, path @ (if query \<noteq> [] then ''?'' @ query else []))"

definition body_hash :: "jwt_lib \<Rightarrow> 8 word list \<Rightarrow> string" where
  "body_hash lib raw = b64url_encode (jl_sha256 lib raw)"

definition check_binding ::
    "jwt_lib \<Rightarrow> claims \<Rightarrow> string \<Rightarrow> string \<Rightarrow> 8 word list option \<Rightarrow> bool \<Rightarrow> unit result" where
  "check_binding lib payload http_method htu body require_body =
     (if jget payload ''htm'' \<noteq> JStr http_method then
        Inl (JWTError ''htm claim does not match request method'')
      else if jget payload ''htu'' \<noteq> JStr htu then
        Inl (JWTError ''htu claim does not match request target'')
      else if require_body \<and>
          jget payload ''bh'' \<noteq> JStr (body_hash lib (case body of None \<Rightarrow> [] | Some b \<Rightarrow> b)) then
        Inl (JWTError ''bh claim does not match request body'')
      else Inr ())"

section \<open>Webhook signing and the key set\<close>

text \<open>\<open>int(x)\<close> of a float.\<close>

definition int_of_float :: "rat \<Rightarrow> int" where
  "int_of_float q = (if q < 0 then \<lceil>q\<rceil> else \<lfloor>q\<rfloor>)"

definition webhook_claims :: "jwt_lib \<Rightarrow> settings \<Rightarrow> string \<Rightarrow> 8 word list \<Rightarrow> int \<Rightarrow> claims" where
  "webhook_claims lib cfg webhook_url body issued =
     [(''iss'', JStr (cfg_jwt_issuer cfg)), (''aud'', JStr webhook_url), (''iat'', JInt issued),
      (''exp'', JInt (issued + cfg_jwt_max_age cfg)), (''htm'', JStr ''POST''), (''htu'', JStr webhook_url),
      (''bh'', JStr (body_hash lib body))]"

definition sign_webhook ::
    "jwt_lib \<Rightarrow> settings \<Rightarrow> raw_key option \<Rightarrow> string \<Rightarrow> 8 word list \<Rightarrow> rat \<Rightarrow> string option result" where
  "sign_webhook lib cfg private webhook_url body now =
     (if \<not> can_sign private then Inr None
      else rbind (jwt_encode lib cfg private (webhook_claims lib cfg webhook_url body (int_of_float now)) None)
        (\<lambda>t. Inr (Some t)))"

definition public_jwk :: "jwt_lib \<Rightarrow> settings \<Rightarrow> raw_key option \<Rightarrow> claims" where
  "public_jwk lib cfg private =
     (case private of
        None \<Rightarrow> []
      | Some k \<Rightarrow>
          (let jwk = dict_set ''alg'' (JStr alg) (dict_set ''use'' (JStr ''sig'') (jl_jwk lib (jl_public lib k))) in
           if cfg_jwt_signing_kid cfg \<noteq> [] then dict_set ''kid'' (JStr (cfg_jwt_signing_kid cfg)) jwk else jwk))"

definition jwks :: "jwt_lib \<Rightarrow> settings \<Rightarrow> raw_key option \<Rightarrow> claims" where
  "jwks lib cfg private =
     (let jwk = public_jwk lib cfg private in [(''keys'', JList (if jwk \<noteq> [] then [JObj jwk] else []))])"

section \<open>What a verified token gives\<close>

lemma check_lifetime_Inr:
  "check_lifetime max_age c = Inr () \<longleftrightarrow>
     max_age = 0 \<or>
     (case (json_num (jget c ''iat''), json_num (jget c ''exp'')) of
        (Some i, Some e) \<Rightarrow> e - i \<le> of_int max_age | _ \<Rightarrow> True)"
  by (auto simp: check_lifetime_def split: option.splits)

lemma issuer_key_Some: "issuer_key keys v = Inr (Some k) \<longleftrightarrow> (\<exists>iss. v = JStr iss \<and> map_of keys iss = Some k)"
  by (cases v) (auto simp: issuer_key_def)

text \<open>The service's own call, with every default taken from the settings.\<close>

lemma verified_Inr:
  "(case v of Inl e \<Rightarrow> Inl (h e) | Inr c' \<Rightarrow> rbind (g c') (\<lambda>_. Inr c')) = Inr c \<longleftrightarrow> v = Inr c \<and> g c = Inr ()"
  by (cases v) (auto simp: rbind_Inr_iff)

lemma jwt_decode_Inr:
  "jwt_decode lib cfg keys now tok None None None None = Inr c \<longleftrightarrow>
     (\<exists>u iss key. jl_claims lib tok = Inr u \<and> jget u ''iss'' = JStr iss \<and> map_of keys iss = Some key
        \<and> jl_verify lib tok key (cfg_jwt_audience cfg) (cfg_jwt_leeway cfg) now = Inr c
        \<and> check_lifetime (cfg_jwt_max_age cfg) c = Inr ())"
proof (cases "jl_claims lib tok")
  case (Inr u)
  show ?thesis
  proof (cases "\<exists>k. issuer_key keys (jget u ''iss'') = Inr (Some k)")
    case True
    then obtain k where k: "issuer_key keys (jget u ''iss'') = Inr (Some k)" by blast
    then obtain iss where "jget u ''iss'' = JStr iss" "map_of keys iss = Some k" by (auto simp: issuer_key_Some)
    with k Inr show ?thesis by (simp add: jwt_decode_def Let_def verified_Inr issuer_key_def)
  next
    case False
    have n: "map_of keys iss = None" if "jget u ''iss'' = JStr iss" for iss
      using False that by (cases "map_of keys iss") (auto simp: issuer_key_Some)
    show ?thesis
      using Inr False by (auto simp: jwt_decode_def Let_def rbind_Inr_iff n split: option.splits)
  qed
qed (simp add: jwt_decode_def)

lemma jwt_decode_error:
  assumes "jwt_decode lib cfg keys now tok ks aud age lee = Inl e" and "jl_claims lib tok = Inr u"
    and "hashable (jget u ''iss'')"
  shows "\<exists>m. e = JWTError m"
  using assms
  by (auto simp: jwt_decode_def Let_def rbind_Inl_iff issuer_key_def verify_error_def check_lifetime_def
      split: sum.splits option.splits if_splits)

lemma check_binding_Inr:
  "check_binding lib c http_method htu body require_body = Inr () \<longleftrightarrow>
     jget c ''htm'' = JStr http_method \<and> jget c ''htu'' = JStr htu
     \<and> (require_body \<longrightarrow> jget c ''bh'' = JStr (body_hash lib (case body of None \<Rightarrow> [] | Some b \<Rightarrow> b)))"
  by (auto simp: check_binding_def)

text \<open>The time checks of PyJWT on a token it accepts: \<open>exp\<close> and \<open>iat\<close> are read with \<open>int()\<close>.\<close>

definition pyjwt_times :: "jwt_lib \<Rightarrow> bool" where
  "pyjwt_times lib \<longleftrightarrow>
     (\<forall>tok key aud leeway now c. jl_verify lib tok key aud leeway now = Inr c \<longrightarrow>
        (\<forall>e. json_num (jget c ''exp'') = Some e \<longrightarrow> now - of_int leeway < of_int (int_of_float e))
        \<and> (\<forall>i. json_num (jget c ''iat'') = Some i \<longrightarrow> of_int (int_of_float i) \<le> now + of_int leeway))"

lemma int_of_float_bounds: "of_int (int_of_float q) < q + 1" "q - 1 < of_int (int_of_float q)"
  by (simp_all add: int_of_float_def) linarith+

lemma decoded_window:
  assumes "pyjwt_times lib" and "jwt_decode lib cfg keys now tok None None None None = Inr c"
    and "cfg_jwt_max_age cfg \<noteq> 0"
    and "json_num (jget c ''iat'') = Some i" and "json_num (jget c ''exp'') = Some e"
  shows "i - 1 < now + of_int (cfg_jwt_leeway cfg)" and "now < i + of_int (cfg_jwt_max_age cfg) + of_int (cfg_jwt_leeway cfg) + 1"
proof -
  from assms(2) obtain key where v: "jl_verify lib tok key (cfg_jwt_audience cfg) (cfg_jwt_leeway cfg) now = Inr c"
    and l: "check_lifetime (cfg_jwt_max_age cfg) c = Inr ()" by (auto simp: jwt_decode_Inr)
  from v assms(1,4,5) have t: "now - of_int (cfg_jwt_leeway cfg) < of_int (int_of_float e)"
    "of_int (int_of_float i) \<le> now + of_int (cfg_jwt_leeway cfg)" unfolding pyjwt_times_def by blast+
  from l assms(3-5) have "e - i \<le> of_int (cfg_jwt_max_age cfg)" by (simp add: check_lifetime_Inr)
  then show "i - 1 < now + of_int (cfg_jwt_leeway cfg)"
    and "now < i + of_int (cfg_jwt_max_age cfg) + of_int (cfg_jwt_leeway cfg) + 1"
    using t int_of_float_bounds [of e] int_of_float_bounds [of i] by linarith+
qed

text \<open>C35: A captured token is of use for a bounded time only. With a lifetime cap configured, the same
  token with numeric times cannot be accepted at two moments further apart than the cap plus
  twice the clock leeway (and two seconds for the rounding of fractional times), however far
  in the future its issuer put the expiry.\<close>

theorem token_replay_window_is_bounded:
  assumes "pyjwt_times lib" and "cfg_jwt_max_age cfg \<noteq> 0"
    and "jwt_decode lib cfg keys now tok None None None None = Inr c"
    and "jwt_decode lib cfg keys now' tok None None None None = Inr c"
    and "json_num (jget c ''iat'') = Some i" and "json_num (jget c ''exp'') = Some e"
  shows "now' - now < of_int (cfg_jwt_max_age cfg) + 2 * of_int (cfg_jwt_leeway cfg) + 2"
  using decoded_window(1) [OF assms(1,3,2,5,6)] decoded_window(2) [OF assms(1,4,2,5,6)] by linarith

section \<open>Honest tokens\<close>

text \<open>
  What is relied on of PyJWT for the tokens this service and its callers mint: claims of strings
  and integers come back as they went in, they verify under the public half of the signing key
  within their time window for their audience, and a token holds no white space; a SHA-256 digest has 32 bytes.
\<close>

definition plain_claims :: "claims \<Rightarrow> bool" where
  "plain_claims p \<longleftrightarrow>
     dict_ok p \<and> fst ` set p \<subseteq> {''iss'', ''aud'', ''iat'', ''exp'', ''htm'', ''htu'', ''bh''}
     \<and> snd ` set p \<subseteq> range JStr \<union> range JInt \<and> jget p ''iss'' \<in> range JStr"

definition in_window :: "claims \<Rightarrow> int \<Rightarrow> rat \<Rightarrow> bool" where
  "in_window p leeway now \<longleftrightarrow>
     (case (jget p ''iat'', jget p ''exp'') of
        (JInt i, JInt e) \<Rightarrow> of_int i \<le> now + of_int leeway \<and> now - of_int leeway < of_int e
      | _ \<Rightarrow> False)"

definition jwt_laws :: "jwt_lib \<Rightarrow> bool" where
  "jwt_laws lib \<longleftrightarrow>
     (\<forall>p k h. plain_claims p \<longrightarrow> jl_claims lib (jl_encode lib p k h) = Inr p)
     \<and> (\<forall>p k h aud leeway now. plain_claims p \<longrightarrow> jget p ''aud'' = JStr aud \<longrightarrow> in_window p leeway now \<longrightarrow>
          jl_verify lib (jl_encode lib p k h) (jl_public lib k) aud leeway now = Inr p)
     \<and> (\<forall>p k h. list_all (\<lambda>ch. \<not> is_space ch) (jl_encode lib p k h))
     \<and> (\<forall>b. length (jl_sha256 lib b) = 32)"

lemma key_of_encoding:
  assumes "length k = 32"
  shows "b64url_decode (b64url_encode k) = Inr k"
proof -
  have l: "length (encode_key k) = 43" and c: "list_all url_char (encode_key k)"
    using key_chars [of k] assms by (simp_all add: key_bytes_def)
  have "(of_char ch :: nat) < 128" if "url_char ch" for ch
    using that by (auto simp: url_char_def Let_def)
  with c have a: "list_all (\<lambda>ch. (of_char ch :: nat) < 128) (encode_key k)" by (auto simp: list_all_iff)
  have "\<forall>x\<in>set (map unat k). x < 256" by (simp add: unat_byte_less)
  from a2b_encode [OF this] a l assms show ?thesis
    by (simp add: b64url_decode_def b64url_encode_def urlsafe_b64decode_def encode_key_def url_to_std_def comp_def)
qed

lemma b64url_encode_inj:
  "length k = 32 \<Longrightarrow> length k' = 32 \<Longrightarrow> b64url_encode k = b64url_encode k' \<longleftrightarrow> k = k'"
  by (metis key_of_encoding sum.inject(2))

lemma body_hash_eq: "jwt_laws lib \<Longrightarrow> body_hash lib b = body_hash lib b' \<longleftrightarrow> jl_sha256 lib b = jl_sha256 lib b'"
  by (simp add: body_hash_def jwt_laws_def b64url_encode_inj)

section \<open>Signed webhooks\<close>

lemma webhook_claims_gets:
  "jget (webhook_claims lib cfg url body t) ''iss'' = JStr (cfg_jwt_issuer cfg)"
  "jget (webhook_claims lib cfg url body t) ''aud'' = JStr url"
  "jget (webhook_claims lib cfg url body t) ''iat'' = JInt t"
  "jget (webhook_claims lib cfg url body t) ''exp'' = JInt (t + cfg_jwt_max_age cfg)"
  "jget (webhook_claims lib cfg url body t) ''htm'' = JStr ''POST''"
  "jget (webhook_claims lib cfg url body t) ''htu'' = JStr url"
  "jget (webhook_claims lib cfg url body t) ''bh'' = JStr (body_hash lib body)"
  by (simp_all add: webhook_claims_def jget_def)

lemma plain_webhook: "plain_claims (webhook_claims lib cfg url body t)"
  by (simp add: plain_claims_def webhook_claims_gets) (simp add: webhook_claims_def dict_ok_def)

text \<open>An honest token decodes under a key map that holds its issuer's key.\<close>

lemma honest_token_decodes:
  assumes "jwt_laws lib" and "plain_claims p" and "jget p ''iss'' = JStr iss" and "map_of keys iss = Some (jl_public lib k)"
    and "jget p ''aud'' = JStr (case aud of None \<Rightarrow> cfg_jwt_audience cfg | Some a \<Rightarrow> a)"
    and "in_window p (case lee of None \<Rightarrow> cfg_jwt_leeway cfg | Some n \<Rightarrow> n) now"
    and "check_lifetime (case age of None \<Rightarrow> cfg_jwt_max_age cfg | Some n \<Rightarrow> n) p = Inr ()"
    and "keys = (case issuer_keys of None \<Rightarrow> loaded | Some ks \<Rightarrow> ks)"
  shows "jwt_decode lib cfg loaded now (jl_encode lib p k h) issuer_keys aud age lee = Inr p"
proof -
  have c: "jl_claims lib (jl_encode lib p k h) = Inr p" using assms(1,2) by (simp add: jwt_laws_def)
  have v: "jl_verify lib (jl_encode lib p k h) (jl_public lib k)
      (case aud of None \<Rightarrow> cfg_jwt_audience cfg | Some a \<Rightarrow> a)
      (case lee of None \<Rightarrow> cfg_jwt_leeway cfg | Some n \<Rightarrow> n) now = Inr p"
    using assms(1,2,5,6) unfolding jwt_laws_def by blast
  show ?thesis
    unfolding jwt_decode_def Let_def assms(8) [symmetric]
    by (simp add: c assms(3,4,7) issuer_key_def v)
qed

text \<open>C26: A signed webhook authenticates exactly its own delivery. A receiver that holds the service's
  public key accepts the token for a POST to the callback URL with a given body, at any time
  from its issue until it expires, precisely when that body has the digest of the body that was
  sent; for another method or URL it rejects it.\<close>

theorem webhook_token_authenticates_the_body:
  assumes "jwt_laws lib" and "sign_webhook lib cfg (Some k) url body t = Inr (Some tok)"
    and "of_int (int_of_float t) \<le> now" and "now < of_int (int_of_float t + cfg_jwt_max_age cfg)" and "0 \<le> leeway"
  shows "\<exists>c. jwt_decode lib receiver [] now tok (Some [(cfg_jwt_issuer cfg, jl_public lib k)])
      (Some url) (Some (cfg_jwt_max_age cfg)) (Some leeway) = Inr c
    \<and> (check_binding lib c http_method htu (Some got) True = Inr () \<longleftrightarrow>
        http_method = ''POST'' \<and> htu = url \<and> jl_sha256 lib got = jl_sha256 lib body)"
proof -
  let ?p = "webhook_claims lib cfg url body (int_of_float t)"
  obtain h where tok: "tok = jl_encode lib ?p k h"
    using assms(2) by (auto simp: sign_webhook_def can_sign_def jwt_encode_def rbind_Inr_iff)
  have "jwt_decode lib receiver [] now tok (Some [(cfg_jwt_issuer cfg, jl_public lib k)])
      (Some url) (Some (cfg_jwt_max_age cfg)) (Some leeway) = Inr ?p"
    unfolding tok
  proof (rule honest_token_decodes [OF assms(1) plain_webhook webhook_claims_gets(1)])
    show "in_window ?p (case Some leeway of None \<Rightarrow> cfg_jwt_leeway receiver | Some n \<Rightarrow> n) now"
      using assms(3-5) by (simp add: in_window_def webhook_claims_gets)
    show "check_lifetime (case Some (cfg_jwt_max_age cfg) of None \<Rightarrow> cfg_jwt_max_age receiver | Some n \<Rightarrow> n) ?p = Inr ()"
      by (simp add: check_lifetime_def webhook_claims_gets json_num_def)
  qed (simp_all add: webhook_claims_gets)
  then show ?thesis
    using body_hash_eq [OF assms(1), of body got]
    by (auto simp: check_binding_Inr webhook_claims_gets)
qed

section \<open>A concrete token library\<close>

text \<open>Tokens that carry their claims and key in clear: enough to show that the laws can hold.\<close>

instance char :: countable
  by (rule countable_classI [of "of_char :: char \<Rightarrow> nat"]) simp

instance json :: countable
  by countable_datatype

definition sample_lib :: jwt_lib where
  "sample_lib =
     \<lparr>jl_claims = (\<lambda>t. Inr (fst (from_nat (digits_val t) :: claims \<times> nat list))),
      jl_verify = (\<lambda>t key audience leeway now.
        case from_nat (digits_val t) :: claims \<times> nat list of
          (p, k) \<Rightarrow>
            if map unat key \<noteq> k then Inl InvalidSignatureError
            else if jget p ''aud'' \<noteq> JStr audience then Inl InvalidAudienceError
            else if \<not> in_window p leeway now then Inl ExpiredSignatureError
            else Inr p),
      jl_encode = (\<lambda>p k h. show_nat (to_nat (p, map unat k))),
      jl_public = (\<lambda>k. k),
      jl_jwk = (\<lambda>k. [(''kty'', JStr ''OKP'')]),
      jl_sha256 = (\<lambda>b. take 32 (b @ replicate 32 0))\<rparr>"

lemma sample_laws: "jwt_laws sample_lib"
proof -
  have "\<not> is_space ch" if "ch \<in> set (show_nat n)" for ch n
    using show_nat_digits [OF that] by (auto simp: is_digit_def is_space_def Let_def)
  then show ?thesis by (auto simp: jwt_laws_def sample_lib_def min_def list_all_iff)
qed

lemma sample_times: "pyjwt_times sample_lib"
  by (auto simp: pyjwt_times_def sample_lib_def in_window_def json_num_def int_of_float_def
      split: prod.splits if_splits json.splits)

theorem webhook_token_authenticates_the_body_witness:
  "\<exists>tok c. sign_webhook sample_lib default_settings (Some [1]) ''u'' [7] 100 = Inr (Some tok)
     \<and> jwt_decode sample_lib default_settings [] 200 tok (Some [(''file-scanner'', [1])]) (Some ''u'') (Some 300) (Some 60) = Inr c
     \<and> check_binding sample_lib c ''POST'' ''u'' (Some [7]) True = Inr ()
     \<and> check_binding sample_lib c ''POST'' ''u'' (Some [8]) True \<noteq> Inr ()"
proof -
  obtain tok where s: "sign_webhook sample_lib default_settings (Some [1]) ''u'' [7] 100 = Inr (Some tok)"
    by (simp add: sign_webhook_def can_sign_def jwt_encode_def)
  have d: "cfg_jwt_issuer default_settings = ''file-scanner''" "cfg_jwt_max_age default_settings = 300" "jl_public sample_lib [1] = [1]"
    by (simp_all add: default_settings_def sample_lib_def)
  note w = webhook_token_authenticates_the_body
    [OF sample_laws s, of 200 60 default_settings "''POST''" "''u''", unfolded d]
  have h: "jl_sha256 sample_lib [7] \<noteq> jl_sha256 sample_lib [8]" by (simp add: sample_lib_def)
  from w [of "[7]"] w [of "[8]"] s h show ?thesis
    by (auto simp: int_of_float_def)
qed

theorem token_replay_window_is_bounded_witness:
  "\<exists>tok c. jwt_decode sample_lib default_settings [(''i'', [1])] 200 tok None None None None = Inr c
     \<and> (350 :: rat) - 200 < 300 + 2 * 60 + 2"
proof -
  let ?p = "[(''iss'', JStr ''i''), (''aud'', JStr ''file-scanner''), (''iat'', JInt 100), (''exp'', JInt 400)]"
  let ?tok = "jl_encode sample_lib ?p [1] None"
  have pl: "plain_claims ?p" by (simp add: plain_claims_def dict_ok_def jget_def)
  have d: "jwt_decode sample_lib default_settings [(''i'', [1])] now ?tok None None None None = Inr ?p"
    if "100 \<le> now" "now < 400" for now
    by (rule honest_token_decodes [OF sample_laws pl, of "''i''" "[(''i'', [1])]"])
       (use that in \<open>simp_all add: jget_def default_settings_def in_window_def check_lifetime_def json_num_def sample_lib_def\<close>)
  have "(350 :: rat) - 200 < of_int (cfg_jwt_max_age default_settings) + 2 * of_int (cfg_jwt_leeway default_settings) + 2"
    by (rule token_replay_window_is_bounded [OF sample_times _ d d, of 200 350 100 400])
       (simp_all add: default_settings_def jget_def json_num_def)
  then show ?thesis using d [of 200] by (auto simp: default_settings_def)
qed

end
