(* ===== verification/Tasks.thy ===== *)
theory Tasks
  imports Backends Download Validation Results_Store Jwt_Auth
begin

text \<open>
  The background tasks of \<open>src/tasks.py\<close>: \<open>scan_task\<close> with its download, its classification of the
  failures and the report it records and enqueues, and \<open>deliver_webhook\<close>. The record \<open>env\<close> holds
  the settings and the code that is not the program's (network, store, cipher, broker), \<open>world\<close>
  the state the tasks change: the network, the store, the download directory, the queued
  callbacks, the scanner cache and the metrics.
\<close>

text \<open>The streamed response: its Content-Length header, the text of the error that
  \<open>raise_for_status\<close> raises for its status, and the body.\<close>

record stream =
  st_length :: "string option"
  st_error :: string
  st_body :: wire_body
  st_end :: "exn option"

record ('w, 'b) env =
  en_cfg :: settings
  en_net :: "('w, stream) network"
  en_backend :: "'b backend"
  en_gcm :: gcm
  en_builders :: builders
  en_send :: "string \<times> payload \<Rightarrow> unit result"

record ('w, 'b) world =
  wo_net :: 'w
  wo_store :: 'b
  wo_files :: "(string, 8 word list) dict"
  wo_outbox :: "(string \<times> payload) list"
  wo_scan :: scan_state

text \<open>The arguments of one scan message; \<open>None\<close> for the encryption parameters is the empty
  dictionary, which the code does not tell apart.\<close>

record job =
  jb_id :: string
  jb_url :: string
  jb_scanners :: "string list"
  jb_filename :: "string option"
  jb_webhook :: "string option"
  jb_metadata :: json
  jb_client :: string
  jb_encryption :: enc_params
  jb_version :: string

definition max_retries :: int where "max_retries = 2"

text \<open>The current message's retry count; \<open>None\<close> outside a worker.\<close>

definition retries_exhausted :: "int option \<Rightarrow> bool" where
  "retries_exhausted msg = (case msg of None \<Rightarrow> True | Some retries \<Rightarrow> max_retries \<le> retries)"

section \<open>Reporting\<close>

definition initial_result :: "job \<Rightarrow> payload" where
  "initial_result jb =
     [(''job_id'', JStr (jb_id jb)), (''filename'', jopt (jb_filename jb)), (''metadata'', jb_metadata jb)]"

text \<open>\<open>_finalize\<close>: the store gets the canonical record, the callback the shape of the job's
  version. Enqueueing may raise.\<close>

definition finalize ::
    "('w, 'b) env \<Rightarrow> job \<Rightarrow> payload \<Rightarrow> ('w, 'b) world \<Rightarrow> unit result \<times> ('w, 'b) world" where
  "finalize env jb result s =
     (let s1 = s\<lparr>wo_store := record_job (en_cfg env) (en_backend env) (jb_id jb) (jb_client jb) result (wo_store s)\<rparr> in
      case jb_webhook jb of
        None \<Rightarrow> (Inr (), s1)
      | Some url \<Rightarrow>
          if url = [] then (Inr (), s1)
          else let message = (url, serialize result (jb_version jb)) in
            (case en_send env message of
               Inl e \<Rightarrow> (Inl e, s1)
             | Inr _ \<Rightarrow> (Inr (), s1\<lparr>wo_outbox := wo_outbox s1 @ [message]\<rparr>)))"

definition error_result :: "job \<Rightarrow> string \<Rightarrow> string \<Rightarrow> payload" where
  "error_result jb error_kind message =
     dict_update (initial_result jb)
       [(''status'', JStr error_status), (''error_kind'', JStr error_kind), (''error'', JStr message)]"

definition report_error ::
    "('w, 'b) env \<Rightarrow> job \<Rightarrow> string \<Rightarrow> string \<Rightarrow> ('w, 'b) world \<Rightarrow> unit result \<times> ('w, 'b) world" where
  "report_error env jb error_kind message s = finalize env jb (error_result jb error_kind message) s"

definition report_result :: "job \<Rightarrow> report \<Rightarrow> bool \<Rightarrow> payload" where
  "report_result jb report transient_error =
     dict_update (dict_update (initial_result jb) (report_as_dict report))
       (if transient_error then
          [(''status'', JStr error_status), (''error_kind'', JStr ''transient''), (''error'', JStr ''all scanners failed'')]
        else [(''status'', JStr done_status)])"

definition deliver ::
    "('w, 'b) env \<Rightarrow> job \<Rightarrow> report \<Rightarrow> bool \<Rightarrow> ('w, 'b) world \<Rightarrow> unit result \<times> ('w, 'b) world" where
  "deliver env jb report transient_error s = finalize env jb (report_result jb report transient_error) s"

section \<open>The scan task\<close>

text \<open>\<open>int(declared) if declared else None\<close>, with a malformed header ignored.\<close>

definition declared_length :: "string option \<Rightarrow> int option" where
  "declared_length header = (case header of None \<Rightarrow> None | Some s \<Rightarrow> if s = [] then None else py_int s)"

definition write_body :: "('w, 'b) env \<Rightarrow> job \<Rightarrow> stream \<Rightarrow> nat result \<times> 8 word list" where
  "write_body env jb response =
     (if jb_encryption jb \<noteq> [] then
        write_decrypted (en_cfg env) (en_gcm env) (jb_encryption jb) (st_body response) (st_end response)
      else write_plaintext (en_cfg env) (st_body response) (st_end response))"

text \<open>What the response is good for before its body is read.\<close>

definition check_response :: "('w, 'b) env \<Rightarrow> job \<Rightarrow> stream web \<Rightarrow> unit result" where
  "check_response env jb r =
     (if 400 \<le> wr_status r \<and> wr_status r < 600 then Inl (RequestException (st_error (wr_data r)))
      else let cap = wire_cap (en_cfg env) (jb_encryption jb) in
        case declared_length (st_length (wr_data r)) of
          None \<Rightarrow> Inr ()
        | Some declared \<Rightarrow>
            if declared \<noteq> 0 \<and> cap < declared then
              Inl (FileError (''file_too_large: '' @ show_int declared @ '' bytes exceeds '' @ show_int cap @ '' limit''))
            else Inr ())"

text \<open>The download: its outcome, what the file then holds (\<open>None\<close> when it was not opened) and the
  network.\<close>

definition fetch_file :: "('w, 'b) env \<Rightarrow> job \<Rightarrow> 'w \<Rightarrow> unit result \<times> 8 word list option \<times> 'w" where
  "fetch_file env jb w =
     (case assert_scannable (en_cfg env) (nw_dns (en_net env)) (jb_url jb) (jb_webhook jb) w of
        (Inl e, w1) \<Rightarrow> (Inl e, None, w1)
      | (Inr _, w1) \<Rightarrow>
          (case request_with_redirects (en_cfg env) (en_net env) ''get'' True (jb_url jb) w1 of
             (Inl e, cs, w2) \<Rightarrow> (Inl e, None, w2)
           | (Inr r, cs, w2) \<Rightarrow>
               (case check_response env jb r of
                  Inl e \<Rightarrow> (Inl e, None, w2)
                | Inr _ \<Rightarrow>
                    (case write_body env jb (wr_data r) of
                       (res, content) \<Rightarrow> (rbind res (\<lambda>_. Inr ()), Some content, w2)))))"

definition open_path :: "(string, 8 word list) dict \<Rightarrow> string \<Rightarrow> 8 word list result" where
  "open_path files path =
     (case map_of files path of None \<Rightarrow> Inl (OSError ''No such file or directory'') | Some c \<Rightarrow> Inr c)"

text \<open>The body of the \<open>try\<close>; \<open>dur\<close> gives the time each scan takes.\<close>

definition scan_attempt ::
    "('w, 'b) env \<Rightarrow> job \<Rightarrow> string \<Rightarrow> (string \<Rightarrow> rat) \<Rightarrow> ('w, 'b) world \<Rightarrow> report result \<times> ('w, 'b) world" where
  "scan_attempt env jb path dur s =
     (case fetch_file env jb (wo_net s) of
        (r, content, w) \<Rightarrow>
          (let files = (case content of None \<Rightarrow> wo_files s | Some c \<Rightarrow> dict_set path c (wo_files s));
               s1 = s\<lparr>wo_net := w, wo_files := files\<rparr> in
           case r of
             Inl e \<Rightarrow> (Inl e, s1)
           | Inr _ \<Rightarrow>
               (case run_scanners (en_cfg env) (en_builders env) (jb_scanners jb) (\<lambda>_. open_path files path)
                   dur (jb_client jb) (wo_scan s1) of
                  (report, sc) \<Rightarrow> (report, s1\<lparr>wo_scan := sc\<rparr>))))"

text \<open>The \<open>except\<close> clauses, in their order.\<close>

definition on_error ::
    "('w, 'b) env \<Rightarrow> job \<Rightarrow> bool \<Rightarrow> exn \<Rightarrow> ('w, 'b) world \<Rightarrow> unit result \<times> ('w, 'b) world" where
  "on_error env jb exhausted e s =
     (case e of
        FileError m \<Rightarrow> report_error env jb ''file'' m s
      | DecryptionError m \<Rightarrow> report_error env jb ''file'' (''decryption_failed: '' @ m) s
      | SSRFValidationError m \<Rightarrow> report_error env jb ''file'' (''ssrf_blocked: '' @ m) s
      | RequestException m \<Rightarrow> report_error env jb ''transient'' (''download_failed: '' @ m) s
      | _ \<Rightarrow> if exhausted then report_error env jb ''transient'' (exn_str e) s else (Inl e, s))"

text \<open>The \<open>finally\<close> clause; the name is a fresh UUID, so no other file has it.\<close>

definition remove_file :: "string \<Rightarrow> ('w, 'b) world \<Rightarrow> ('w, 'b) world" where
  "remove_file path s = s\<lparr>wo_files := filter (\<lambda>(k, c). k \<noteq> path) (wo_files s)\<rparr>"

definition scan_task ::
    "('w, 'b) env \<Rightarrow> job \<Rightarrow> string \<Rightarrow> (string \<Rightarrow> rat) \<Rightarrow> int option \<Rightarrow> ('w, 'b) world
      \<Rightarrow> unit result \<times> ('w, 'b) world" where
  "scan_task env jb path dur msg s =
     (case scan_attempt env jb path dur s of
        (Inl e, s1) \<Rightarrow>
          (case on_error env jb (retries_exhausted msg) e s1 of (r, s2) \<Rightarrow> (r, remove_file path s2))
      | (Inr report, s1) \<Rightarrow>
          (let s2 = remove_file path s1 in
           if all_errored report then
             if \<not> retries_exhausted msg then (Inl (ScannerError ''all scanners failed transiently''), s2)
             else deliver env jb report True s2
           else deliver env jb report False s2))"

section \<open>Webhook delivery\<close>

text \<open>
  \<open>post body headers\<close> is the network with the request's body and headers, \<open>dumps\<close> the compact
  serialisation. An answer is its status, its Location header and the text of the error that
  \<open>raise_for_status\<close> raises for it.
\<close>

definition webhook_headers :: "string option \<Rightarrow> (string, string) dict" where
  "webhook_headers token =
     (''Content-Type'', ''application/json'') #
     (case token of None \<Rightarrow> [] | Some t \<Rightarrow> if t = [] then [] else [(''Authorization'', ''Bearer '' @ t)])"

definition webhook_answer :: "string web \<Rightarrow> unit result" where
  "webhook_answer r =
     (if wr_location r \<noteq> None \<and> wr_status r \<in> set redirect_status_codes then
        Inl (RequestException (''webhook returned redirect '' @ show_int (wr_status r) @ '' to '' @
          json_repr (jopt (wr_location r)) @ ''; not followed''))
      else if 400 \<le> wr_status r \<and> wr_status r < 600 then Inl (RequestException (wr_data r))
      else Inr ())"

text \<open>The webhook is dropped when its host is unsafe; every other exception is raised, and the task
  is retried.\<close>

definition webhook_outcome :: "unit result \<Rightarrow> unit result" where
  "webhook_outcome r = (case r of Inl (SSRFValidationError _) \<Rightarrow> Inr () | _ \<Rightarrow> r)"

definition deliver_webhook ::
    "settings \<Rightarrow> jwt_lib \<Rightarrow> raw_key option \<Rightarrow> (payload \<Rightarrow> 8 word list)
      \<Rightarrow> (8 word list \<Rightarrow> (string, string) dict \<Rightarrow> ('w, string) network)
      \<Rightarrow> string \<Rightarrow> payload \<Rightarrow> rat \<Rightarrow> 'w \<Rightarrow> unit result \<times> conn list \<times> 'w" where
  "deliver_webhook cfg lib private dumps post webhook_url payload now w =
     (let body = dumps payload in
      case sign_webhook lib cfg private webhook_url body now of
        Inl e \<Rightarrow> (Inl e, [], w)
      | Inr token \<Rightarrow>
          (case request_with_redirects cfg (post body (webhook_headers token)) ''post'' False webhook_url w of
             (r, cs, w') \<Rightarrow> (webhook_outcome (rbind r webhook_answer), cs, w')))"

end
