(* ===== verification/Task_Reports.thy ===== *)
theory Task_Reports
  imports Tasks
begin

text \<open>
  What the tasks promise: an attempt of \<open>scan_task\<close> either settles its job with exactly one
  terminal report or leaves store and queue alone and asks for a retry; the report says what
  happened; under the task library's retry policy (the locale \<open>retried_task\<close>) every job is
  settled; a callback is one safe POST.
\<close>

section \<open>Settling a job\<close>

definition callbacks :: "job \<Rightarrow> payload \<Rightarrow> (string \<times> payload) list" where
  "callbacks jb p =
     (case jb_webhook jb of None \<Rightarrow> [] | Some url \<Rightarrow> if url = [] then [] else [(url, serialize p (jb_version jb))])"

text \<open>A terminal record of the job: done, or an error of one of the two kinds with its text.\<close>

definition terminal :: "job \<Rightarrow> payload \<Rightarrow> bool" where
  "terminal jb p \<longleftrightarrow>
     jget p ''job_id'' = JStr (jb_id jb)
     \<and> (jget p ''status'' = JStr ''done''
        \<or> jget p ''status'' = JStr ''error'' \<and> jget p ''error_kind'' \<in> {JStr ''file'', JStr ''transient''}
          \<and> jget p ''error'' \<in> range JStr)"

definition stored :: "('w, 'b) env \<Rightarrow> job \<Rightarrow> payload \<Rightarrow> ('w, 'b) world \<Rightarrow> 'b" where
  "stored env jb p s = record_job (en_cfg env) (en_backend env) (jb_id jb) (jb_client jb) p (wo_store s)"

definition reported :: "('w, 'b) env \<Rightarrow> job \<Rightarrow> payload \<Rightarrow> ('w, 'b) world \<Rightarrow> ('w, 'b) world \<Rightarrow> bool" where
  "reported env jb p s s' \<longleftrightarrow> wo_store s' = stored env jb p s \<and> wo_outbox s' = wo_outbox s @ callbacks jb p"

lemma finalize_eq:
  "finalize env jb p s =
     (let s1 = s\<lparr>wo_store := stored env jb p s\<rparr> in
      case callbacks jb p of
        [] \<Rightarrow> (Inr (), s1)
      | m # ms \<Rightarrow> (case en_send env m of Inl e \<Rightarrow> (Inl e, s1) | Inr _ \<Rightarrow> (Inr (), s1\<lparr>wo_outbox := wo_outbox s1 @ m # ms\<rparr>)))"
  by (simp add: finalize_def callbacks_def stored_def Let_def split: option.split)

lemma finalize_fst:
  "finalize env jb p s = (Inr (), s') \<Longrightarrow> reported env jb p s s' \<and> wo_files s' = wo_files s"
  by (auto simp: finalize_eq reported_def Let_def stored_def split: list.splits sum.splits)

lemma finalize_refused:
  "finalize env jb p s = (Inl e, s') \<Longrightarrow>
     wo_store s' = stored env jb p s \<and> wo_outbox s' = wo_outbox s \<and> wo_files s' = wo_files s
     \<and> (\<exists>m\<in>set (callbacks jb p). en_send env m = Inl e)"
  by (auto simp: finalize_eq Let_def stored_def split: list.splits sum.splits)

lemma initial_result_gets:
  "jget (initial_result jb) ''job_id'' = JStr (jb_id jb)" "dict_ok (initial_result jb)"
  by (simp_all add: initial_result_def jget_def dict_ok_def)

lemma error_result_gets:
  "jget (error_result jb k m) ''job_id'' = JStr (jb_id jb)"
  "jget (error_result jb k m) ''status'' = JStr ''error''"
  "jget (error_result jb k m) ''error_kind'' = JStr k"
  "jget (error_result jb k m) ''error'' = JStr m"
  by (simp_all add: error_result_def dict_update_def initial_result_gets error_status_def)

lemma report_result_gets:
  "jget (report_result jb rep t) ''job_id'' = JStr (jb_id jb)"
  "jget (report_result jb rep t) ''status'' = JStr (if t then ''error'' else ''done'')"
  "jget (report_result jb rep t) ''verdicts'' = JObj (verdicts_json rep)"
  "t \<Longrightarrow> jget (report_result jb rep t) ''error_kind'' = JStr ''transient''"
  "t \<Longrightarrow> jget (report_result jb rep t) ''error'' = JStr ''all scanners failed''"
  by (simp_all add: report_result_def dict_update_def report_as_dict_def initial_result_gets error_status_def
      done_status_def verdicts_json_def)

lemmas result_gets = error_result_gets report_result_gets

lemma terminal_results [simp]:
  "k = ''file'' \<or> k = ''transient'' \<Longrightarrow> terminal jb (error_result jb k m)"
  "terminal jb (report_result jb rep t)"
  by (auto simp: terminal_def result_gets)

text \<open>What a caller is told of a failure that is reported at once or at the end of the retries.\<close>

definition told :: "exn \<Rightarrow> string \<times> string" where
  "told e =
     (case e of
        FileError m \<Rightarrow> (''file'', m)
      | DecryptionError m \<Rightarrow> (''file'', ''decryption_failed: '' @ m)
      | SSRFValidationError m \<Rightarrow> (''file'', ''ssrf_blocked: '' @ m)
      | RequestException m \<Rightarrow> (''transient'', ''download_failed: '' @ m)
      | _ \<Rightarrow> (''transient'', exn_str e))"

lemma told_kind: "fst (told e) = ''file'' \<or> fst (told e) = ''transient''"
  by (simp add: told_def split: exn.split)

lemma on_error_eq:
  "on_error env jb exhausted e s = report_error env jb (fst (told e)) (snd (told e)) s
   \<or> on_error env jb exhausted e s = (Inl e, s) \<and> \<not> exhausted"
  by (simp add: on_error_def told_def split: exn.split)

section \<open>One attempt\<close>

lemma filter_absent: "k \<notin> fst ` set d \<Longrightarrow> filter (\<lambda>(k', c). k' \<noteq> k) d = d"
  by (force simp: filter_id_conv)

lemma filter_dict_set: "k \<notin> fst ` set d \<Longrightarrow> filter (\<lambda>(k', c). k' \<noteq> k) (dict_set k v d) = d"
  by (induction d) (auto simp: dict_set_def filter_absent)

lemma scan_attempt_keeps:
  assumes "scan_attempt env jb path dur s = (r, s1)" and "path \<notin> fst ` set (wo_files s)"
  shows "wo_store s1 = wo_store s" and "wo_outbox s1 = wo_outbox s" and "wo_files (remove_file path s1) = wo_files s"
proof -
  obtain f content w where f: "fetch_file env jb (wo_net s) = (f, content, w)" by (metis prod_cases3)
  show "wo_store s1 = wo_store s" "wo_outbox s1 = wo_outbox s" "wo_files (remove_file path s1) = wo_files s"
    using assms f filter_absent [OF assms(2)] filter_dict_set [OF assms(2)]
    by (auto simp: scan_attempt_def remove_file_def Let_def split: sum.splits option.splits prod.splits)
qed

text \<open>What the attempt reports, when it reports.\<close>

definition verdict_on :: "job \<Rightarrow> report result \<Rightarrow> payload" where
  "verdict_on jb r =
     (case r of
        Inl e \<Rightarrow> error_result jb (fst (told e)) (snd (told e))
      | Inr rep \<Rightarrow> report_result jb rep (all_errored rep))"

lemma terminal_verdict_on: "terminal jb (verdict_on jb r)"
  using told_kind by (auto simp: verdict_on_def split: sum.split)

lemma remove_file_keeps [simp]:
  "wo_store (remove_file path s) = wo_store s" "wo_outbox (remove_file path s) = wo_outbox s"
  "wo_files (remove_file path (s\<lparr>wo_store := b\<rparr>)) = wo_files (remove_file path s)"
  by (simp_all add: remove_file_def)

lemma scan_task_cases:
  assumes "scan_task env jb path dur msg s = (r, s')" and "path \<notin> fst ` set (wo_files s)"
  obtains (retry) e where "r = Inl e" "\<not> retries_exhausted msg" "wo_store s' = wo_store s" "wo_outbox s' = wo_outbox s"
      "wo_files s' = wo_files s"
    | (settled) "r = Inr ()" "reported env jb (verdict_on jb (fst (scan_attempt env jb path dur s))) s s'"
      "wo_files s' = wo_files s"
    | (unsent) e m where "r = Inl e" "wo_store s' = stored env jb (verdict_on jb (fst (scan_attempt env jb path dur s))) s"
      "wo_outbox s' = wo_outbox s" "wo_files s' = wo_files s" "en_send env m = Inl e"
      "m \<in> set (callbacks jb (verdict_on jb (fst (scan_attempt env jb path dur s))))"
proof -
  obtain a s1 where a: "scan_attempt env jb path dur s = (a, s1)" by (cases "scan_attempt env jb path dur s")
  note keep = scan_attempt_keeps [OF a assms(2)]
  show thesis
  proof (cases "\<exists>e. r = Inl e \<and> \<not> retries_exhausted msg \<and> wo_store s' = wo_store s
      \<and> wo_outbox s' = wo_outbox s \<and> wo_files s' = wo_files s")
    case False
    let ?p = "verdict_on jb a"
    have "\<exists>s2 s3. finalize env jb ?p s2 = (r, s3) \<and> wo_store s2 = wo_store s \<and> wo_outbox s2 = wo_outbox s
        \<and> wo_store s' = wo_store s3 \<and> wo_outbox s' = wo_outbox s3
        \<and> (wo_files s3 = wo_files s2 \<longrightarrow> wo_files s' = wo_files s)"
    proof (cases a)
      case (Inl e)
      from on_error_eq [of env jb "retries_exhausted msg" e s1] show ?thesis
      proof
        assume o: "on_error env jb (retries_exhausted msg) e s1 = report_error env jb (fst (told e)) (snd (told e)) s1"
        obtain r' s3 where f: "finalize env jb ?p s1 = (r', s3)" by (cases "finalize env jb ?p s1")
        with assms(1) a o Inl have "r = r'" "s' = remove_file path s3"
          by (simp_all add: scan_task_def report_error_def verdict_on_def)
        with f keep show ?thesis by (intro exI [of _ s1] exI [of _ s3]) (auto simp: remove_file_def)
      next
        assume o: "on_error env jb (retries_exhausted msg) e s1 = (Inl e, s1) \<and> \<not> retries_exhausted msg"
        have "r = Inl e" "s' = remove_file path s1"
          using assms(1) by (simp_all add: scan_task_def a Inl conjunct1 [OF o])
        with o False keep show ?thesis by simp
      qed
    next
      case (Inr rep)
      with assms(1) a False keep have "finalize env jb ?p (remove_file path s1) = (r, s')"
        by (auto simp: scan_task_def Let_def deliver_def verdict_on_def split: if_splits)
      with keep show ?thesis by (intro exI [of _ "remove_file path s1"] exI [of _ s']) simp
    qed
    then obtain s2 s3 where f: "finalize env jb ?p s2 = (r, s3)"
      and eqs: "wo_store s2 = wo_store s" "wo_outbox s2 = wo_outbox s" "wo_store s' = wo_store s3"
        "wo_outbox s' = wo_outbox s3" "wo_files s3 = wo_files s2 \<Longrightarrow> wo_files s' = wo_files s" by blast
    show thesis
    proof (cases r)
      case (Inl e)
      note ref = finalize_refused [OF f [unfolded Inl]]
      then obtain m where "m \<in> set (callbacks jb ?p)" "en_send env m = Inl e" by blast
      with ref eqs Inl show thesis by (intro unsent [of e m]) (simp_all add: a stored_def)
    next
      case (Inr u)
      then have "r = Inr ()" by simp
      with finalize_fst [OF f [unfolded this]] eqs show thesis by (intro settled) (auto simp: a reported_def stored_def)
    qed
  qed (use retry in blast)
qed

text \<open>C17: Every run of the scan task leaves a clean slate and settles its job at most once. Whatever the
  network, the scanners and the store do, the downloaded file is gone afterwards; when the task
  returns, exactly one terminal record of the job (done, or an error of a known kind with its
  text) went to the store and, given a callback URL, to the queue; when it raises, either nothing
  was reported and a retry is due, or the broker refused the message of the recorded result.\<close>

theorem scan_task_settles_once:
  assumes "path \<notin> fst ` set (wo_files s)"
  shows "case scan_task env jb path dur msg s of (r, s') \<Rightarrow>
     wo_files s' = wo_files s
     \<and> (case r of
          Inr _ \<Rightarrow> \<exists>p. terminal jb p \<and> reported env jb p s s'
        | Inl e \<Rightarrow> wo_outbox s' = wo_outbox s
            \<and> (wo_store s' = wo_store s \<and> \<not> retries_exhausted msg
               \<or> (\<exists>p. terminal jb p \<and> wo_store s' = stored env jb p s
                    \<and> (\<exists>m\<in>set (callbacks jb p). en_send env m = Inl e))))"
proof -
  obtain r s' where t: "scan_task env jb path dur msg s = (r, s')" by (cases "scan_task env jb path dur msg s")
  show ?thesis
    by (cases rule: scan_task_cases [OF t assms]) (use terminal_verdict_on in \<open>auto simp: t\<close>)
qed

lemma fetch_file_content: "fetch_file env jb w = (Inr u, c, w') \<Longrightarrow> c \<noteq> None"
  by (auto simp: fetch_file_def split: prod.splits sum.splits)

lemma scan_attempt_fst:
  "fst (scan_attempt env jb path dur s) =
     (case fetch_file env jb (wo_net s) of
        (Inl e, _) \<Rightarrow> Inl e
      | (Inr _, None, _) \<Rightarrow> Inl (OSError [])
      | (Inr _, Some content, _) \<Rightarrow>
          fst (run_scanners (en_cfg env) (en_builders env) (jb_scanners jb) (\<lambda>_. Inr content) dur (jb_client jb) (wo_scan s)))"
proof -
  obtain f content w where f: "fetch_file env jb (wo_net s) = (f, content, w)" by (metis prod_cases3)
  show ?thesis
    using fetch_file_content [of env jb "wo_net s"] f
    by (cases f) (auto simp: scan_attempt_def Let_def open_path_def split: prod.split)
qed

text \<open>The statement of a failure in a record.\<close>

definition tells :: "payload \<Rightarrow> exn \<Rightarrow> bool" where
  "tells p e \<longleftrightarrow> jget p ''status'' = JStr ''error'' \<and> jget p ''error_kind'' = JStr (fst (told e))
     \<and> jget p ''error'' = JStr (snd (told e))"


section \<open>Retries\<close>

text \<open>
  The task library's retry policy, as documented: a message whose run raises is run again with its
  retry count increased, until the count has reached the actor's \<open>max_retries\<close>.
\<close>

function redeliver :: "(nat \<Rightarrow> 's \<Rightarrow> unit result \<times> 's) \<Rightarrow> nat \<Rightarrow> nat \<Rightarrow> 's \<Rightarrow> unit result \<times> nat \<times> 's" where
  "redeliver attempt limit n s =
     (case attempt n s of
        (Inr u, s') \<Rightarrow> (Inr u, n, s')
      | (Inl e, s') \<Rightarrow> if limit \<le> n then (Inl e, n, s') else redeliver attempt limit (Suc n) s')"
  by pat_completeness auto
termination
  by (relation "measure (\<lambda>(_, limit, n, _). limit - n)") auto

declare redeliver.simps [simp del]

text \<open>
  A task under that policy: a run that returns has settled the job from where it started, a run that
  raises has left it untouched, and the run after which there is no retry does not raise.
\<close>

locale retried_task =
  fixes attempt :: "nat \<Rightarrow> 's \<Rightarrow> unit result \<times> 's"
    and limit :: nat
    and ready :: "'s \<Rightarrow> bool"
    and same :: "'s \<Rightarrow> 's \<Rightarrow> bool"
    and settles :: "'s \<Rightarrow> 's \<Rightarrow> bool"
  assumes returns: "ready s \<Longrightarrow> attempt n s = (Inr u, s') \<Longrightarrow> settles s s'"
    and raises: "ready s \<Longrightarrow> attempt n s = (Inl e, s') \<Longrightarrow> ready s' \<and> same s s'"
    and last_returns: "ready s \<Longrightarrow> limit \<le> n \<Longrightarrow> attempt n s \<noteq> (Inl e, s')"
    and same_settles: "same s s' \<Longrightarrow> settles s' s'' \<Longrightarrow> settles s s''"
begin

lemma redeliver_settles:
  "ready s \<Longrightarrow> \<exists>k s'. redeliver attempt limit n s = (Inr (), k, s') \<and> k \<le> max n limit \<and> settles s s'"
proof (induction "limit - n" arbitrary: n s rule: less_induct)
  case less
  obtain r s1 where a: "attempt n s = (r, s1)" by (cases "attempt n s")
  show ?case
  proof (cases r)
    case (Inr u)
    then show ?thesis
      using returns [OF less.prems, of n u s1] a by (simp add: redeliver.simps [of _ _ n])
  next
    case (Inl e)
    with a last_returns [OF less.prems] have n: "n < limit" by (metis not_le)
    note s1 = raises [OF less.prems a [unfolded Inl]]
    from n have "limit - Suc n < limit - n" by simp
    from less.hyps [OF this conjunct1 [OF s1]] obtain k s2
      where "redeliver attempt limit (Suc n) s1 = (Inr (), k, s2)" "k \<le> max (Suc n) limit" "settles s1 s2"
      by blast
    then show ?thesis
      using a Inl n s1 same_settles by (auto simp: redeliver.simps [of _ _ n])
  qed
qed

end

text \<open>The scan task under the policy, with the broker taking every message. Each run has a fresh file
  name and its own scan times; the world it meets is the one the run before it left.\<close>

definition scan_run ::
    "('w, 'b) env \<Rightarrow> job \<Rightarrow> (nat \<Rightarrow> string) \<Rightarrow> (nat \<Rightarrow> string \<Rightarrow> rat) \<Rightarrow> nat \<Rightarrow> ('w, 'b) world
      \<Rightarrow> unit result \<times> ('w, 'b) world" where
  "scan_run env jb paths durs n s = scan_task env jb (paths n) (durs n) (Some (int n)) s"

definition scan_ready :: "('w, 'b) env \<Rightarrow> (nat \<Rightarrow> string) \<Rightarrow> ('w, 'b) world \<Rightarrow> bool" where
  "scan_ready env paths s \<longleftrightarrow> (\<forall>m. en_send env m = Inr ()) \<and> range paths \<inter> fst ` set (wo_files s) = {}"

definition scan_same :: "('w, 'b) world \<Rightarrow> ('w, 'b) world \<Rightarrow> bool" where
  "scan_same s s' \<longleftrightarrow> wo_store s' = wo_store s \<and> wo_outbox s' = wo_outbox s \<and> wo_files s' = wo_files s"

definition scan_settled :: "('w, 'b) env \<Rightarrow> job \<Rightarrow> ('w, 'b) world \<Rightarrow> ('w, 'b) world \<Rightarrow> bool" where
  "scan_settled env jb s s' \<longleftrightarrow> (\<exists>p. terminal jb p \<and> reported env jb p s s') \<and> wo_files s' = wo_files s"

interpretation scans: retried_task "scan_run env jb paths durs" "nat max_retries" "scan_ready env paths"
    scan_same "scan_settled env jb" for env :: "('w, 'b) env" and jb paths durs
proof unfold_locales
  fix s :: "('w, 'b) world" and n u s'
  assume r: "scan_ready env paths s"
  then have fresh: "paths n \<notin> fst ` set (wo_files s)" for n by (simp add: scan_ready_def disjoint_iff)
  {
    assume "scan_run env jb paths durs n s = (Inr u, s')"
    then show "scan_settled env jb s s'"
      by (cases rule: scan_task_cases [OF _ fresh, of env jb n "durs n" "Some (int n)" "Inr u" s'])
         (auto simp: scan_run_def scan_settled_def intro: terminal_verdict_on)
  }
  fix e
  {
    assume "scan_run env jb paths durs n s = (Inl e, s')"
    then show "scan_ready env paths s' \<and> scan_same s s'"
      by (cases rule: scan_task_cases [OF _ fresh, of env jb n "durs n" "Some (int n)" "Inl e" s'])
         (use r in \<open>auto simp: scan_run_def scan_same_def scan_ready_def\<close>)
  }
  {
    assume "nat max_retries \<le> n"
    then have "retries_exhausted (Some (int n))" by (simp add: retries_exhausted_def max_retries_def)
    then show "scan_run env jb paths durs n s \<noteq> (Inl e, s')"
      using scan_task_cases [OF _ fresh, of env jb n "durs n" "Some (int n)" "Inl e" s' False] r
      by (auto simp: scan_run_def scan_ready_def)
  }
next
  fix s s' s'' :: "('w, 'b) world"
  assume "scan_same s s'" "scan_settled env jb s' s''"
  then show "scan_settled env jb s s''"
    by (auto simp: scan_same_def scan_settled_def reported_def stored_def)
qed


section \<open>Callbacks\<close>

lemma hops_unfollowed:
  "hops cfg nw http_method False (Suc n) url w =
     (case pin cfg (nw_dns nw) http_method url w of
        (Inl e, w1) \<Rightarrow> (Inl e, [], w1)
      | (Inr c, w1) \<Rightarrow> (case nw_http nw c w1 of (r, w2) \<Rightarrow> (r, [c], w2)))"
  by (auto simp: next_hop_def split: prod.split sum.split)

lemma pin_method: "pin cfg dns http_method url w = (Inr c, w') \<Longrightarrow> cn_method c = http_method"
  by (auto simp: pin_def pinned_conn_def rbind_Inr_iff split: prod.splits)

lemma unfollowed_request:
  assumes "request_with_redirects cfg nw http_method False url w = (r, cs, w')"
  shows "length cs \<le> 1" and "list_all (\<lambda>c. cn_method c = http_method \<and> safe_conn cfg (nw_dns nw) c) cs"
proof -
  have h: "hops cfg nw http_method False (Suc 5) url w = (r, cs, w')"
    using assms by (simp add: request_with_redirects_def max_redirects_def)
  from h have "cs = [] \<or> (\<exists>c w1. cs = [c] \<and> pin cfg (nw_dns nw) http_method url w = (Inr c, w1))"
    unfolding hops_unfollowed by (auto split: prod.splits sum.splits)
  moreover have "list_all (safe_conn cfg (nw_dns nw)) cs"
    using hops_trail [OF h] by (simp add: trail_ok_def)
  ultimately show "length cs \<le> 1" "list_all (\<lambda>c. cn_method c = http_method \<and> safe_conn cfg (nw_dns nw) c) cs"
    using pin_method by fastforce+
qed

lemma sign_webhook_total: "\<exists>token. sign_webhook lib cfg private url body now = Inr token"
  by (cases "private") (auto simp: sign_webhook_def can_sign_def jwt_encode_def)

text \<open>C34: A callback is one POST that follows no redirect, made to a validated address with the signed
  headers, and its outcome is decided by the answer: the task returns without a retry precisely
  when the status is no client or server error and the answer is not a redirect with a
  Location (a redirect status without that header counts as delivered), or when the address
  is unsafe; any other failure is raised for a retry.\<close>

theorem callback_is_one_safe_post:
  "\<exists>token. sign_webhook lib cfg private url (dumps payload) now = Inr token \<and>
     (let nw = post (dumps payload) (webhook_headers token) in
      case deliver_webhook cfg lib private dumps post url payload now w of
        (r, cs, w') \<Rightarrow>
          length cs \<le> 1 \<and> list_all (\<lambda>c. cn_method c = ''post'' \<and> safe_conn cfg (nw_dns nw) c) cs
          \<and> (case fst (request_with_redirects cfg nw ''post'' False url w) of
               Inl (SSRFValidationError m) \<Rightarrow> r = Inr ()
             | Inl e \<Rightarrow> r = Inl e
             | Inr a \<Rightarrow> r = Inr () \<longleftrightarrow> (wr_status a < 400 \<or> 600 \<le> wr_status a)
                 \<and> \<not> (wr_location a \<noteq> None \<and> wr_status a \<in> {301, 302, 303, 307, 308})))"
proof -
  obtain token where t: "sign_webhook lib cfg private url (dumps payload) now = Inr token"
    using sign_webhook_total by blast
  let ?nw = "post (dumps payload) (webhook_headers token)"
  obtain r cs w' where q: "request_with_redirects cfg ?nw ''post'' False url w = (r, cs, w')"
    by (metis prod_cases3)
  note u = unfollowed_request [OF q]
  show ?thesis
  proof (intro exI [of _ token] conjI)
    show "let nw = ?nw in
      case deliver_webhook cfg lib private dumps post url payload now w of
        (r, cs, w') \<Rightarrow>
          length cs \<le> 1 \<and> list_all (\<lambda>c. cn_method c = ''post'' \<and> safe_conn cfg (nw_dns nw) c) cs
          \<and> (case fst (request_with_redirects cfg nw ''post'' False url w) of
               Inl (SSRFValidationError m) \<Rightarrow> r = Inr ()
             | Inl e \<Rightarrow> r = Inl e
             | Inr a \<Rightarrow> r = Inr () \<longleftrightarrow> (wr_status a < 400 \<or> 600 \<le> wr_status a)
                 \<and> \<not> (wr_location a \<noteq> None \<and> wr_status a \<in> {301, 302, 303, 307, 308}))"
      using u by (cases r) (auto simp: deliver_webhook_def t q webhook_outcome_def webhook_answer_def
        redirect_status_codes_def split: exn.split)
  qed (rule t)
qed

text \<open>A run whose attempt has a deciding report returns.\<close>

lemma done_returns:
  assumes "fst (scan_attempt env jb path dur s) = Inr rep" and "\<not> all_errored rep" and "\<forall>m. en_send env m = Inr ()"
  shows "\<exists>w. scan_task env jb path dur msg s = (Inr (), w)"
proof -
  obtain s1 where "scan_attempt env jb path dur s = (Inr rep, s1)" using assms(1) by (metis prod.collapse)
  with assms(2,3) show ?thesis
    by (cases "jb_webhook jb") (simp_all add: scan_task_def deliver_def finalize_def Let_def)
qed

section \<open>A concrete deployment\<close>

definition sample_stream :: stream where
  "sample_stream = \<lparr>st_length = Some ''1'', st_error = [], st_body = [([0x50], 1)], st_end = None\<rparr>"

definition sample_net :: "(unit, stream) network" where
  "sample_net = answering \<lparr>wr_status = 200, wr_location = None, wr_data = sample_stream\<rparr>"

definition sample_env :: "(unit, (key_msg \<times> json) list) env" where
  "sample_env = \<lparr>en_cfg = store_cfg, en_net = sample_net, en_backend = list_backend, en_gcm = (\<lambda>k i b a. None),
     en_builders = sample_builders, en_send = (\<lambda>m. Inr ())\<rparr>"

definition sample_job :: job where
  "sample_job = \<lparr>jb_id = ''j1'', jb_url = ''https://drive.example/f'', jb_scanners = [''clamav''], jb_filename = None,
     jb_webhook = Some ''https://drive.example/hook'', jb_metadata = JNull, jb_client = ''drive'', jb_encryption = [], jb_version = v2\<rparr>"

definition sample_world :: "(unit, (key_msg \<times> json) list) world" where
  "sample_world = \<lparr>wo_net = (), wo_store = [], wo_files = [], wo_outbox = [], wo_scan = ([], initial_metrics)\<rparr>"

lemma sample_world_files [simp]: "wo_files sample_world = []"
  by (simp add: sample_world_def)

text \<open>What a download from the concrete host gives, when the response is admitted.\<close>

lemma drive_fetch:
  assumes "en_net env = answering \<lparr>wr_status = 200, wr_location = None, wr_data = st\<rparr>"
    and "jb_url jb \<in> set drive_urls" and "jb_webhook jb = None \<or> (\<exists>h\<in>set drive_urls. jb_webhook jb = Some h)"
    and "cfg_allowed_url_hosts (en_cfg env) = []"
    and "check_response env jb \<lparr>wr_status = 200, wr_location = None, wr_data = st\<rparr> = Inr ()"
  shows "fetch_file env jb () = (case write_body env jb st of (res, content) \<Rightarrow> (rbind res (\<lambda>_. Inr ()), Some content, ()))"
proof -
  have d: "nw_dns (en_net env) = sample_dns" by (simp add: assms(1) answering_def)
  obtain c where "request_with_redirects (en_cfg env) (en_net env) ''get'' True (jb_url jb) () =
      (Inr \<lparr>wr_status = 200, wr_location = None, wr_data = st\<rparr>, [c], ())"
    using drive_request [OF assms(2), where r = "\<lparr>wr_status = 200, wr_location = None, wr_data = st\<rparr>"
      and cfg = "en_cfg env" and http_method = "''get''" and follow = True and w = "()"]
    unfolding assms(1) by auto
  then show ?thesis using assms(5) drive_scannable [OF assms(2-4), of "()"] by (simp add: fetch_file_def d)
qed

lemma sample_declared: "declared_length (Some ''1'') = Some 1"
  by code_simp

lemma sample_response:
  "1 \<le> wire_cap (en_cfg env) (jb_encryption jb) \<Longrightarrow>
     check_response env jb \<lparr>wr_status = 200, wr_location = None, wr_data = sample_stream\<rparr> = Inr ()"
  by (simp add: check_response_def sample_stream_def sample_declared Let_def)

lemma sample_fetches:
  assumes "en_net env = sample_net" and "jb_url jb \<in> set drive_urls"
    and "jb_webhook jb = None \<or> (\<exists>h\<in>set drive_urls. jb_webhook jb = Some h)" and "jb_encryption jb = []"
    and "cfg_allowed_url_hosts (en_cfg env) = []" "1 \<le> cfg_max_url_size (en_cfg env)" "1 \<le> cfg_download_max_seconds (en_cfg env)"
  shows "fetch_file env jb () = (Inr (), Some [0x50], ())"
proof -
  have "1 \<le> wire_cap (en_cfg env) (jb_encryption jb)" using assms(4,6) by (simp add: wire_cap_def)
  moreover have "write_body env jb sample_stream = (Inr 1, [0x50])"
    using assms(4,6,7) by (simp add: write_body_def sample_stream_def write_plaintext_def check_limits_def at_end_def)
  ultimately show ?thesis
    using drive_fetch [OF assms(1) [unfolded sample_net_def] assms(2,3,5) sample_response] by simp
qed

lemma sample_fetch: "fetch_file sample_env sample_job (wo_net sample_world) = (Inr (), Some [0x50], ())"
proof -
  have "fetch_file sample_env sample_job () = (Inr (), Some [0x50], ())"
    by (rule sample_fetches) (simp_all add: sample_env_def sample_job_def drive_urls_def store_cfg_def default_settings_def)
  then show ?thesis by (simp add: sample_world_def)
qed

lemma sample_scan:
  "map_option all_errored
     (case fst (run_scanners (en_cfg sample_env) (en_builders sample_env) (jb_scanners sample_job) (\<lambda>_. Inr [0x50]) (\<lambda>_. 1)
       (jb_client sample_job) (wo_scan sample_world)) of Inl _ \<Rightarrow> None | Inr rs \<Rightarrow> Some rs)
   = Some False"
  by code_simp

theorem scan_task_settles_once_witness:
  "wo_files (snd (scan_task sample_env sample_job ''p'' (\<lambda>_. 1) (Some 0) sample_world)) = []"
  using scan_task_settles_once [where path = "''p''" and s = sample_world and env = sample_env and jb = sample_job
    and dur = "\<lambda>_. 1" and msg = "Some 0"]
  by (auto split: prod.splits)



end
