(* ===== verification/Deploy_Scripts.thy ===== *)
theory Deploy_Scripts
  imports Jwt_Auth
begin

text \<open>
  The operator's helpers of \<open>deploy/scripts\<close>: \<open>new-issuer.py\<close>, which makes a key pair and prints the
  fragment for \<open>JWT_ISSUER_KEYS\<close>, and \<open>mint-token.py\<close>, which signs a request-bound token. A run gives
  the exit code and the lines of standard output; the generated key, the clock and the file
  system are arguments.
\<close>

text \<open>Two helpers of the scripts: the unpadded encoding and the printed form of a fresh key.\<close>

definition issuer_b64url :: "8 word list \<Rightarrow> string" where
  "issuer_b64url raw = encode_key raw"

definition signing_key_lines :: "raw_key \<Rightarrow> string list" where
  "signing_key_lines seed =
     [''This service's webhook-signing key (JWT_SIGNING_KEY)'', '''',
      ''  1. Set on this service (keep it secret; nothing else needs it):'',
      ''       JWT_SIGNING_KEY='' @ issuer_b64url seed,
      ''       JWT_SIGNING_KID=<stable label, e.g. 2026-09>'', '''',
      ''  2. The public half is derived at boot and served at'',
      ''     /.well-known/jwks.json '' @ [CHR 0xE2, CHR 0x80, CHR 0x94] @ '' receivers verify webhooks against it.'']"

definition issuer_lines :: "jwt_lib \<Rightarrow> string \<Rightarrow> raw_key \<Rightarrow> string list" where
  "issuer_lines lib iss key =
     [''New JWT issuer '' @ [CHR 34] @ iss @ [CHR 34], '''',
      ''  1. Caller's PRIVATE key (send securely; they sign tokens with it):'',
      ''       '' @ issuer_b64url key, '''',
      ''  2. Add to this service's JWT_ISSUER_KEYS (comma-separate if not first):'',
      ''       '' @ iss @ '':'' @ issuer_b64url (jl_public lib key)]"

definition new_issuer :: "jwt_lib \<Rightarrow> raw_key \<Rightarrow> string list \<Rightarrow> nat \<times> string list" where
  "new_issuer lib generated argv =
     (if length argv = 2 \<and> argv ! 1 = ''--signing-key'' then (0, signing_key_lines generated)
      else if length argv \<noteq> 2 \<or> str_strip (argv ! 1) = [] \<or> starts_with ''-'' (argv ! 1) then (2, [])
      else let iss = str_strip (argv ! 1) in
        if CHR '':'' \<in> set iss \<or> CHR '','' \<in> set iss then (2, [])
        else (0, issuer_lines lib iss generated))"

section \<open>Minting a token\<close>

definition mint_audience :: string where "mint_audience = ''file-scanner''"

definition ttl_seconds :: int where "ttl_seconds = 300"

definition mint_claims :: "string \<Rightarrow> string \<Rightarrow> string \<Rightarrow> int \<Rightarrow> string option \<Rightarrow> claims" where
  "mint_claims iss http_method htu now digest =
     [(''iss'', JStr iss), (''aud'', JStr mint_audience), (''iat'', JInt now), (''exp'', JInt (now + ttl_seconds)),
      (''htm'', JStr (str_upper http_method)), (''htu'', JStr htu)]
     @ (case digest of None \<Rightarrow> [] | Some d \<Rightarrow> [(''bh'', JStr d)])"

definition read_private :: "string \<Rightarrow> raw_key result" where
  "read_private private_key =
     rbind (if list_all (\<lambda>ch. (of_char ch :: nat) < 128) private_key then urlsafe_b64decode (private_key @ ''=='')
            else Inl (ValueError ''string argument should contain only ASCII characters''))
       (\<lambda>raw. if length raw = 32 then Inr raw else Inl (ValueError ''An Ed25519 private key is 32 bytes long''))"

definition mint_token ::
    "jwt_lib \<Rightarrow> (string \<Rightarrow> 8 word list result) \<Rightarrow> rat \<Rightarrow> string list \<Rightarrow> (nat \<times> string list) result" where
  "mint_token lib read_file now argv =
     (if length argv \<noteq> 5 \<and> length argv \<noteq> 6 then Inr (2, [])
      else rbind (read_private (argv ! 1)) (\<lambda>key.
        rbind (if length argv = 6 then
                 rbind (read_file (argv ! 5)) (\<lambda>raw. Inr (Some (encode_key (jl_sha256 lib raw))))
               else Inr None) (\<lambda>digest.
          Inr (0, [jl_encode lib (mint_claims (argv ! 2) (argv ! 3) (argv ! 4) (int_of_float now) digest) key None]))))"

section \<open>The printed fragment is what the service reads\<close>

lemma str_strip_id: "s = [] \<or> \<not> is_space (hd s) \<and> \<not> is_space (last s) \<Longrightarrow> str_strip s = s"
proof (cases "s = []")
  case False
  moreover assume "s = [] \<or> \<not> is_space (hd s) \<and> \<not> is_space (last s)"
  ultimately have "dropWhile is_space s = s" "dropWhile is_space (rev s) = rev s"
    by (cases s, simp_all) (cases s rule: rev_cases, simp_all)
  then show ?thesis by (simp add: str_strip_def)
qed (simp add: str_strip_def)

lemma str_partition_app: "c \<notin> set s \<Longrightarrow> str_partition c (s @ c # t) = (s, t)"
  unfolding str_partition_def by (induction s) auto

lemma hd_dropWhile_space: "dropWhile is_space s \<noteq> [] \<Longrightarrow> \<not> is_space (hd (dropWhile is_space s))"
  by (rule hd_dropWhile)

lemma str_strip_ends:
  assumes "str_strip s \<noteq> []"
  shows "\<not> is_space (hd (str_strip s))" and "\<not> is_space (last (str_strip s))"
proof -
  let ?t = "dropWhile is_space s"
  have ne: "dropWhile is_space (rev ?t) \<noteq> []" using assms by (simp add: str_strip_def)
  then show "\<not> is_space (last (str_strip s))"
    using hd_dropWhile_space by (simp add: str_strip_def last_rev)
  obtain u where u: "?t = str_strip s @ u"
    unfolding str_strip_def by (metis rev_append rev_rev_ident takeWhile_dropWhile_id)
  then have "?t \<noteq> []" "hd ?t = hd (str_strip s)" using assms by auto
  then show "\<not> is_space (hd (str_strip s))" using hd_dropWhile_space by metis
qed

lemma strip_padded:
  assumes "list_all is_space p" and "s \<noteq> []" and "\<not> is_space (hd s)" and "\<not> is_space (last s)"
  shows "str_strip (p @ s) = s"
proof -
  have "dropWhile is_space (p @ s) = s"
    using assms(1-3) by (cases s) (simp_all add: dropWhile_append2 list_all_iff)
  then have "str_strip (p @ s) = str_strip s" using assms(2,3) by (cases s) (simp_all add: str_strip_def)
  then show ?thesis using assms str_strip_id by auto
qed

lemma str_split_join:
  assumes "\<forall>s\<in>set ss. c \<notin> set s" and "ss \<noteq> []"
  shows "str_split c (join_with [c] ss) = ss"
proof -
  have one: "str_split c s = [s]" if "c \<notin> set s" for s using that by (induction s) auto
  have two: "str_split c (s @ c # t) = s # str_split c t" if "c \<notin> set s" for s t
    using that by (induction s) auto
  show ?thesis using assms by (induction "[c]" ss rule: join_with.induct) (auto simp: one two)
qed

lemma url_char_plain: "url_char ch \<Longrightarrow> \<not> is_space ch \<and> ch \<noteq> CHR '':'' \<and> ch \<noteq> CHR '',''"
  by (auto simp: url_char_def is_space_def Let_def)

lemma load_issuer_line:
  assumes n: "str_strip iss = iss" "iss \<noteq> []" "CHR '':'' \<notin> set iss" and k: "length k = 32" and p: "list_all is_space p"
  shows "load_issuer keys (p @ iss @ '':'' @ encode_key k) = Inr (dict_set iss k keys)"
proof -
  have c: "length (encode_key k) = 43" "list_all url_char (encode_key k)"
    using key_chars [of k] k by (simp_all add: key_bytes_def)
  then have ne: "encode_key k \<noteq> []" by auto
  have sp: "\<not> is_space ch" if "ch \<in> set (encode_key k)" for ch
    using c(2) that url_char_plain by (auto simp: list_all_iff)
  have "\<not> is_space (hd iss)" using str_strip_ends(1) [of iss, unfolded n(1), OF n(2)] .
  then have "\<not> is_space (hd (iss @ '':'' @ encode_key k))" using n(2) by (cases iss) simp_all
  moreover have "\<not> is_space (last (iss @ '':'' @ encode_key k))" using ne sp last_in_set [OF ne] by simp
  ultimately have e: "str_strip (p @ iss @ '':'' @ encode_key k) = iss @ '':'' @ encode_key k"
    using strip_padded [OF p, of "iss @ '':'' @ encode_key k"] n(2) by simp
  have pt: "str_partition (CHR '':'') (iss @ '':'' @ encode_key k) = (iss, encode_key k)"
    using str_partition_app [OF n(3)] by simp
  have "str_strip (encode_key k) = encode_key k"
    using ne sp by (intro str_strip_id) (simp add: hd_in_set last_in_set)
  then have "key_of_fragment (encode_key k) = Inr k"
    using key_of_encoding [OF k] k by (simp add: key_of_fragment_def b64url_encode_def jwt_key_bytes_def)
  then show ?thesis using n(2) by (simp add: load_issuer_def e [simplified] pt [simplified] n(1) Let_def)
qed

text \<open>What one run of \<open>new-issuer.py\<close> for a name gives.\<close>

lemma new_issuer_line:
  assumes "new_issuer lib k [prog, name] = (0, lines)" and "name \<noteq> ''--signing-key''"
  shows "last lines = replicate 7 (CHR '' '') @ str_strip name @ '':'' @ encode_key (jl_public lib k)"
    and "str_strip name \<noteq> []" and "CHR '':'' \<notin> set (str_strip name)" and "CHR '','' \<notin> set (str_strip name)"
  using assms by (auto simp: new_issuer_def issuer_lines_def issuer_b64url_def Let_def numeral_eq_Suc split: if_splits)

lemma encode_key_no_comma: "CHR '','' \<notin> set (encode_key k)"
proof -
  have "\<forall>x\<in>set (map unat k). x < 256" by (simp add: unat_byte_less)
  then show ?thesis
    using b64_encode_sextets [of "map unat k"] url_char_b64 url_char_plain by (fastforce simp: encode_key_def list_all_iff)
qed

definition printed :: "jwt_lib \<Rightarrow> raw_key \<times> string \<Rightarrow> string \<Rightarrow> bool" where
  "printed lib = (\<lambda>(k, name) fragment. name \<noteq> ''--signing-key'' \<and>
     (\<exists>lines. new_issuer lib k [''new-issuer.py'', name] = (0, lines) \<and> fragment = last lines))"

lemma load_printed:
  assumes "list_all2 (printed lib) issuers fragments" and "\<forall>k. length (jl_public lib k) = 32"
  shows "load_entries keys fragments = Inr (foldl (\<lambda>d (k, name). dict_set (str_strip name) (jl_public lib k) d) keys issuers)"
  using assms(1)
proof (induction arbitrary: keys rule: list_all2_induct)
  case (Cons x issuers f fragments)
  obtain k name where x: "x = (k, name)" by (cases x)
  from Cons.hyps(1) obtain lines where "new_issuer lib k [''new-issuer.py'', name] = (0, lines)" "f = last lines" "name \<noteq> ''--signing-key''"
    by (auto simp: printed_def x)
  note l = new_issuer_line [OF this(1,3)] this(2)
  have "str_strip (str_strip name) = str_strip name" using str_strip_ends [OF l(2)] str_strip_id by blast
  from load_issuer_line [OF this l(2,3), of "jl_public lib k" "replicate 7 (CHR '' '')" keys] assms(2) l(1,5)
  have "load_issuer keys f = Inr (dict_set (str_strip name) (jl_public lib k) keys)"
    by (simp add: is_space_def list_all_iff)
  with Cons.IH show ?case by (simp add: x)
qed simp

text \<open>C38: What the operator pastes is what the service trusts. The fragments that runs of \<open>new-issuer.py\<close>
  print for some callers, joined with commas into \<open>JWT_ISSUER_KEYS\<close>, load as the map from exactly
  the callers' names to exactly their public keys, a later one of the same name replacing the
  earlier.\<close>

theorem printed_issuers_load:
  assumes "list_all2 (printed lib) issuers fragments" and "\<forall>k. length (jl_public lib k) = 32"
  shows "load_issuers (cfg\<lparr>cfg_jwt_issuer_keys := join_with '','' fragments\<rparr>)
    = Inr (foldl (\<lambda>d (k, name). dict_set (str_strip name) (jl_public lib k) d) [] issuers)"
proof (cases "fragments = []")
  case True
  then show ?thesis using assms(1) by (simp add: load_issuers_def load_issuer_def str_strip_def)
next
  case False
  have "CHR '','' \<notin> set f" if "f \<in> set fragments" for f
  proof -
    from assms(1) that obtain k name where "printed lib (k, name) f"
      by (metis in_set_conv_nth list_all2_conv_all_nth prod.collapse)
    then obtain lines where "new_issuer lib k [''new-issuer.py'', name] = (0, lines)" "f = last lines" "name \<noteq> ''--signing-key''"
      by (auto simp: printed_def)
    note l = new_issuer_line [OF this(1,3)] this(2)
    show ?thesis using l encode_key_no_comma by simp
  qed
  with False have "str_split (CHR '','') (join_with '','' fragments) = fragments" by (intro str_split_join) auto
  then show ?thesis using load_printed [OF assms] by (simp add: load_issuers_def)
qed

theorem printed_issuers_load_witness:
  "load_issuers (default_settings\<lparr>cfg_jwt_issuer_keys := last (snd (new_issuer
       (sample_lib\<lparr>jl_public := (\<lambda>k. replicate 32 7)\<rparr>) [1] [''new-issuer.py'', '' drive '']))\<rparr>)
   = Inr [(''drive'', replicate 32 7)]"
proof -
  let ?lib = "sample_lib\<lparr>jl_public := (\<lambda>k. replicate 32 7)\<rparr>"
  let ?run = "new_issuer ?lib [1] [''new-issuer.py'', '' drive '']"
  have st: "str_strip '' drive '' = ''drive''" by (simp add: str_strip_def is_space_def)
  then have "fst ?run = 0" by (simp add: new_issuer_def starts_with_def Let_def)
  then have "list_all2 (printed ?lib) [([1], '' drive '')] [last (snd ?run)]"
    by (cases ?run) (simp add: printed_def)
  from printed_issuers_load [OF this, of default_settings] st show ?thesis by (simp add: dict_set_def)
qed

end
