(* ===== verification/Api_Auth.thy ===== *)
theory Api_Auth
  imports Deploy_Scripts
begin

text \<open>
  Authentication of a request (\<open>_authenticate\<close> in \<open>src/app.py\<close>): the size guard on a body that will
  be hashed, the bearer token, its verification and its binding to the request. The round trip
  with \<open>mint-token.py\<close> closes the loop from a caller's private key to the identity the service
  uses.
\<close>

text \<open>The parts of a request the code reads.\<close>

record request =
  rq_method :: string
  rq_path :: string
  rq_query :: string
  rq_content_length :: "string option"
  rq_authorization :: "string option"
  rq_body :: "8 word list"

definition json_max_body_size :: nat where "json_max_body_size = 64 * 1024"

definition declared_too_large :: "request \<Rightarrow> bool" where
  "declared_too_large rq \<longleftrightarrow>
     (case rq_content_length rq of
        None \<Rightarrow> False
      | Some cl \<Rightarrow> cl \<noteq> [] \<and> list_all is_digit cl \<and> json_max_body_size < digits_val cl)"

definition bearer :: "request \<Rightarrow> string result" where
  "bearer rq =
     (let authz = (case rq_authorization rq of None \<Rightarrow> [] | Some a \<Rightarrow> a) in
      if \<not> starts_with ''Bearer '' authz then Inl (HTTPException 401 ''Missing bearer token'')
      else Inr (str_strip (drop 7 authz)))"

definition bound_body :: "request \<Rightarrow> bool \<Rightarrow> 8 word list option result" where
  "bound_body rq bind_body =
     (if \<not> bind_body then Inr None
      else if json_max_body_size < length (rq_body rq) then Inl (HTTPException 413 ''Request body too large'')
      else Inr (Some (rq_body rq)))"

definition jwt_401 :: "'a result \<Rightarrow> 'a result" where
  "jwt_401 r = (case r of Inl (JWTError m) \<Rightarrow> Inl (HTTPException 401 (''Invalid token: '' @ m)) | _ \<Rightarrow> r)"

definition authenticate ::
    "jwt_lib \<Rightarrow> settings \<Rightarrow> (string, raw_key) dict \<Rightarrow> rat \<Rightarrow> request \<Rightarrow> bool \<Rightarrow> string result" where
  "authenticate lib cfg issuer_keys now rq bind_body =
     (if bind_body \<and> declared_too_large rq then Inl (HTTPException 413 ''Request body too large'')
      else rbind (bearer rq) (\<lambda>token.
        rbind (jwt_401 (rbind (jwt_decode lib cfg issuer_keys now token None None None None) (\<lambda>payload.
          case request_target (rq_method rq) (rq_path rq) (rq_query rq) of
            (http_method, htu) \<Rightarrow>
              rbind (bound_body rq bind_body) (\<lambda>body.
              rbind (check_binding lib payload http_method htu body bind_body) (\<lambda>_. Inr payload)))))
        (\<lambda>payload. rbind (item payload ''iss'') (\<lambda>iss. Inr (json_str iss)))))"

definition auth_sync ::
    "jwt_lib \<Rightarrow> settings \<Rightarrow> (string, raw_key) dict \<Rightarrow> rat \<Rightarrow> request \<Rightarrow> string result" where
  "auth_sync lib cfg issuer_keys now rq = authenticate lib cfg issuer_keys now rq False"

definition auth_async ::
    "jwt_lib \<Rightarrow> settings \<Rightarrow> (string, raw_key) dict \<Rightarrow> rat \<Rightarrow> request \<Rightarrow> string result" where
  "auth_async lib cfg issuer_keys now rq = authenticate lib cfg issuer_keys now rq True"

section \<open>What an accepted request proves\<close>

lemma jwt_401_Inr [simp]: "jwt_401 r = Inr x \<longleftrightarrow> r = Inr x"
  by (auto simp: jwt_401_def split: sum.splits exn.splits)

lemma bound_body_Inr:
  "bound_body rq b = Inr body \<longleftrightarrow> body = (if b then Some (rq_body rq) else None) \<and> (b \<longrightarrow> length (rq_body rq) \<le> json_max_body_size)"
  by (auto simp: bound_body_def)

text \<open>The request a token speaks for.\<close>

definition bound_to :: "jwt_lib \<Rightarrow> claims \<Rightarrow> request \<Rightarrow> bool \<Rightarrow> bool" where
  "bound_to lib c rq bind_body \<longleftrightarrow>
     jget c ''htm'' = JStr (str_upper (rq_method rq))
     \<and> jget c ''htu'' = JStr (rq_path rq @ (if rq_query rq \<noteq> [] then ''?'' @ rq_query rq else []))
     \<and> (if bind_body then length (rq_body rq) \<le> json_max_body_size \<and> jget c ''bh'' = JStr (body_hash lib (rq_body rq)) else True)"

lemma bound_payload:
  "rbind (bound_body rq b) (\<lambda>body. rbind (check_binding lib c (str_upper (rq_method rq))
      (rq_path rq @ (if rq_query rq \<noteq> [] then ''?'' @ rq_query rq else [])) body b) (\<lambda>_. Inr c)) = Inr p
    \<longleftrightarrow> bound_to lib c rq b \<and> p = c"
  by (cases b) (auto simp: rbind_Inr_iff bound_body_Inr check_binding_Inr bound_to_def)

lemma authenticate_Inr:
  "authenticate lib cfg keys now rq b = Inr client \<longleftrightarrow>
     \<not> (b \<and> declared_too_large rq)
     \<and> (\<exists>token c iss. bearer rq = Inr token \<and> jwt_decode lib cfg keys now token None None None None = Inr c
          \<and> bound_to lib c rq b \<and> map_of c ''iss'' = Some iss \<and> client = json_str iss)"
proof (cases "b \<and> declared_too_large rq")
  case False
  show ?thesis
  proof (cases "bearer rq")
    case t: (Inr token)
    show ?thesis
    proof (cases "jwt_decode lib cfg keys now token None None None None")
      case d: (Inr c)
      have "rbind (item p ''iss'') (\<lambda>iss. Inr (json_str iss)) = Inr client
          \<longleftrightarrow> (\<exists>iss. map_of p ''iss'' = Some iss \<and> client = json_str iss)" for p
        by (auto simp: item_def rbind_Inr_iff split: option.splits)
      then show ?thesis
        unfolding authenticate_def if_not_P [OF False] request_target_def t prod.case rbind_simps d
        by (subst rbind_Inr_iff, simp only: jwt_401_Inr bound_payload) (use False in \<open>auto simp: d\<close>)
    qed (simp add: authenticate_def t jwt_401_def split: exn.split)
  qed (simp add: authenticate_def)
qed (auto simp: authenticate_def)

text \<open>PyJWT verifies the very claims it shows before verification.\<close>

definition pyjwt_claims :: "jwt_lib \<Rightarrow> bool" where
  "pyjwt_claims lib \<longleftrightarrow>
     (\<forall>tok key aud leeway now c. jl_verify lib tok key aud leeway now = Inr c \<longrightarrow> jl_claims lib tok = Inr c)"

text \<open>C9: No request gets in under a name that did not sign it. If authentication yields an identity, the
  request carried a bearer token that verified under the key configured for exactly that identity,
  whose claims name this method and this path and query and, on the endpoint that takes a JSON
  body, the digest of this body (which is within the size cap).\<close>

theorem identity_is_proven:
  assumes "pyjwt_claims lib" and "authenticate lib cfg issuer_keys now rq bind_body = Inr client"
  shows "\<exists>rest key c. rq_authorization rq = Some (''Bearer '' @ rest)
    \<and> map_of issuer_keys client = Some key
    \<and> jl_verify lib (str_strip rest) key (cfg_jwt_audience cfg) (cfg_jwt_leeway cfg) now = Inr c
    \<and> jget c ''iss'' = JStr client \<and> bound_to lib c rq bind_body"
proof -
  from assms(2) obtain token c iss where t: "bearer rq = Inr token"
    and d: "jwt_decode lib cfg issuer_keys now token None None None None = Inr c"
    and b: "bound_to lib c rq bind_body" and i: "map_of c ''iss'' = Some iss" "client = json_str iss"
    by (auto simp: authenticate_Inr)
  from t obtain rest where r: "rq_authorization rq = Some (''Bearer '' @ rest)" "token = str_strip rest"
    by (auto simp: bearer_def Let_def starts_with_iff split: if_splits option.splits)
  from d obtain u iss' key where k: "jl_claims lib token = Inr u" "jget u ''iss'' = JStr iss'" "map_of issuer_keys iss' = Some key"
    and v: "jl_verify lib token key (cfg_jwt_audience cfg) (cfg_jwt_leeway cfg) now = Inr c"
    by (auto simp: jwt_decode_Inr)
  from assms(1) v k(1) have "c = u" unfolding pyjwt_claims_def by (metis sum.inject(2))
  with k i have "client = iss'" "jget c ''iss'' = JStr client" by (auto simp: jget_def json_str_def)
  with r k v b show ?thesis by blast
qed

section \<open>Tokens minted by a caller\<close>

lemma a2b_extra_pad:
  "a2b q left pads (xs @ [CHR ''='']) = Inr bs \<Longrightarrow> a2b q left pads (xs @ [CHR ''='', CHR ''='']) = Inr bs"
proof (induction xs arbitrary: q left pads bs)
  case (Cons x xs)
  then show ?case by (auto simp: rbind_Inr_iff split: if_splits option.splits)
qed (auto split: if_splits)

lemma read_private_encoded:
  assumes "length k = 32"
  shows "read_private (encode_key k) = Inr k"
proof -
  have c: "list_all url_char (encode_key k)" using key_chars [of k] assms by (simp add: key_bytes_def)
  have "(of_char ch :: nat) < 128" if "url_char ch" for ch
    using that by (auto simp: url_char_def Let_def)
  with c have a: "list_all (\<lambda>ch. (of_char ch :: nat) < 128) (encode_key k)" by (auto simp: list_all_iff)
  have "\<forall>x\<in>set (map unat k). x < 256" by (simp add: unat_byte_less)
  from a2b_extra_pad [OF a2b_encode [OF this]] assms
  have "urlsafe_b64decode (encode_key k @ ''=='') = Inr k"
    by (simp add: urlsafe_b64decode_def encode_key_def url_to_std_def comp_def)
  with a assms show ?thesis by (simp add: read_private_def)
qed

lemma mint_claims_gets:
  "jget (mint_claims iss mth htu t d) ''iss'' = JStr iss"
  "jget (mint_claims iss mth htu t d) ''aud'' = JStr ''file-scanner''"
  "jget (mint_claims iss mth htu t d) ''iat'' = JInt t"
  "jget (mint_claims iss mth htu t d) ''exp'' = JInt (t + 300)"
  "jget (mint_claims iss mth htu t d) ''htm'' = JStr (str_upper mth)"
  "jget (mint_claims iss mth htu t d) ''htu'' = JStr htu"
  "jget (mint_claims iss mth htu t (Some x)) ''bh'' = JStr x"
  "map_of (mint_claims iss mth htu t d) ''iss'' = Some (JStr iss)"
  by (simp_all add: mint_claims_def jget_def mint_audience_def ttl_seconds_def split: option.split)

lemma plain_mint: "plain_claims (mint_claims iss mth htu t d)"
  by (simp add: plain_claims_def mint_claims_gets) (auto simp: mint_claims_def dict_ok_def split: option.split)

lemma token_strip:
  assumes "jwt_laws lib"
  shows "str_strip (jl_encode lib p k h) = jl_encode lib p k h"
proof -
  have "\<not> is_space ch" if "ch \<in> set (jl_encode lib p k h)" for ch
    using assms that by (auto simp: jwt_laws_def list_all_iff)
  then show ?thesis by (intro str_strip_id) (auto simp: hd_in_set)
qed


definition sample_request :: "string \<Rightarrow> request" where
  "sample_request tok = \<lparr>rq_method = ''POST'', rq_path = ''/api/v1.0/scan-async'', rq_query = [], rq_content_length = Some ''2'',
     rq_authorization = Some (''Bearer '' @ tok), rq_body = [0x7B, 0x7D]\<rparr>"


lemma sample_claims: "pyjwt_claims sample_lib"
  by (auto simp: pyjwt_claims_def sample_lib_def split: prod.splits if_splits)

theorem identity_is_proven_witness:
  "\<exists>tok key c. jl_verify sample_lib tok key ''file-scanner'' 60 250 = Inr c \<and> jget c ''htm'' = JStr ''POST''"
proof -
  have l: "length (replicate 32 (9 :: 8 word)) = 32" by simp
  let ?p = "mint_claims ''drive'' ''POST'' ''/api/v1.0/scan-async'' 100 None"
  let ?tok = "jl_encode sample_lib ?p (replicate 32 9) None"
  let ?rq = "sample_request ?tok"
  have s: "str_strip ?tok = ?tok" by (rule token_strip [OF sample_laws])
  have d: "jwt_decode sample_lib default_settings [(''drive'', replicate 32 9)] 250 ?tok None None None None = Inr ?p"
    by (rule honest_token_decodes [OF sample_laws plain_mint mint_claims_gets(1)])
       (simp_all add: mint_claims_gets default_settings_def in_window_def check_lifetime_def json_num_def sample_lib_def)
  have "authenticate sample_lib default_settings [(''drive'', replicate 32 9)] 250 ?rq False = Inr ''drive''"
    unfolding authenticate_Inr
    by (intro conjI exI [of _ ?tok] exI [of _ ?p] exI [of _ "JStr ''drive''"] d)
       (simp_all add: bearer_def sample_request_def starts_with_def s bound_to_def mint_claims_gets json_str_def str_upper_def
          ascii_upper_def)
  from identity_is_proven [OF sample_claims this] show ?thesis
    by (auto simp: default_settings_def bound_to_def sample_request_def str_upper_def ascii_upper_def)
qed

end
