(* ===== verification/App.thy ===== *)
theory App
  imports Task_Reports Api_Auth
begin

text \<open>
  The HTTP endpoints of \<open>src/app.py\<close> behind authentication: the synchronous and the asynchronous
  scan, the poll of a job, health check, metrics and the small helpers. An \<open>HTTPException\<close> is the
  response with its status, any other exception a 500. What the framework parses (the form, the
  JSON body with its URL) comes parsed.
\<close>

section \<open>Selectors and caps\<close>

definition split_param :: "string option \<Rightarrow> string list option" where
  "split_param raw =
     (case raw of
        None \<Rightarrow> None
      | Some s \<Rightarrow> if s = [] then None else let xs = split_csv s in if xs = [] then None else Some xs)"

text \<open>\<open>except ValueError as exc: raise HTTPException(400, ...)\<close>.\<close>

definition bad_request :: "'a result \<Rightarrow> 'a result" where
  "bad_request r = (case r of Inl e \<Rightarrow> Inl (if is_value_error e then HTTPException 400 (exn_str e) else e) | Inr x \<Rightarrow> Inr x)"

type_synonym loads = "string \<Rightarrow> json result"

definition api_resolve ::
    "loads \<Rightarrow> settings \<Rightarrow> builders \<Rightarrow> string list option \<Rightarrow> string list option \<Rightarrow> string list reg" where
  "api_resolve loads cfg builders categories scanners c =
     (case resolve_scanners loads cfg builders categories scanners c of (r, c') \<Rightarrow> (bad_request r, c'))"

definition api_size_cap :: "settings \<Rightarrow> string list \<Rightarrow> int \<Rightarrow> string \<Rightarrow> unit result" where
  "api_size_cap cfg names cap cap_name = bad_request (assert_size_cap_decidable cfg names cap cap_name)"

section \<open>The synchronous scan\<close>

record upload =
  up_path :: string
  up_categories :: "string option"
  up_scanners :: "string option"
  up_data :: "8 word list"

definition scan_endpoint ::
    "loads \<Rightarrow> settings \<Rightarrow> builders \<Rightarrow> (string \<Rightarrow> rat) \<Rightarrow> string \<Rightarrow> upload \<Rightarrow> scan_state
      \<Rightarrow> payload result \<times> scan_state" where
  "scan_endpoint loads cfg builders dur username up = (\<lambda>(c, m).
     case api_resolve loads cfg builders (split_param (up_categories up)) (split_param (up_scanners up)) c of
       (Inl e, c1) \<Rightarrow> (Inl e, (c1, m))
     | (Inr names, c1) \<Rightarrow>
         if cfg_max_upload_size cfg < int (length (up_data up)) then (Inl (HTTPException 413 ''File Too Large''), (c1, m))
         else (case api_size_cap cfg names (cfg_max_upload_size cfg) ''MAX_UPLOAD_SIZE'' of
             Inl e \<Rightarrow> (Inl e, (c1, m))
           | Inr _ \<Rightarrow>
               (case run_scanners cfg builders names (\<lambda>_. Inr (up_data up)) dur username (c1, m) of
                  (Inl e, s2) \<Rightarrow> (Inl e, s2)
                | (Inr report, s2) \<Rightarrow>
                    if all_errored report then (Inl (HTTPException 503 ''scan temporarily unavailable''), s2)
                    else (Inr (serialize (report_as_dict report) (of_path (up_path up))), s2))))"

section \<open>The asynchronous scan\<close>

text \<open>\<open>ScanEncryption\<close>: its fields, the validation of the model and \<open>model_dump\<close>.\<close>

record scan_encryption =
  se_scheme :: string
  se_key :: string
  se_chunk_size :: int
  se_file_id :: string
  se_parts :: int

definition valid_encryption :: "settings \<Rightarrow> scan_encryption \<Rightarrow> bool" where
  "valid_encryption cfg e \<longleftrightarrow>
     43 \<le> length (se_key e) \<and> length (se_key e) \<le> 44 \<and> fragment_body (se_key e)
     \<and> cfg_encryption_min_chunk_size cfg \<le> se_chunk_size e \<and> se_chunk_size e \<le> cfg_encryption_max_chunk_size cfg
     \<and> 1 \<le> length (se_file_id e) \<and> length (se_file_id e) \<le> 255 \<and> 0 \<le> se_parts e
     \<and> JStr (se_scheme e) \<in> set schemes"

definition dump_encryption :: "scan_encryption \<Rightarrow> enc_params" where
  "dump_encryption e =
     [(''scheme'', JStr (se_scheme e)), (''key'', JStr (se_key e)), (''chunk_size'', JInt (se_chunk_size e)),
      (''file_id'', JStr (se_file_id e)), (''parts'', JInt (se_parts e))]"

record async_request =
  ar_path :: string
  ar_url :: string
  ar_filename :: "string option"
  ar_webhook :: "string option"
  ar_metadata :: json
  ar_categories :: "string list option"
  ar_scanners :: "string list option"
  ar_encryption :: "scan_encryption option"

text \<open>What the web tier changes: the network it resolves hosts on, its scanner cache, the queue of
  scan messages and the job store. Enqueueing may raise.\<close>

record ('w, 'b) web_state =
  ws_net :: 'w
  ws_cache :: cache
  ws_queue :: "job list"
  ws_store :: 'b

definition scan_message :: "string \<Rightarrow> string \<Rightarrow> string list \<Rightarrow> async_request \<Rightarrow> job" where
  "scan_message job_id username names body =
     \<lparr>jb_id = job_id, jb_url = ar_url body, jb_scanners = names, jb_filename = ar_filename body,
      jb_webhook = ar_webhook body, jb_metadata = ar_metadata body, jb_client = username,
      jb_encryption = (case ar_encryption body of None \<Rightarrow> [] | Some e \<Rightarrow> dump_encryption e),
      jb_version = of_path (ar_path body)\<rparr>"

definition pending_record :: "string \<Rightarrow> async_request \<Rightarrow> payload" where
  "pending_record job_id body =
     [(''job_id'', JStr job_id), (''status'', JStr pending), (''filename'', jopt (ar_filename body)),
      (''metadata'', ar_metadata body)]"

text \<open>\<open>except SSRFValidationError as exc: raise HTTPException(400, ...)\<close>.\<close>

definition unsafe_request :: "unit result \<Rightarrow> unit result" where
  "unsafe_request r = (case r of Inl (SSRFValidationError m) \<Rightarrow> Inl (HTTPException 400 m) | _ \<Rightarrow> r)"

text \<open>The checks up to the job id: the scanners the job will use.\<close>

definition admit ::
    "loads \<Rightarrow> settings \<Rightarrow> builders \<Rightarrow> 'w resolver \<Rightarrow> async_request \<Rightarrow> ('w, 'b) web_state
      \<Rightarrow> string list result \<times> ('w, 'b) web_state" where
  "admit loads cfg builders dns body s =
     (case api_resolve loads cfg builders (ar_categories body) (ar_scanners body) (ws_cache s) of
        (Inl e, c) \<Rightarrow> (Inl e, s\<lparr>ws_cache := c\<rparr>)
      | (Inr names, c) \<Rightarrow>
          (case api_size_cap cfg names (cfg_max_url_size cfg) ''MAX_URL_SIZE'' of
             Inl e \<Rightarrow> (Inl e, s\<lparr>ws_cache := c\<rparr>)
           | Inr _ \<Rightarrow>
               (case assert_scannable cfg dns (ar_url body) (ar_webhook body) (ws_net s) of
                  (r, w) \<Rightarrow>
                    (let s1 = s\<lparr>ws_cache := c, ws_net := w\<rparr> in
                     case unsafe_request r of
                       Inl e \<Rightarrow> (Inl e, s1)
                     | Inr _ \<Rightarrow>
                         if (ar_webhook body = None \<or> ar_webhook body = Some []) \<and> \<not> enabled cfg then
                           (Inl (HTTPException 422 ''webhook_url is required (no result store configured to poll)''), s1)
                         else (Inr names, s1)))))"

definition scan_async ::
    "loads \<Rightarrow> settings \<Rightarrow> builders \<Rightarrow> 'w resolver \<Rightarrow> 'b backend \<Rightarrow> (job \<Rightarrow> unit result) \<Rightarrow> string \<Rightarrow> string
      \<Rightarrow> async_request \<Rightarrow> ('w, 'b) web_state \<Rightarrow> payload result \<times> ('w, 'b) web_state" where
  "scan_async loads cfg builders dns be enqueue job_id username body s =
     (case admit loads cfg builders dns body s of
        (Inl e, s1) \<Rightarrow> (Inl e, s1)
      | (Inr names, s1) \<Rightarrow>
          (let jb = scan_message job_id username names body in
           case enqueue jb of
             Inl e \<Rightarrow> (Inl e, s1)
           | Inr _ \<Rightarrow>
               (Inr [(''job_id'', JStr job_id), (''status'', JStr ''pending'')],
                s1\<lparr>ws_queue := ws_queue s1 @ [jb],
                   ws_store := record_job cfg be job_id username (pending_record job_id body) (ws_store s1)\<rparr>)))"

section \<open>Polling\<close>

definition job_status :: "settings \<Rightarrow> 'b backend \<Rightarrow> string \<Rightarrow> string \<Rightarrow> string \<Rightarrow> 'b \<Rightarrow> payload result" where
  "job_status cfg be path job_id username b =
     (if \<not> enabled cfg then Inl (HTTPException 404 ''result store is disabled (WORKER_RESULT_TTL=0)'')
      else case fetch_job cfg be job_id username b of
          JNull \<Rightarrow> Inl (HTTPException 404 ''job not found'')
        | JObj record \<Rightarrow> Inr (serialize record (of_path path))
        | _ \<Rightarrow> Inl (TypeError ''object is not a mapping''))"

section \<open>Health, metrics and the small helpers\<close>

text \<open>\<open>all(get_scanner(name).ping() for name in names)\<close>: the first engine that is down ends it.\<close>

fun all_ping :: "builders \<Rightarrow> string list \<Rightarrow> bool reg" where
  "all_ping builders [] = reg_lift (Inr True)"
| "all_ping builders (n # ns) =
     reg_bind (get_scanner builders n) (\<lambda>s. reg_bind (reg_lift (sc_ping s)) (\<lambda>up.
       if up then all_ping builders ns else reg_lift (Inr False)))"

definition healthcheck :: "loads \<Rightarrow> settings \<Rightarrow> builders \<Rightarrow> (nat \<times> string) reg" where
  "healthcheck loads cfg builders c =
     (case reg_bind (resolve_scanners loads cfg builders None None) (all_ping builders) c of
        (Inr True, c') \<Rightarrow> (Inr (200, ''Service OK''), c')
      | (Inr False, c') \<Rightarrow> (Inr (503, ''Service Unavailable''), c')
      | (Inl e, c') \<Rightarrow>
          (case e of
             RuntimeError _ \<Rightarrow> (Inr (503, ''Service Unavailable''), c')
           | _ \<Rightarrow> if is_value_error e then (Inr (503, ''Service Unavailable''), c') else (Inl e, c')))"

text \<open>\<open>hmac.compare_digest\<close> on two strings raises \<open>TypeError\<close> unless both are ASCII.\<close>

definition compare_digest :: "string \<Rightarrow> string \<Rightarrow> bool result" where
  "compare_digest a b =
     (if list_all (\<lambda>ch. (of_char ch :: nat) < 128) (a @ b) then Inr (a = b)
      else Inl (TypeError ''comparing strings with non-ASCII characters is not supported''))"

definition verify_prometheus :: "settings \<Rightarrow> string option \<Rightarrow> unit result" where
  "verify_prometheus cfg authorization =
     (if cfg_prometheus_api_key cfg = [] then Inr ()
      else rbind (compare_digest (case authorization of None \<Rightarrow> [] | Some a \<Rightarrow> a) (''Bearer '' @ cfg_prometheus_api_key cfg))
        (\<lambda>same. if same then Inr () else Inl (HTTPException 401 ''Unauthorized'')))"

definition metrics_endpoint ::
    "loads \<Rightarrow> settings \<Rightarrow> builders \<Rightarrow> (string \<Rightarrow> rat option) \<Rightarrow> rat \<Rightarrow> string option \<Rightarrow> scan_state \<Rightarrow> unit result \<times> scan_state" where
  "metrics_endpoint loads cfg builders to_float now authorization = (\<lambda>(c, m).
     case verify_prometheus cfg authorization of
       Inl e \<Rightarrow> (Inl e, (c, m))
     | Inr _ \<Rightarrow>
         (case resolve_scanners loads cfg builders None None c of
            (Inl e, c') \<Rightarrow> (if is_value_error e then Inr () else Inl e, (c', m))
          | (Inr names, c') \<Rightarrow>
              (Inr (), refresh_signatures to_float (get_scanner builders) names now (c', m))))"

definition strip_slashes :: "string \<Rightarrow> string" where
  "strip_slashes s = rev (dropWhile (\<lambda>ch. ch = CHR ''/'') (rev (dropWhile (\<lambda>ch. ch = CHR ''/'') s)))"

definition mount_path :: "settings \<Rightarrow> string" where
  "mount_path cfg =
     ''/'' @ (let p = strip_slashes (str_strip (cfg_worker_dashboard_path cfg)) in if p = [] then ''dashboard'' else p)"

text \<open>Where the dashboard is served; \<open>built\<close> says whether building it succeeded.\<close>

definition mount_dashboard :: "settings \<Rightarrow> bool \<Rightarrow> string option" where
  "mount_dashboard cfg built = (if cfg_worker_dashboard_password cfg = [] then None else if built then Some (mount_path cfg) else None)"

text \<open>The access-log filter: \<open>Some (method, path, status)\<close> for a record of the five arguments.\<close>

definition keep_access_log :: "(string \<times> string \<times> int) option \<Rightarrow> bool" where
  "keep_access_log args =
     (case args of
        None \<Rightarrow> True
      | Some (http_method, path, status) \<Rightarrow>
          \<not> (http_method = ''GET'' \<and> hd (str_split (CHR ''?'') path) \<in> {''/check'', ''/'', ''/metrics''} \<and> status = 200))"

section \<open>The synchronous scan as a function of the request\<close>

lemma resolve_build_names:
  assumes "resolve_build loads cfg builders categories scanners = Inr ns"
  shows "ns \<noteq> []" and "set ns \<subseteq> {n. \<exists>s. map_of builders n = Some (Inr s)}"
proof -
  obtain m where "category_map loads cfg = Inr m" using assms by (auto simp: resolve_build_def rbind_Inr_iff)
  from resolve_build_Inr_iff [OF this] assms show "ns \<noteq> []" "set ns \<subseteq> {n. \<exists>s. map_of builders n = Some (Inr s)}"
    by blast+
qed

lemma api_resolve_eq:
  assumes "cache_ok builders c"
  obtains c' where "cache_ok builders c'"
    "api_resolve loads cfg builders cats scs c = (bad_request (resolve_build loads cfg builders cats scs), c')"
  using reg_agreesD [OF resolve_agrees assms, of loads cfg cats scs] by (auto simp: api_resolve_def)

lemma bad_request_Inr [simp]: "bad_request r = Inr x \<longleftrightarrow> r = Inr x" "bad_request (Inr x) = Inr x"
  by (auto simp: bad_request_def split: sum.splits)

text \<open>The reference: no cache, no metrics, no pool; the checks in the order of the documentation.\<close>

definition scan_response ::
    "loads \<Rightarrow> settings \<Rightarrow> builders \<Rightarrow> (string \<Rightarrow> rat) \<Rightarrow> upload \<Rightarrow> payload result" where
  "scan_response loads cfg builders dur up =
     (case resolve_build loads cfg builders (split_param (up_categories up)) (split_param (up_scanners up)) of
        Inl e \<Rightarrow> Inl (if is_value_error e then HTTPException 400 (exn_str e) else e)
      | Inr names \<Rightarrow>
          if cfg_max_upload_size cfg < int (length (up_data up)) then Inl (HTTPException 413 ''File Too Large'')
          else case api_size_cap cfg names (cfg_max_upload_size cfg) ''MAX_UPLOAD_SIZE'' of
              Inl e \<Rightarrow> Inl e
            | Inr _ \<Rightarrow>
                let rs = scan_results cfg builders (\<lambda>_. Inr (up_data up)) dur names in
                if all_errored rs then Inl (HTTPException 503 ''scan temporarily unavailable'')
                else Inr (serialize (report_as_dict rs) (of_path (up_path up))))"

text \<open>What a request adds to the metrics: the results of the scanners, when they ran at all.\<close>

definition scanned ::
    "loads \<Rightarrow> settings \<Rightarrow> builders \<Rightarrow> (string \<Rightarrow> rat) \<Rightarrow> upload \<Rightarrow> report" where
  "scanned loads cfg builders dur up =
     (case resolve_build loads cfg builders (split_param (up_categories up)) (split_param (up_scanners up)) of
        Inl _ \<Rightarrow> []
      | Inr names \<Rightarrow>
          if cfg_max_upload_size cfg < int (length (up_data up))
             \<or> api_size_cap cfg names (cfg_max_upload_size cfg) ''MAX_UPLOAD_SIZE'' \<noteq> Inr () then []
          else scan_results cfg builders (\<lambda>_. Inr (up_data up)) dur names)"

text \<open>C16: The synchronous endpoint is a function of the request. Whatever engines earlier requests have
  built, the answer is the one of the reference: a bad selection is a 400, an oversized file a 413,
  an undecidable size cap a 400, an outage of every deciding engine without a detection a 503, and
  otherwise the report of exactly the selected engines on exactly the uploaded bytes, in the shape
  of the route's version; and the metrics grow by exactly the results of a scan that took place.\<close>

theorem scan_endpoint_is_a_function:
  assumes "cache_ok builders c"
  shows "\<exists>c'. cache_ok builders c' \<and>
    scan_endpoint loads cfg builders dur username up (c, m) =
      (scan_response loads cfg builders dur up,
       (c', fold (\<lambda>r. record_scan r username) (scanned loads cfg builders dur up) m))"
proof -
  let ?r = "resolve_build loads cfg builders (split_param (up_categories up)) (split_param (up_scanners up))"
  obtain c1 where c1: "cache_ok builders c1"
    and a: "api_resolve loads cfg builders (split_param (up_categories up)) (split_param (up_scanners up)) c = (bad_request ?r, c1)"
    using api_resolve_eq [OF assms] by blast
  show ?thesis
  proof (cases ?r)
    case (Inl e)
    then show ?thesis using c1 a by (simp add: scan_endpoint_def scan_response_def scanned_def bad_request_def)
  next
    case (Inr names)
    note ns = resolve_build_names [OF Inr]
    obtain c2 where c2: "cache_ok builders c2" "run_scanners cfg builders names (\<lambda>_. Inr (up_data up)) dur username (c1, m)
        = (Inr (scan_results cfg builders (\<lambda>_. Inr (up_data up)) dur names),
           (c2, record_all username (scan_results cfg builders (\<lambda>_. Inr (up_data up)) dur names) m))"
      using run_scanners_built [OF c1 ns(2,1), of cfg "\<lambda>_. Inr (up_data up)" dur username m] by blast
    show ?thesis
    proof (cases "cfg_max_upload_size cfg < int (length (up_data up))
        \<or> api_size_cap cfg names (cfg_max_upload_size cfg) ''MAX_UPLOAD_SIZE'' \<noteq> Inr ()")
      case True
      then show ?thesis
        using c1 a Inr
        by (cases "api_size_cap cfg names (cfg_max_upload_size cfg) ''MAX_UPLOAD_SIZE''")
           (auto simp: scan_endpoint_def scan_response_def scanned_def)
    next
      case False
      then show ?thesis
        using c2 a Inr by (auto simp: scan_endpoint_def scan_response_def scanned_def Let_def record_all_def)
    qed
  qed
qed

definition sample_upload :: upload where
  "sample_upload = \<lparr>up_path = ''/api/v1.0/scan'', up_categories = Some ''malware'', up_scanners = None, up_data = [0x50]\<rparr>"

theorem scan_endpoint_is_a_function_witness:
  "fst (scan_endpoint sample_loads sample_cfg sample_builders (\<lambda>_. 1) ''drive'' sample_upload ([], initial_metrics))
   = scan_response sample_loads sample_cfg sample_builders (\<lambda>_. 1) sample_upload"
  using scan_endpoint_is_a_function [of sample_builders "[]" sample_loads sample_cfg "\<lambda>_. 1" "''drive''" sample_upload initial_metrics]
  by (auto simp: cache_ok_def)

section \<open>Accepting a job\<close>

lemma admit_keeps:
  assumes "admit loads cfg builders dns body s = (r, s1)"
  shows "ws_queue s1 = ws_queue s" and "ws_store s1 = ws_store s"
  using assms by (auto simp: admit_def Let_def split: prod.splits sum.splits if_splits)

lemma unsafe_request_Inr [simp]: "unsafe_request r = Inr u \<longleftrightarrow> r = Inr ()"
  by (auto simp: unsafe_request_def split: sum.splits exn.splits)

lemma admit_Inr:
  assumes "admit loads cfg builders dns body s = (Inr names, s1)" and "cache_ok builders (ws_cache s)"
  shows "resolve_build loads cfg builders (ar_categories body) (ar_scanners body) = Inr names"
    and "scannable cfg dns (ar_url body) (ar_webhook body) (ws_net s)"
    and "enabled cfg \<or> (\<exists>u. ar_webhook body = Some u \<and> u \<noteq> [])"
proof -
  obtain c1 where a: "api_resolve loads cfg builders (ar_categories body) (ar_scanners body) (ws_cache s)
      = (bad_request (resolve_build loads cfg builders (ar_categories body) (ar_scanners body)), c1)"
    using api_resolve_eq [OF assms(2)] by blast
  obtain n where n: "bad_request (resolve_build loads cfg builders (ar_categories body) (ar_scanners body)) = Inr n"
    using assms(1) a by (cases "bad_request (resolve_build loads cfg builders (ar_categories body) (ar_scanners body))")
      (auto simp: admit_def)
  obtain r w where sc: "assert_scannable cfg dns (ar_url body) (ar_webhook body) (ws_net s) = (r, w)"
    by (cases "assert_scannable cfg dns (ar_url body) (ar_webhook body) (ws_net s)")
  have "unsafe_request r = Inr ()" "names = n" "\<not> ((ar_webhook body = None \<or> ar_webhook body = Some []) \<and> \<not> enabled cfg)"
    using assms(1) a n sc by (auto simp: admit_def Let_def split: sum.splits if_splits)
  then show "resolve_build loads cfg builders (ar_categories body) (ar_scanners body) = Inr names"
    and "scannable cfg dns (ar_url body) (ar_webhook body) (ws_net s)"
    and "enabled cfg \<or> (\<exists>u. ar_webhook body = Some u \<and> u \<noteq> [])"
    using n sc assert_scannable_iff [of cfg dns "ar_url body" "ar_webhook body" "ws_net s"] by auto
qed

text \<open>C23: The asynchronous endpoint accepts a job or leaves no trace of it. A reply means that the
  selection resolved, that the policy admits the URL and the callback, that the caller has a channel
  for the result (a callback, or the store), and that exactly one message with the request's data
  was queued and a pending record stored; any error means that nothing was queued or stored.\<close>

theorem scan_async_all_or_nothing:
  assumes "cache_ok builders (ws_cache s)"
  shows "case scan_async loads cfg builders dns be enqueue job_id username body s of (r, s') \<Rightarrow>
     (case r of
        Inl _ \<Rightarrow> ws_queue s' = ws_queue s \<and> ws_store s' = ws_store s
      | Inr reply \<Rightarrow> \<exists>names.
          resolve_build loads cfg builders (ar_categories body) (ar_scanners body) = Inr names
          \<and> scannable cfg dns (ar_url body) (ar_webhook body) (ws_net s)
          \<and> (enabled cfg \<or> (\<exists>u. ar_webhook body = Some u \<and> u \<noteq> []))
          \<and> ws_queue s' = ws_queue s @ [scan_message job_id username names body]
          \<and> ws_store s' = record_job cfg be job_id username (pending_record job_id body) (ws_store s)
          \<and> reply = [(''job_id'', JStr job_id), (''status'', JStr ''pending'')])"
proof -
  obtain r s1 where a: "admit loads cfg builders dns body s = (r, s1)" by (cases "admit loads cfg builders dns body s")
  note keep = admit_keeps [OF a]
  show ?thesis
  proof (cases r)
    case (Inl e)
    then show ?thesis using a keep by (simp add: scan_async_def)
  next
    case (Inr names)
    note ok = admit_Inr [OF a [unfolded Inr] assms]
    show ?thesis
      using a Inr keep ok
      by (cases "enqueue (scan_message job_id username names body)") (simp_all add: scan_async_def Let_def)
  qed
qed

definition async_cfg :: settings where
  "async_cfg = sample_cfg\<lparr>cfg_worker_result_ttl := 3600\<rparr>"

definition sample_async :: async_request where
  "sample_async = \<lparr>ar_path = ''/api/v2.0/scan-async'', ar_url = ''https://drive.example/f'', ar_filename = None,
     ar_webhook = Some ''https://drive.example/hook'', ar_metadata = JNull, ar_categories = Some [''malware''],
     ar_scanners = None, ar_encryption = None\<rparr>"

definition sample_web :: "(unit, (key_msg \<times> json) list) web_state" where
  "sample_web = \<lparr>ws_net = (), ws_cache = [], ws_queue = [], ws_store = []\<rparr>"

lemma sample_admitted:
  "fst (admit sample_loads async_cfg sample_builders (nw_dns sample_net) sample_async sample_web) = Inr [''exav'', ''clamav'']"
  by code_simp

theorem scan_async_all_or_nothing_witness:
  "ws_queue (snd (scan_async sample_loads async_cfg sample_builders (nw_dns sample_net) list_backend (\<lambda>_. Inr ()) ''j1'' ''drive''
     sample_async sample_web)) = [scan_message ''j1'' ''drive'' [''exav'', ''clamav''] sample_async]"
proof -
  have c: "cache_ok sample_builders (ws_cache sample_web)" by (simp add: sample_web_def cache_ok_def)
  obtain s1 where a: "admit sample_loads async_cfg sample_builders (nw_dns sample_net) sample_async sample_web = (Inr [''exav'', ''clamav''], s1)"
    using sample_admitted by (cases "admit sample_loads async_cfg sample_builders (nw_dns sample_net) sample_async sample_web") simp
  have "resolve_build sample_loads async_cfg sample_builders (ar_categories sample_async) (ar_scanners sample_async) = Inr [''exav'', ''clamav'']"
    by (rule admit_Inr(1) [OF a c])
  moreover have "ws_queue sample_web = []" by (simp add: sample_web_def)
  moreover obtain reply s' where "scan_async sample_loads async_cfg sample_builders (nw_dns sample_net) list_backend
      (\<lambda>_. Inr ()) ''j1'' ''drive'' sample_async sample_web = (Inr reply, s')"
    by (simp add: scan_async_def a Let_def)
  ultimately show ?thesis
    using scan_async_all_or_nothing [OF c, where loads = sample_loads and cfg = async_cfg and dns = "nw_dns sample_net"
      and be = list_backend and enqueue = "\<lambda>_. Inr ()" and job_id = "''j1''" and username = "''drive''" and body = sample_async]
    by auto
qed

end
