(* ===== verification/Async_System.thy ===== *)
theory Async_System
  imports App "HOL-Library.Multiset"
begin

text \<open>
  The asynchronous path as a whole: web processes accept jobs, workers take them from the queue in
  any order, and the two run interleaved. The web handler's last two effects, queueing the message
  and storing the pending record (\<open>scan_async\<close> in \<open>src/app.py\<close>), are separate steps, as they are
  in the program. Between steps the network changes at will and stored records may expire.
\<close>

text \<open>\<open>sy_seeds\<close> are the handlers between the two effects: the records they still have to write.
  \<open>sy_settled\<close> is a history of the jobs that have returned, with what they reported.\<close>

record ('w, 'b) system =
  sy_world :: "('w, 'b) world"
  sy_cache :: cache
  sy_queue :: "(job \<times> nat) list"
  sy_seeds :: "(string \<times> string \<times> payload) list"
  sy_accepted :: "(job \<times> payload) list"
  sy_settled :: "(job \<times> payload) list"

definition web_view :: "('w, 'b) system \<Rightarrow> ('w, 'b) web_state" where
  "web_view s = \<lparr>ws_net = wo_net (sy_world s), ws_cache = sy_cache s, ws_queue = map fst (sy_queue s), ws_store = wo_store (sy_world s)\<rparr>"

definition job_ids :: "('w, 'b) system \<Rightarrow> string list" where
  "job_ids s = map (jb_id \<circ> fst) (sy_accepted s)"

definition forgets :: "'b backend \<Rightarrow> 'b \<Rightarrow> 'b \<Rightarrow> bool" where
  "forgets be b b' \<longleftrightarrow> (\<forall>k. be_get be k b' = be_get be k b \<or> (\<exists>e. be_get be k b' = Inl e))"

inductive sys_step ::
    "('w, 'b) env \<Rightarrow> loads \<Rightarrow> ('w, 'b) system \<Rightarrow> ('w, 'b) system \<Rightarrow> bool" for env loads where
  accept: "admit loads (en_cfg env) (en_builders env) (nw_dns (en_net env)) body (web_view s) = (Inr names, v) \<Longrightarrow>
     jb = scan_message job_id username names body \<Longrightarrow> job_id \<notin> set (job_ids s) \<Longrightarrow>
     sys_step env loads s (s\<lparr>sy_world := (sy_world s)\<lparr>wo_net := ws_net v\<rparr>, sy_cache := ws_cache v,
       sy_queue := sy_queue s @ [(jb, 0)], sy_seeds := sy_seeds s @ [(job_id, username, pending_record job_id body)],
       sy_accepted := sy_accepted s @ [(jb, pending_record job_id body)]\<rparr>)"
| seed: "sy_seeds s = xs @ (job_id, username, p) # ys \<Longrightarrow>
     sys_step env loads s (s\<lparr>sy_seeds := xs @ ys, sy_world := (sy_world s)\<lparr>wo_store :=
       record_job (en_cfg env) (en_backend env) job_id username p (wo_store (sy_world s))\<rparr>\<rparr>)"
| work: "sy_queue s = xs @ (jb, n) # ys \<Longrightarrow> path \<notin> fst ` set (wo_files (sy_world s)) \<Longrightarrow>
     scan_task env jb path dur (Some (int n)) (sy_world s) = (Inr (), w) \<Longrightarrow>
     sys_step env loads s (s\<lparr>sy_queue := xs @ ys, sy_world := w, sy_settled := sy_settled s @
       [(jb, verdict_on jb (fst (scan_attempt env jb path dur (sy_world s))))]\<rparr>)"
| retry: "sy_queue s = xs @ (jb, n) # ys \<Longrightarrow> path \<notin> fst ` set (wo_files (sy_world s)) \<Longrightarrow>
     scan_task env jb path dur (Some (int n)) (sy_world s) = (Inl e, w) \<Longrightarrow>
     sys_step env loads s (s\<lparr>sy_queue := xs @ ys @ [(jb, Suc n)], sy_world := w\<rparr>)"
| drift: "forgets (en_backend env) (wo_store (sy_world s)) b \<Longrightarrow>
     sys_step env loads s (s\<lparr>sy_world := (sy_world s)\<lparr>wo_net := net, wo_store := b\<rparr>\<rparr>)"

text \<open>The service starts with no job and an empty store, queue and download directory.\<close>

definition sys_init :: "('w, 'b) env \<Rightarrow> ('w, 'b) system \<Rightarrow> bool" where
  "sys_init env s \<longleftrightarrow>
     sy_queue s = [] \<and> sy_seeds s = [] \<and> sy_accepted s = [] \<and> sy_settled s = []
     \<and> wo_outbox (sy_world s) = [] \<and> wo_files (sy_world s) = []
     \<and> (\<forall>j o'. fetch_job (en_cfg env) (en_backend env) j o' (wo_store (sy_world s)) = JNull)"

inductive sys_reach :: "('w, 'b) env \<Rightarrow> loads \<Rightarrow> ('w, 'b) system \<Rightarrow> bool" for env loads where
  init: "sys_init env s \<Longrightarrow> sys_reach env loads s"
| step: "sys_reach env loads s \<Longrightarrow> sys_step env loads s t \<Longrightarrow> sys_reach env loads t"

section \<open>The invariant\<close>

text \<open>What a poll may show: the pending record of an accepted job, or what a run of it reported.\<close>

definition shown :: "('w, 'b) system \<Rightarrow> string \<Rightarrow> string \<Rightarrow> payload \<Rightarrow> bool" where
  "shown s j o' p \<longleftrightarrow>
     (\<exists>jb. jb_id jb = j \<and> jb_client jb = o' \<and> ((jb, p) \<in> set (sy_accepted s) \<or> (jb, p) \<in> set (sy_settled s)))"

definition polls_ok :: "('w, 'b) env \<Rightarrow> ('w, 'b) system \<Rightarrow> bool" where
  "polls_ok env s \<longleftrightarrow>
     (\<forall>j o'. fetch_job (en_cfg env) (en_backend env) j o' (wo_store (sy_world s)) \<in> insert JNull (JObj ` Collect (shown s j o')))"

definition callbacks_of :: "(job \<times> payload) list \<Rightarrow> (string \<times> payload) list" where
  "callbacks_of xs = concat (map (\<lambda>(jb, p). callbacks jb p) xs)"

definition shows_ok :: "('w, 'b) env \<Rightarrow> ('w, 'b) system \<Rightarrow> bool" where
  "shows_ok env s \<longleftrightarrow> polls_ok env s \<and> (\<forall>(j, o', p)\<in>set (sy_seeds s). shown s j o' p)"

definition sys_ok :: "('w, 'b) env \<Rightarrow> ('w, 'b) system \<Rightarrow> bool" where
  "sys_ok env s \<longleftrightarrow>
     shows_ok env s
     \<and> distinct (job_ids s)
     \<and> mset (map fst (sy_queue s)) + mset (map fst (sy_settled s)) = mset (map fst (sy_accepted s))
     \<and> (\<forall>(jb, p)\<in>set (sy_settled s). terminal jb p)
     \<and> wo_outbox (sy_world s) = callbacks_of (sy_settled s)
     \<and> wo_files (sy_world s) = []"

lemma polls_okD:
  "polls_ok env s \<Longrightarrow> fetch_job (en_cfg env) (en_backend env) j o' (wo_store (sy_world s)) \<noteq> JNull \<Longrightarrow>
     \<exists>p. fetch_job (en_cfg env) (en_backend env) j o' (wo_store (sy_world s)) = JObj p \<and> shown s j o' p"
  unfolding polls_ok_def by blast

lemma polls_okI:
  assumes "\<And>j o'. fetch_job (en_cfg env) (en_backend env) j o' (wo_store (sy_world s)) \<noteq> JNull \<Longrightarrow>
     \<exists>p. fetch_job (en_cfg env) (en_backend env) j o' (wo_store (sy_world s)) = JObj p \<and> shown s j o' p"
  shows "polls_ok env s"
  unfolding polls_ok_def using assms by fastforce

text \<open>A write of a record the system may show keeps the polls; so does forgetting.\<close>

lemma polls_ok_write:
  assumes "backend_laws (en_backend env)" and "polls_ok env s" and "shown t job owner p"
    and "\<And>j o' q. shown s j o' q \<Longrightarrow> shown t j o' q"
    and "wo_store (sy_world t) = record_job (en_cfg env) (en_backend env) job owner p (wo_store (sy_world s))"
  shows "polls_ok env t"
proof (rule polls_okI)
  fix j o'
  assume ne: "fetch_job (en_cfg env) (en_backend env) j o' (wo_store (sy_world t)) \<noteq> JNull"
  from fetch_recorded [OF assms(1) ne [unfolded assms(5)]]
  show "\<exists>p. fetch_job (en_cfg env) (en_backend env) j o' (wo_store (sy_world t)) = JObj p \<and> shown t j o' p"
    using polls_okD [OF assms(2), of j o'] ne assms(3,4) unfolding assms(5) by auto
qed

lemma fetch_forgets:
  "forgets be b b' \<Longrightarrow> fetch_job cfg be j o' b' = fetch_job cfg be j o' b \<or> fetch_job cfg be j o' b' = JNull"
  unfolding forgets_def fetch_job_def by (metis (no_types, lifting) sum.case(1))

lemma polls_ok_forget:
  assumes "polls_ok env s" and "forgets (en_backend env) (wo_store (sy_world s)) (wo_store (sy_world t))"
    and "\<And>j o' q. shown s j o' q \<Longrightarrow> shown t j o' q"
  shows "polls_ok env t"
proof (rule polls_okI)
  fix j o'
  assume "fetch_job (en_cfg env) (en_backend env) j o' (wo_store (sy_world t)) \<noteq> JNull"
  with fetch_forgets [OF assms(2), of "en_cfg env" j o'] polls_okD [OF assms(1), of j o'] assms(3)
  show "\<exists>p. fetch_job (en_cfg env) (en_backend env) j o' (wo_store (sy_world t)) = JObj p \<and> shown t j o' p" by auto
qed

lemma forgets_refl: "forgets be b b"
  by (simp add: forgets_def)

section \<open>Every step keeps it\<close>

text \<open>What a poll may show, and what is still to be written, stays explained.\<close>

lemma shows_ok_step:
  assumes "sys_step env loads s t" and "shows_ok env s"
    and laws: "backend_laws (en_backend env)" and up: "\<forall>m. en_send env m = Inr ()"
  shows "shows_ok env t"
  using assms(1)
proof (cases rule: sys_step.cases)
  case (accept body names v jb job_id username)
  have j: "jb_id jb = job_id" "jb_client jb = username" using accept(3) by (simp_all add: scan_message_def)
  have mono: "shown s i o' q \<Longrightarrow> shown t i o' q" for i o' q by (auto simp: accept(1) shown_def)
  have "polls_ok env t"
    by (rule polls_ok_forget [OF _ _ mono]) (use assms(2) in \<open>simp_all add: accept(1) shows_ok_def forgets_refl\<close>)
  moreover have "\<forall>(i, o', p)\<in>set (sy_seeds t). shown t i o' p"
    using assms(2) mono j by (auto simp: accept(1) shows_ok_def) (auto simp: shown_def)
  ultimately show ?thesis by (simp add: shows_ok_def)
next
  case (seed xs job_id username p ys)
  have sh: "shown s job_id username p" using assms(2) seed(2) by (simp add: shows_ok_def)
  have eq: "shown t = shown s" by (simp add: seed(1) shown_def fun_eq_iff)
  have "polls_ok env t"
    by (rule polls_ok_write [OF laws, of s t job_id username p])
       (use assms(2) sh eq in \<open>simp_all add: shows_ok_def seed(1)\<close>)
  with assms(2) show ?thesis unfolding shows_ok_def eq by (simp add: seed(1,2))
next
  case (work xs jb n ys path dur w)
  let ?p = "verdict_on jb (fst (scan_attempt env jb path dur (sy_world s)))"
  have w: "reported env jb ?p (sy_world s) w" by (cases rule: scan_task_cases [OF work(4,3)]) simp_all
  have mono: "shown s i o' q \<Longrightarrow> shown t i o' q" for i o' q by (auto simp: work(1) shown_def)
  have "polls_ok env t"
    by (rule polls_ok_write [OF laws, of s t "jb_id jb" "jb_client jb" ?p])
       (use assms(2) mono w in \<open>auto simp: shows_ok_def work(1) reported_def stored_def shown_def\<close>)
  then show ?thesis using assms(2) mono by (auto simp: work(1) shows_ok_def)
next
  case (retry xs jb n ys path dur e w)
  have w: "wo_store w = wo_store (sy_world s)"
    by (cases rule: scan_task_cases [OF retry(4,3)]; use up in simp)
  have eq: "shown t = shown s" by (simp add: retry(1) shown_def fun_eq_iff)
  have "polls_ok env t"
    by (rule polls_ok_forget [of env s]) (use assms(2) eq w in \<open>simp_all add: shows_ok_def retry(1) forgets_refl\<close>)
  with assms(2) show ?thesis unfolding shows_ok_def eq by (simp add: retry(1))
next
  case (drift b net)
  have eq: "shown t = shown s" by (simp add: drift(1) shown_def fun_eq_iff)
  have "polls_ok env t"
    by (rule polls_ok_forget [of env s]) (use assms(2) eq drift in \<open>simp_all add: shows_ok_def\<close>)
  with assms(2) show ?thesis unfolding shows_ok_def eq by (simp add: drift(1))
qed

text \<open>What settles in a step has a terminal report, and exactly its callbacks are queued.\<close>

lemma step_settles:
  assumes "sys_step env loads s t" and "\<forall>m. en_send env m = Inr ()"
  obtains new where "sy_settled t = sy_settled s @ new" "wo_outbox (sy_world t) = wo_outbox (sy_world s) @ callbacks_of new"
    "list_all (\<lambda>(jb, p). terminal jb p) new" "wo_files (sy_world t) = wo_files (sy_world s)"
  using assms(1)
proof (cases rule: sys_step.cases)
  case (work xs jb n ys path dur w)
  let ?p = "verdict_on jb (fst (scan_attempt env jb path dur (sy_world s)))"
  have "reported env jb ?p (sy_world s) w" "wo_files w = wo_files (sy_world s)"
    by (cases rule: scan_task_cases [OF work(4,3)]; simp)+
  then show thesis using terminal_verdict_on by (intro that [of "[(jb, ?p)]"]) (simp_all add: work(1) callbacks_of_def reported_def)
next
  case (retry xs jb n ys path dur e w)
  have "wo_outbox w = wo_outbox (sy_world s)" "wo_files w = wo_files (sy_world s)"
    by (cases rule: scan_task_cases [OF retry(4,3)]; use assms(2) in simp)+
  then show thesis by (intro that [of "[]"]) (simp_all add: retry(1) callbacks_of_def)
qed (use that [of "[]"] in \<open>simp_all add: callbacks_of_def\<close>)

text \<open>No job is lost or doubled.\<close>

lemma step_accounts:
  assumes "sys_step env loads s t"
    and "mset (map fst (sy_queue s)) + mset (map fst (sy_settled s)) = mset (map fst (sy_accepted s))" and "distinct (job_ids s)"
  shows "mset (map fst (sy_queue t)) + mset (map fst (sy_settled t)) = mset (map fst (sy_accepted t))" and "distinct (job_ids t)"
proof -
  have "mset (map fst (sy_queue t)) + mset (map fst (sy_settled t)) = mset (map fst (sy_accepted t)) \<and> distinct (job_ids t)"
    using assms(1)
    by (cases rule: sys_step.cases) (use assms(2,3) in \<open>simp_all add: job_ids_def scan_message_def\<close>)
  then show "mset (map fst (sy_queue t)) + mset (map fst (sy_settled t)) = mset (map fst (sy_accepted t))" and "distinct (job_ids t)"
    by simp_all
qed

lemma step_accepted: "sys_step env loads s t \<Longrightarrow> set (sy_accepted s) \<subseteq> set (sy_accepted t)"
  by (erule sys_step.cases) auto

lemma callbacks_of_append [simp]: "callbacks_of (xs @ ys) = callbacks_of xs @ callbacks_of ys"
  by (simp add: callbacks_of_def)

lemma sys_ok_step:
  assumes "sys_step env loads s t" and "sys_ok env s"
    and laws: "backend_laws (en_backend env)" and up: "\<forall>m. en_send env m = Inr ()"
  shows "sys_ok env t"
proof -
  obtain new where "sy_settled t = sy_settled s @ new" "wo_outbox (sy_world t) = wo_outbox (sy_world s) @ callbacks_of new"
    "list_all (\<lambda>(jb, p). terminal jb p) new" "wo_files (sy_world t) = wo_files (sy_world s)"
    by (rule step_settles [OF assms(1) up])
  moreover have "shows_ok env t" using shows_ok_step [OF assms(1) _ laws up] assms(2) by (simp add: sys_ok_def)
  moreover note step_accounts [OF assms(1)]
  ultimately show ?thesis using assms(2) by (auto simp: sys_ok_def list_all_iff)
qed

lemma sys_ok_init: "sys_init env s \<Longrightarrow> sys_ok env s"
  by (simp add: sys_init_def sys_ok_def shows_ok_def polls_ok_def job_ids_def callbacks_of_def)

lemma reach_sys_ok:
  "sys_reach env loads s \<Longrightarrow> backend_laws (en_backend env) \<Longrightarrow> \<forall>m. en_send env m = Inr () \<Longrightarrow> sys_ok env s"
  by (induction rule: sys_reach.induct) (blast intro: sys_ok_init sys_ok_step)+


section \<open>A run in which the pending record comes last\<close>

definition race_env :: "(unit, (key_msg \<times> json) list) env" where
  "race_env = sample_env\<lparr>en_cfg := async_cfg\<rparr>"

definition race_job :: job where
  "race_job = scan_message ''j1'' ''drive'' [''exav'', ''clamav''] sample_async"

definition race_seed :: "string \<times> string \<times> payload" where
  "race_seed = (''j1'', ''drive'', pending_record ''j1'' sample_async)"

definition race_start :: "(unit, (key_msg \<times> json) list) system" where
  "race_start = \<lparr>sy_world = sample_world, sy_cache = [], sy_queue = [], sy_seeds = [], sy_accepted = [], sy_settled = []\<rparr>"

lemma race_fields [simp]:
  "en_cfg race_env = async_cfg" "en_net race_env = sample_net" "en_builders race_env = sample_builders"
  "jb_url race_job = ''https://drive.example/f''" "jb_webhook race_job = Some ''https://drive.example/hook''"
  "jb_encryption race_job = []" "jb_scanners race_job = [''exav'', ''clamav'']"
  by (simp_all add: race_env_def sample_env_def race_job_def scan_message_def sample_async_def)

lemma race_scan:
  "case fst (run_scanners async_cfg sample_builders [''exav'', ''clamav''] (\<lambda>_. Inr [0x50]) (\<lambda>_. 1)
      (jb_client race_job) ([], initial_metrics)) of Inr rep \<Rightarrow> \<not> all_errored rep | Inl e \<Rightarrow> False"
  by code_simp

lemma race_attempt:
  assumes "wo_net s = ()" and "wo_scan s = ([], initial_metrics)"
  shows "\<exists>rep. fst (scan_attempt race_env race_job path (\<lambda>_. 1) s) = Inr rep \<and> \<not> all_errored rep"
proof -
  have "fetch_file race_env race_job () = (Inr (), Some [0x50], ())"
    by (rule sample_fetches) (simp_all add: drive_urls_def async_cfg_def sample_cfg_def default_settings_def)
  then show ?thesis using race_scan by (auto simp: scan_attempt_fst assms split: sum.splits)
qed

lemma race_runs:
  assumes "wo_net s = ()" and "wo_scan s = ([], initial_metrics)"
  shows "\<exists>w. scan_task race_env race_job path (\<lambda>_. 1) msg s = (Inr (), w)"
proof -
  have "\<forall>m. en_send race_env m = Inr ()" by (simp add: race_env_def sample_env_def)
  then show ?thesis using race_attempt [OF assms] done_returns by metis
qed

lemma race_done: "jget (verdict_on race_job (fst (scan_attempt race_env race_job ''p'' (\<lambda>_. 1) sample_world))) ''status'' = JStr ''done''"
  using race_attempt [of sample_world "''p''"] by (auto simp: sample_world_def verdict_on_def result_gets)

lemma race_fetch:
  "fetch_job (en_cfg race_env) (en_backend race_env) j o'
     (record_job (en_cfg race_env) (en_backend race_env) j o' p b) = JObj p"
  by (simp add: race_env_def sample_env_def async_cfg_def record_job_def fetch_job_def enabled_def list_backend_def jget_def)

lemma race_accepted:
  "\<exists>c. sys_reach race_env sample_loads (race_start\<lparr>sy_cache := c, sy_queue := [(race_job, 0)], sy_seeds := [race_seed],
     sy_accepted := [(race_job, pending_record ''j1'' sample_async)]\<rparr>)"
proof -
  have v: "web_view race_start = sample_web"
    by (simp add: web_view_def race_start_def sample_world_def sample_web_def)
  have e: "en_cfg race_env = async_cfg" "en_builders race_env = sample_builders" "en_net race_env = sample_net"
    by (simp_all add: race_env_def sample_env_def)
  obtain w where a: "admit sample_loads (en_cfg race_env) (en_builders race_env) (nw_dns (en_net race_env)) sample_async (web_view race_start)
      = (Inr [''exav'', ''clamav''], w)"
    using sample_admitted unfolding v e
    by (cases "admit sample_loads async_cfg sample_builders (nw_dns sample_net) sample_async sample_web") simp
  have "sys_init race_env race_start"
    by (simp add: sys_init_def race_start_def sample_world_def race_env_def sample_env_def fetch_job_def list_backend_def)
  then have r: "sys_reach race_env sample_loads race_start" by (rule sys_reach.init)
  have "''j1'' \<notin> set (job_ids race_start)" by (simp add: job_ids_def race_start_def)
  from sys_reach.step [OF r sys_step.accept [OF a refl this, of "''drive''"]] show ?thesis
    by (auto simp: race_start_def race_job_def race_seed_def sample_world_def intro!: exI [of _ "ws_cache w"])
qed


lemma race_settled:
  "\<exists>s p. sys_reach race_env sample_loads s \<and> sy_queue s = [] \<and> sy_seeds s = [] \<and> sy_settled s = [(race_job, p)]
     \<and> jget p ''status'' = JStr ''done'' \<and> wo_outbox (sy_world s) = callbacks race_job p
     \<and> fetch_job (en_cfg race_env) (en_backend race_env) ''j1'' ''drive'' (wo_store (sy_world s))
         = JObj (pending_record ''j1'' sample_async)"
proof -
  obtain c where r1: "sys_reach race_env sample_loads (race_start\<lparr>sy_cache := c, sy_queue := [(race_job, 0)], sy_seeds := [race_seed],
     sy_accepted := [(race_job, pending_record ''j1'' sample_async)]\<rparr>)" (is "sys_reach _ _ ?s1")
    using race_accepted by blast
  let ?p = "verdict_on race_job (fst (scan_attempt race_env race_job ''p'' (\<lambda>_. 1) sample_world))"
  obtain w where w: "scan_task race_env race_job ''p'' (\<lambda>_. 1) (Some (int 0)) sample_world = (Inr (), w)"
    using race_runs [of sample_world "''p''"] by (auto simp: sample_world_def)
  have q: "sy_queue ?s1 = [] @ (race_job, 0) # []" "sy_world ?s1 = sample_world" by (simp_all add: race_start_def)
  let ?s2 = "?s1\<lparr>sy_queue := [] @ [], sy_world := w, sy_settled := sy_settled ?s1 @ [(race_job, ?p)]\<rparr>"
  have r2: "sys_reach race_env sample_loads ?s2"
    using sys_reach.step [OF r1 sys_step.work [OF q(1), of "''p''" race_env "\<lambda>_. 1" w]] w by (simp add: q(2))
  have sd: "sy_seeds ?s2 = [] @ (''j1'', ''drive'', pending_record ''j1'' sample_async) # []" by (simp add: race_seed_def)
  note r3 = sys_reach.step [OF r2 sys_step.seed [OF sd]]
  have out: "wo_outbox w = callbacks race_job ?p"
    by (cases rule: scan_task_cases [OF w]) (auto simp: reported_def sample_world_def)
  then show ?thesis
    using r3 race_done by - (rule exI, rule exI [of _ ?p], rule conjI, assumption, simp add: race_fetch [simplified] race_start_def)
qed

lemma race_callbacks: "callbacks race_job p = [(''https://drive.example/hook'', serialize p v2)]" "jb_id race_job = ''j1''"
  by (simp_all add: callbacks_def race_job_def scan_message_def sample_async_def of_path_def prefixes_def starts_with_def)

text \<open>The pending record can overtake the result. There is a run in which a worker finishes a job, its
  report done and its callback queued, before the web handler that accepted it stores the pending
  record; when everything has come to rest, a poll still shows the job as pending (and will until
  the record expires).\<close>

theorem pending_can_overwrite_the_result:
  "\<exists>s. sys_reach race_env sample_loads s \<and> sy_queue s = [] \<and> sy_seeds s = []
     \<and> (\<exists>jb p. (jb, p) \<in> set (sy_settled s) \<and> jb_id jb = ''j1'' \<and> jget p ''status'' = JStr ''done'' \<and> wo_outbox (sy_world s) \<noteq> [])
     \<and> fetch_job (en_cfg race_env) (en_backend race_env) ''j1'' ''drive'' (wo_store (sy_world s))
         = JObj (pending_record ''j1'' sample_async)"
proof -
  obtain s p where s: "sys_reach race_env sample_loads s" "sy_queue s = []" "sy_seeds s = []" "sy_settled s = [(race_job, p)]"
    "jget p ''status'' = JStr ''done''" "wo_outbox (sy_world s) = callbacks race_job p"
    "fetch_job (en_cfg race_env) (en_backend race_env) ''j1'' ''drive'' (wo_store (sy_world s))
       = JObj (pending_record ''j1'' sample_async)"
    using race_settled by blast
  then show ?thesis by (intro exI [of _ s]) (simp add: race_callbacks)
qed

end
