(* ===== verification/Result_Shapes.thy ===== *)
theory Result_Shapes
  imports Async_System
begin

text \<open>
  The shape of what a caller is given for a job: the pending record and the four shapes of a result
  that \<open>docs/api.md\<close> lists, as predicates on the canonical payload, and the proof that nothing else
  is ever stored or sent.
\<close>

section \<open>The documented shapes\<close>

text \<open>One of the five words, as a JSON value.\<close>

definition is_word :: "json \<Rightarrow> bool" where
  "is_word v \<longleftrightarrow> v \<in> {JStr ''clean'', JStr ''partial'', JStr ''error'', JStr ''flagged'', JStr ''malware''}"

definition optional_score :: "json \<Rightarrow> bool" where
  "optional_score v \<longleftrightarrow> v \<in> insert JNull (range JFloat)"

definition verdict_object :: "json \<Rightarrow> bool" where
  "verdict_object v \<longleftrightarrow>
     (case v of
        JObj d \<Rightarrow> dict_ok d \<and> fst ` set d \<subseteq> {''kind'', ''score'', ''reason'', ''location''}
          \<and> is_word (jget d ''kind'') \<and> optional_score (jget d ''score'')
      | _ \<Rightarrow> False)"

definition result_object :: "json \<Rightarrow> bool" where
  "result_object v \<longleftrightarrow>
     (case v of
        JObj d \<Rightarrow> dict_ok d
          \<and> fst ` set d \<subseteq> {''scanner'', ''category'', ''kind'', ''time'', ''advisory'', ''score'', ''reason'', ''location''}
          \<and> jget d ''scanner'' \<in> range JStr \<and> jget d ''category'' \<in> range JStr
          \<and> is_word (jget d ''kind'') \<and> jget d ''time'' \<in> range JFloat
          \<and> jget d ''advisory'' \<in> {JNull, JBool True} \<and> optional_score (jget d ''score'')
      | _ \<Rightarrow> False)"

text \<open>The report in a payload: an entry in \<open>verdicts\<close> for every category a scanner of \<open>scanners\<close> has.\<close>

definition member_of :: "string \<Rightarrow> json \<Rightarrow> json" where
  "member_of k v = (case v of JObj d \<Rightarrow> jget d k | _ \<Rightarrow> JNull)"

definition report_part :: "payload \<Rightarrow> bool" where
  "report_part p \<longleftrightarrow>
     (\<exists>vs rs. jget p ''verdicts'' = JObj vs \<and> jget p ''scanners'' = JList rs
        \<and> dict_ok vs \<and> list_all (verdict_object \<circ> snd) vs \<and> list_all result_object rs
        \<and> JStr ` fst ` set vs = member_of ''category'' ` set rs)"

definition pending_shape :: "job \<Rightarrow> payload \<Rightarrow> bool" where
  "pending_shape jb p \<longleftrightarrow>
     p = [(''job_id'', JStr (jb_id jb)), (''status'', JStr ''pending''), (''filename'', jopt (jb_filename jb)),
          (''metadata'', jb_metadata jb)]"

definition done_shape :: "payload \<Rightarrow> bool" where
  "done_shape p \<longleftrightarrow>
     fst ` set p = {''job_id'', ''filename'', ''metadata'', ''verdicts'', ''scanners'', ''status''}
     \<and> jget p ''status'' = JStr ''done'' \<and> report_part p"

text \<open>The job failed because every deciding engine did: the report is attached, its verdicts are errors.\<close>

definition outage_shape :: "payload \<Rightarrow> bool" where
  "outage_shape p \<longleftrightarrow>
     fst ` set p = {''job_id'', ''filename'', ''metadata'', ''verdicts'', ''scanners'', ''status'', ''error_kind'', ''error''}
     \<and> jget p ''status'' = JStr ''error'' \<and> jget p ''error_kind'' = JStr ''transient''
     \<and> jget p ''error'' = JStr ''all scanners failed'' \<and> report_part p
     \<and> (case jget p ''verdicts'' of JObj vs \<Rightarrow> list_all (\<lambda>(c, v). member_of ''kind'' v = JStr ''error'') vs | _ \<Rightarrow> False)"

text \<open>The job failed before a report was there.\<close>

definition failed_shape :: "payload \<Rightarrow> bool" where
  "failed_shape p \<longleftrightarrow>
     fst ` set p = {''job_id'', ''filename'', ''metadata'', ''status'', ''error_kind'', ''error''}
     \<and> jget p ''status'' = JStr ''error'' \<and> jget p ''error_kind'' \<in> {JStr ''file'', JStr ''transient''}
     \<and> jget p ''error'' \<in> range JStr"

definition documented :: "job \<Rightarrow> payload \<Rightarrow> bool" where
  "documented jb p \<longleftrightarrow>
     dict_ok p \<and> jget p ''job_id'' = JStr (jb_id jb) \<and> jget p ''filename'' = jopt (jb_filename jb)
     \<and> jget p ''metadata'' = jb_metadata jb \<and> (done_shape p \<or> outage_shape p \<or> failed_shape p)"

section \<open>Reports and records\<close>

lemma is_word_kind [simp]: "is_word (JStr (kind_str k))"
  by (cases k) (simp_all add: is_word_def)

lemma optional_score_simps [simp]: "optional_score JNull" "optional_score (JFloat q)"
  by (simp_all add: optional_score_def)

lemma verdict_object_as_dict: "verdict_object (JObj (verdict_as_dict v))"
  by (simp add: verdict_object_def jget_verdict split: option.split)
     (auto simp: verdict_as_dict_def dict_ok_def split: option.splits)

lemma result_object_as_dict: "result_object (JObj (result_as_dict r))"
  by (auto simp: result_object_def result_as_dict_def dict_ok_def jget_def split: option.splits)

lemma report_part_as_dict:
  assumes "jget p ''verdicts'' = JObj (verdicts_json rs)" and "jget p ''scanners'' = JList (map (JObj \<circ> result_as_dict) rs)"
  shows "report_part p"
proof -
  have "dict_ok (verdicts_json rs)" by (simp add: dict_ok_def keys_verdicts_json keys_verdicts)
  moreover have "list_all (verdict_object \<circ> snd) (verdicts_json rs)"
    by (auto simp: list_all_iff verdicts_json_def verdict_object_as_dict)
  moreover have "fst ` set (verdicts_json rs) = sr_category ` set rs"
    using arg_cong [where f = set, OF keys_verdicts_json [of rs]] arg_cong [where f = set, OF keys_verdicts [of rs]]
    by simp
  moreover have "member_of ''category'' (JObj (result_as_dict r)) = JStr (sr_category r)" for r
    by (simp add: member_of_def result_as_dict_def jget_def)
  ultimately show ?thesis
    using assms
    by (auto simp: report_part_def list_all_iff result_object_as_dict image_image intro!: exI [of _ "verdicts_json rs"])
qed

text \<open>When the report counts as an outage, every axis says so.\<close>

lemma reduce_outage:
  assumes "\<not> detected rs" and "rs \<noteq> []" and "sr_kind ` set (deciding rs) \<subseteq> {Error}"
  shows "cv_kind (reduce_category rs) = Error"
proof -
  have f: "filter (\<lambda>r. sr_kind r = Flagged) rs = []" "filter is_detection rs = []"
    using assms(1) by (auto simp: detected_def is_detection_def filter_empty_conv)
  obtain r where r: "r \<in> set (deciding rs)" using assms(2) by (cases "deciding rs") auto
  with assms(3) have "incomplete r" by (auto simp: incomplete_def)
  with r have "blocker_of rs \<noteq> None" by (auto simp: blocker_of_None_iff)
  then obtain b where b: "blocker_of rs = Some b" by blast
  have "sr_kind b = Error" using assms(3) blocker_of_SomeD(1) [OF b] by auto
  with f b show ?thesis by (simp add: reduce_category_def Let_def)
qed

lemma outage_verdicts:
  assumes "all_errored rs" and "(c, v) \<in> set (verdicts rs)"
  shows "cv_kind v = Error"
proof -
  have "distinct (map fst (verdicts rs))" by (simp add: keys_verdicts)
  with assms(2) have "map_of (verdicts rs) c = Some v" by simp
  then have v: "v = reduce_category (results_of c rs)" "results_of c rs \<noteq> []"
    by (auto simp: map_of_verdicts split: if_splits)
  have "\<not> detected (results_of c rs)" using assms(1) by (auto simp: all_errored_iff detected_def results_of_def)
  with assms(1) v show ?thesis by (simp add: all_errored_iff reduce_outage)
qed

text \<open>Each record the scan task settles a job with has one of the shapes.\<close>

lemma keys_set: "fst ` set (dict_set k v d) = insert k (fst ` set d)"
  unfolding dict_set_def by (induction d) auto

lemma keys_update: "fst ` set (dict_update d e) = fst ` set e \<union> fst ` set d"
  unfolding dict_update_def
proof (induction e arbitrary: d)
  case (Cons x e)
  then show ?case by (cases x) (simp only: foldl_Cons prod.case Cons.IH keys_set, auto)
qed simp

lemma keys_initial: "fst ` set (initial_result jb) = {''job_id'', ''filename'', ''metadata''}"
  by (simp add: initial_result_def)

lemma initial_gets:
  "jget (initial_result jb) ''filename'' = jopt (jb_filename jb)"
  "jget (initial_result jb) ''metadata'' = jb_metadata jb"
  by (simp_all add: initial_result_def jget_def)

lemma jget_update: "jget (dict_update d e) k = (case map_of (rev e) k of Some v \<Rightarrow> v | None \<Rightarrow> jget d k)"
  by (simp add: jget_def map_of_dict_update split: option.split)

lemma failed_documented:
  assumes "k = ''file'' \<or> k = ''transient''"
  shows "documented jb (error_result jb k m)"
proof -
  have "failed_shape (error_result jb k m)"
    using assms by (auto simp: failed_shape_def result_gets error_result_def keys_update keys_initial)
       (simp_all add: jget_update error_status_def)
  moreover have "dict_ok (error_result jb k m)"
    by (simp add: error_result_def dict_ok_update initial_result_gets)
  moreover have "jget (error_result jb k m) ''filename'' = jopt (jb_filename jb)"
    "jget (error_result jb k m) ''metadata'' = jb_metadata jb"
    by (simp_all add: error_result_def jget_update initial_gets)
  ultimately show ?thesis by (simp add: documented_def result_gets)
qed

lemma report_documented: "documented jb (report_result jb rep (all_errored rep))"
proof -
  let ?p = "report_result jb rep (all_errored rep)"
  have s: "jget ?p ''scanners'' = JList (map (JObj \<circ> result_as_dict) rep)"
    by (simp add: report_result_def jget_update report_as_dict_def)
  note part = report_part_as_dict [OF report_result_gets(3) this]
  have keys: "fst ` set ?p = {''job_id'', ''filename'', ''metadata'', ''verdicts'', ''scanners'', ''status''}
      \<union> (if all_errored rep then {''error_kind'', ''error''} else {})"
    by (auto simp: report_result_def keys_update keys_initial report_as_dict_def)
  have "list_all (\<lambda>(c, v). member_of ''kind'' v = JStr ''error'') (verdicts_json rep)" if "all_errored rep"
    using outage_verdicts [OF that] by (auto simp: list_all_iff verdicts_json_def member_of_def jget_verdict)
  then have "done_shape ?p \<or> outage_shape ?p"
    using part keys by (cases "all_errored rep") (simp_all add: done_shape_def outage_shape_def result_gets insert_commute)
  moreover have "dict_ok ?p" by (simp add: report_result_def dict_ok_update initial_result_gets)
  moreover have "jget ?p ''filename'' = jopt (jb_filename jb)" "jget ?p ''metadata'' = jb_metadata jb"
    by (simp_all add: report_result_def jget_update initial_gets report_as_dict_def)
  ultimately show ?thesis by (auto simp: documented_def result_gets)
qed

lemma verdict_on_documented: "documented jb (verdict_on jb r)"
  using failed_documented [OF told_kind] report_documented by (simp add: verdict_on_def split: sum.split)

section \<open>Nothing else is ever stored or sent\<close>

definition shapes_ok :: "('w, 'b) system \<Rightarrow> bool" where
  "shapes_ok s \<longleftrightarrow>
     list_all (\<lambda>(jb, p). pending_shape jb p) (sy_accepted s) \<and> list_all (\<lambda>(jb, p). documented jb p) (sy_settled s)"

lemma shapes_ok_step: "sys_step env loads s t \<Longrightarrow> shapes_ok s \<Longrightarrow> shapes_ok t"
  by (cases rule: sys_step.cases, assumption)
     (simp_all add: shapes_ok_def verdict_on_documented pending_shape_def pending_record_def scan_message_def pending_def)

lemma reach_shapes_ok: "sys_reach env loads s \<Longrightarrow> shapes_ok s"
proof (induction rule: sys_reach.induct)
  case (init s)
  then show ?case by (simp add: shapes_ok_def sys_init_def)
qed (rule shapes_ok_step)

text \<open>C20: Every record a caller can be given has a documented shape. However the service runs, a poll
  shows nothing, the pending record of the caller's own job, or a result of one of the shapes of
  the API documentation with the job's own id, file name and metadata: done with a report, failed
  with a report all of whose verdicts are errors, or failed without a report and with a cause; its
  verdicts and scanner results use the five words and the documented keys. Every callback body is
  such a result, in the version the job was submitted under.\<close>

theorem every_record_has_a_documented_shape:
  assumes "sys_reach env loads s" and "backend_laws (en_backend env)" and "\<forall>m. en_send env m = Inr ()"
  shows "(\<forall>j o'. fetch_job (en_cfg env) (en_backend env) j o' (wo_store (sy_world s))
      \<in> insert JNull (JObj ` {p. \<exists>jb. jb_id jb = j \<and> jb_client jb = o' \<and> (pending_shape jb p \<or> documented jb p)}))
    \<and> wo_outbox (sy_world s) = concat (map (\<lambda>(jb, p). callbacks jb p) (sy_settled s))
    \<and> list_all (\<lambda>(jb, p). documented jb p) (sy_settled s)"
proof -
  note ok = reach_sys_ok [OF assms] reach_shapes_ok [OF assms(1)]
  have "pending_shape jb p \<or> documented jb p" if "(jb, p) \<in> set (sy_accepted s) \<or> (jb, p) \<in> set (sy_settled s)" for jb p
    using ok(2) that by (auto simp: shapes_ok_def list_all_iff)
  then have "Collect (shown s j o') \<subseteq> {p. \<exists>jb. jb_id jb = j \<and> jb_client jb = o' \<and> (pending_shape jb p \<or> documented jb p)}"
    for j o' unfolding shown_def by blast
  with ok show ?thesis unfolding sys_ok_def shows_ok_def polls_ok_def shapes_ok_def callbacks_of_def by blast
qed

theorem every_record_has_a_documented_shape_witness:
  "\<exists>s jb p. sys_reach race_env sample_loads s \<and> (jb, p) \<in> set (sy_settled s) \<and> jb_id jb = ''j1'' \<and> documented jb p"
proof -
  obtain s p where s: "sys_reach race_env sample_loads s" "sy_settled s = [(race_job, p)]"
    using race_settled by blast
  have "backend_laws (en_backend race_env)" "\<forall>m. en_send race_env m = Inr ()"
    by (simp_all add: race_env_def sample_env_def list_backend_laws)
  note every_record_has_a_documented_shape [OF s(1) this, THEN conjunct2, THEN conjunct2]
  with s have "documented race_job p" by simp
  with s show ?thesis by (intro exI [of _ s] exI [of _ race_job] exI [of _ p]) (simp add: race_callbacks)
qed

end
