(* ===== verification/Async_Liveness.thy ===== *)
theory Async_Liveness
  imports Async_System
begin

text \<open>
  That the asynchronous path makes progress: a queued job can always be run, a run settles it or
  uses up one of its tries, and from every reachable state the service can come to rest with
  every accepted job settled. The measure is the number of runs the queued jobs have left.
\<close>

definition runs_left :: "nat \<Rightarrow> nat" where
  "runs_left n = Suc (nat max_retries) - n"

definition work_left :: "('w, 'b) system \<Rightarrow> nat" where
  "work_left s = sum_list (map (runs_left \<circ> snd) (sy_queue s))"

definition tries_ok :: "('w, 'b) system \<Rightarrow> bool" where
  "tries_ok s \<longleftrightarrow> list_all (\<lambda>(jb, n). n \<le> nat max_retries) (sy_queue s)"

lemma runs_left_Suc: "n \<le> nat max_retries \<Longrightarrow> Suc (runs_left (Suc n)) = runs_left n"
  by (simp add: runs_left_def)

lemma runs_left_pos: "n \<le> nat max_retries \<Longrightarrow> 0 < runs_left n"
  by (simp add: runs_left_def)

text \<open>A run that raises has a retry left; the last run never raises.\<close>

lemma raised_has_retry:
  assumes "scan_task env jb path dur (Some (int n)) w = (Inl e, w')" and "path \<notin> fst ` set (wo_files w)"
    and "\<forall>m. en_send env m = Inr ()"
  shows "n < nat max_retries"
  by (cases rule: scan_task_cases [OF assms(1,2)]) (use assms(3) in \<open>auto simp: retries_exhausted_def\<close>)

lemma tries_ok_step:
  assumes "sys_step env loads s t" and "tries_ok s" and "\<forall>m. en_send env m = Inr ()"
  shows "tries_ok t"
  using assms(1)
proof (cases rule: sys_step.cases)
  case (retry xs jb n ys path dur e w)
  with raised_has_retry [OF retry(4,3) assms(3)] assms(2) show ?thesis by (simp add: tries_ok_def)
qed (use assms(2) in \<open>simp_all add: tries_ok_def\<close>)

lemma reach_tries_ok:
  "sys_reach env loads s \<Longrightarrow> \<forall>m. en_send env m = Inr () \<Longrightarrow> tries_ok s"
proof (induction rule: sys_reach.induct)
  case (init s)
  then show ?case by (simp add: tries_ok_def sys_init_def)
qed (blast intro: tries_ok_step)

text \<open>No step adds work but the acceptance of a job, and whatever touches the queue otherwise takes
  some away.\<close>

lemma step_uses_up:
  assumes "sys_step env loads s t" and "tries_ok s"
  shows "sy_accepted t \<noteq> sy_accepted s \<or> sy_queue t = sy_queue s \<or> work_left t < work_left s"
  using assms(1)
proof (cases rule: sys_step.cases)
  case (work xs jb n ys path dur w)
  then have "0 < runs_left n" using assms(2) by (simp add: tries_ok_def runs_left_pos)
  then show ?thesis by (simp add: work(1,2) work_left_def)
next
  case (retry xs jb n ys path dur e w)
  then have "Suc (runs_left (Suc n)) = runs_left n" using assms(2) by (simp add: tries_ok_def runs_left_Suc)
  then show ?thesis by (simp add: retry(1,2) work_left_def)
qed simp_all

section \<open>The way to rest\<close>

lemma run_first:
  assumes "sy_queue s = (jb, n) # ys" and "wo_files (sy_world s) = []"
  obtains t where "sys_step env loads s t" "sy_queue t \<noteq> sy_queue s" "sy_accepted t = sy_accepted s"
    "sy_seeds t = sy_seeds s"
proof -
  have q: "sy_queue s = [] @ (jb, n) # ys" using assms(1) by simp
  have fresh: "''p'' \<notin> fst ` set (wo_files (sy_world s))" using assms(2) by simp
  obtain r w where r: "scan_task env jb ''p'' (\<lambda>_. 1) (Some (int n)) (sy_world s) = (r, w)"
    by (cases "scan_task env jb ''p'' (\<lambda>_. 1) (Some (int n)) (sy_world s)")
  show thesis
  proof (cases r)
    case (Inl e)
    have "mset (ys @ [(jb, Suc n)]) \<noteq> mset ((jb, n) # ys)" by simp
    then have "ys @ [(jb, Suc n)] \<noteq> (jb, n) # ys" by metis
    then show thesis
      using that [OF sys_step.retry [OF q fresh r [unfolded Inl], of loads]] by (simp add: assms(1))
  next
    case (Inr u)
    then have "r = Inr ()" by simp
    from sys_step.work [OF q fresh r [unfolded this], of loads] show thesis
      by (rule that) (simp_all add: assms(1))
  qed
qed

lemma comes_to_rest:
  assumes "sys_reach env loads s" and "backend_laws (en_backend env)" and "\<forall>m. en_send env m = Inr ()"
  shows "\<exists>t. (sys_step env loads)\<^sup>*\<^sup>* s t \<and> sy_accepted t = sy_accepted s \<and> sy_queue t = [] \<and> sy_seeds t = []"
  using assms(1)
proof (induction "work_left s + length (sy_seeds s)" arbitrary: s rule: less_induct)
  case less
  note ok = reach_sys_ok [OF less.prems assms(2,3)] and tries = reach_tries_ok [OF less.prems assms(3)]
  have onward: ?case
    if t: "sys_step env loads s t" "sy_accepted t = sy_accepted s"
      "work_left t + length (sy_seeds t) < work_left s + length (sy_seeds s)" for t
  proof -
    from less.hyps [OF t(3) sys_reach.step [OF less.prems t(1)]] obtain u
      where "(sys_step env loads)\<^sup>*\<^sup>* t u" "sy_accepted u = sy_accepted t" "sy_queue u = []" "sy_seeds u = []" by blast
    with t(1,2) show ?thesis by (metis converse_rtranclp_into_rtranclp)
  qed
  show ?case
  proof (cases "sy_queue s")
    case (Cons e ys)
    then obtain jb n where q: "sy_queue s = (jb, n) # ys" by (cases e) simp
    have "wo_files (sy_world s) = []" using ok by (simp add: sys_ok_def)
    then obtain t where t: "sys_step env loads s t" "sy_queue t \<noteq> sy_queue s" "sy_accepted t = sy_accepted s"
      "sy_seeds t = sy_seeds s" using run_first [OF q] by blast
    with step_uses_up [OF t(1) tries] show ?thesis by (intro onward [of t]) simp_all
  next
    case Nil
    show ?thesis
    proof (cases "sy_seeds s")
      case (Cons e ys)
      obtain j o' p where e: "e = (j, o', p)" by (cases e)
      have q: "sy_seeds s = [] @ (j, o', p) # ys" by (simp add: Cons e)
      from sys_step.seed [OF q, of env loads] show ?thesis
        by (rule onward) (simp_all add: work_left_def q)
    qed (use Nil in blast)
  qed
qed



end
