(* ===== verification/Callbacks.thy ===== *)
theory Callbacks
  imports Result_Shapes
begin

text \<open>
  The delivery of the callbacks, next to the asynchronous path that queues them: the messages
  \<open>scan_task\<close> enqueues for \<open>deliver_webhook\<close> (\<open>src/tasks.py\<close>) are taken by workers in any order, an
  attempt that raises is repeated until the actor's \<open>max_retries\<close> are used up, and then the message
  is dead-lettered. Every POST that leaves the service is kept in a history.
\<close>

text \<open>What a delivery uses besides the environment of the tasks: the token library, the signing key,
  the compact serialisation, and the network with a request's body and headers.\<close>

record 'w sender =
  sd_lib :: jwt_lib
  sd_key :: "raw_key option"
  sd_dumps :: "payload \<Rightarrow> 8 word list"
  sd_post :: "8 word list \<Rightarrow> (string, string) dict \<Rightarrow> ('w, string) network"

record post =
  po_body :: "8 word list"
  po_headers :: "(string, string) dict"
  po_conn :: conn

record ('w, 'b) delivery =
  dl_sys :: "('w, 'b) system"
  dl_queue :: "((string \<times> payload) \<times> nat) list"
  dl_done :: "(string \<times> payload) list"
  dl_dead :: "(string \<times> payload) list"
  dl_posts :: "post list"

text \<open>The network of the session with a record of what goes out over it: every connection, with the
  body and the headers the session was given for it.\<close>

definition recording ::
    "(8 word list \<Rightarrow> (string, string) dict \<Rightarrow> ('w, string) network) \<Rightarrow> 8 word list \<Rightarrow> (string, string) dict
      \<Rightarrow> ('w \<times> post list, string) network" where
  "recording net body headers =
     \<lparr>nw_dns = (\<lambda>h (w, ps). case nw_dns (net body headers) h w of (r, w') \<Rightarrow> (r, (w', ps))),
      nw_http = (\<lambda>c (w, ps). case nw_http (net body headers) c w of
        (r, w') \<Rightarrow> (r, (w', ps @ [\<lparr>po_body = body, po_headers = headers, po_conn = c\<rparr>]))),
      nw_urljoin = nw_urljoin (net body headers)\<rparr>"

text \<open>One run of the actor over that network, and the POSTs it made.\<close>

definition run_webhook ::
    "settings \<Rightarrow> 'w sender \<Rightarrow> string \<Rightarrow> payload \<Rightarrow> rat \<Rightarrow> 'w \<Rightarrow> unit result \<times> post list \<times> 'w" where
  "run_webhook cfg sd url p now w =
     (case deliver_webhook cfg (sd_lib sd) (sd_key sd) (sd_dumps sd) (recording (sd_post sd)) url p now (w, []) of
        (r, cs, w', ps) \<Rightarrow> (r, ps, w'))"

definition set_net :: "'w \<Rightarrow> ('w, 'b) system \<Rightarrow> ('w, 'b) system" where
  "set_net w s = s\<lparr>sy_world := (sy_world s)\<lparr>wo_net := w\<rparr>\<rparr>"

definition outbox :: "('w, 'b) system \<Rightarrow> (string \<times> payload) list" where
  "outbox s = wo_outbox (sy_world s)"

inductive dlv_step ::
    "('w, 'b) env \<Rightarrow> loads \<Rightarrow> 'w sender \<Rightarrow> ('w, 'b) delivery \<Rightarrow> ('w, 'b) delivery \<Rightarrow> bool" for env loads sd where
  service: "sys_step env loads (dl_sys d) s \<Longrightarrow>
     dlv_step env loads sd d (d\<lparr>dl_sys := s,
       dl_queue := dl_queue d @ map (\<lambda>m. (m, 0)) (drop (length (outbox (dl_sys d))) (outbox s))\<rparr>)"
| delivered: "dl_queue d = xs @ ((url, p), n) # ys \<Longrightarrow>
     run_webhook (en_cfg env) sd url p now (wo_net (sy_world (dl_sys d))) = (Inr (), ps, w) \<Longrightarrow>
     dlv_step env loads sd d (d\<lparr>dl_sys := set_net w (dl_sys d), dl_queue := xs @ ys, dl_done := dl_done d @ [(url, p)],
       dl_posts := dl_posts d @ ps\<rparr>)"
| again: "dl_queue d = xs @ ((url, p), n) # ys \<Longrightarrow>
     run_webhook (en_cfg env) sd url p now (wo_net (sy_world (dl_sys d))) = (Inl e, ps, w) \<Longrightarrow>
     int n < cfg_webhook_max_attempts (en_cfg env) \<Longrightarrow>
     dlv_step env loads sd d (d\<lparr>dl_sys := set_net w (dl_sys d), dl_queue := xs @ ys @ [((url, p), Suc n)],
       dl_posts := dl_posts d @ ps\<rparr>)"
| buried: "dl_queue d = xs @ ((url, p), n) # ys \<Longrightarrow>
     run_webhook (en_cfg env) sd url p now (wo_net (sy_world (dl_sys d))) = (Inl e, ps, w) \<Longrightarrow>
     cfg_webhook_max_attempts (en_cfg env) \<le> int n \<Longrightarrow>
     dlv_step env loads sd d (d\<lparr>dl_sys := set_net w (dl_sys d), dl_queue := xs @ ys, dl_dead := dl_dead d @ [(url, p)],
       dl_posts := dl_posts d @ ps\<rparr>)"

inductive dlv_reach ::
    "('w, 'b) env \<Rightarrow> loads \<Rightarrow> 'w sender \<Rightarrow> ('w, 'b) delivery \<Rightarrow> bool" for env loads sd where
  init: "sys_init env s \<Longrightarrow>
     dlv_reach env loads sd \<lparr>dl_sys = s, dl_queue = [], dl_done = [], dl_dead = [], dl_posts = []\<rparr>"
| step: "dlv_reach env loads sd d \<Longrightarrow> dlv_step env loads sd d d' \<Longrightarrow> dlv_reach env loads sd d'"

section \<open>The service inside\<close>

lemma set_net_drift: "sys_step env loads s (set_net w s)"
proof -
  have "sys_step env loads s (s\<lparr>sy_world := (sy_world s)\<lparr>wo_net := w, wo_store := wo_store (sy_world s)\<rparr>\<rparr>)"
    by (rule sys_step.drift) (rule forgets_refl)
  then show ?thesis by (simp add: set_net_def)
qed

lemma outbox_set_net [simp]: "outbox (set_net w s) = outbox s"
  by (simp add: outbox_def set_net_def)

lemma settled_set_net [simp]: "sy_settled (set_net w s) = sy_settled s"
  by (simp add: set_net_def)

lemma dlv_step_sys: "dlv_step env loads sd d d' \<Longrightarrow> sys_step env loads (dl_sys d) (dl_sys d')"
  by (erule dlv_step.cases) (simp_all add: set_net_drift)

lemma dlv_reach_sys: "dlv_reach env loads sd d \<Longrightarrow> sys_reach env loads (dl_sys d)"
proof (induction rule: dlv_reach.induct)
  case (step d d')
  from step.IH dlv_step_sys [OF step.hyps(2)] show ?case by (rule sys_reach.step)
qed (simp add: sys_reach.init)

text \<open>The queue of callbacks only grows, at its end.\<close>

lemma outbox_grows:
  assumes "sys_step env loads s t" and "\<forall>m. en_send env m = Inr ()"
  shows "\<exists>ms. outbox t = outbox s @ ms"
  by (rule step_settles [OF assms]) (auto simp: outbox_def)

section \<open>The record\<close>

text \<open>Recording changes nothing, and records the connections in their order.\<close>

lemma validate_recorded:
  "validate_hostname cfg (nw_dns (recording net body headers)) host lit (w, ps) =
     (case validate_hostname cfg (nw_dns (net body headers)) host lit w of (r, w') \<Rightarrow> (r, (w', ps)))"
  by (auto simp: validate_hostname_def recording_def Let_def split: option.split prod.split sum.split)

lemma pin_recorded:
  "pin cfg (nw_dns (recording net body headers)) http_method url (w, ps) =
     (case pin cfg (nw_dns (net body headers)) http_method url w of (r, w') \<Rightarrow> (r, (w', ps)))"
  by (auto simp: pin_def validate_and_unpack_def validate_recorded split: prod.split sum.split)

lemma request_recorded:
  "request_with_redirects cfg (recording net body headers) http_method False url (w, ps) =
     (case request_with_redirects cfg (net body headers) http_method False url w of
        (r, cs, w') \<Rightarrow> (r, cs, (w', ps @ map (\<lambda>c. \<lparr>po_body = body, po_headers = headers, po_conn = c\<rparr>) cs)))"
proof -
  have http: "nw_http (recording net body headers) c (w, ps) = (case nw_http (net body headers) c w of
      (r, w') \<Rightarrow> (r, (w', ps @ [\<lparr>po_body = body, po_headers = headers, po_conn = c\<rparr>])))" for c w ps
    by (simp add: recording_def)
  have six: "max_redirects + 1 = Suc 5" by (simp add: max_redirects_def)
  show ?thesis
    unfolding request_with_redirects_def six hops_unfollowed pin_recorded
    by (auto simp: http split: prod.split sum.split)
qed

lemma run_webhook_eq:
  obtains token where "sign_webhook (sd_lib sd) cfg (sd_key sd) url (sd_dumps sd p) now = Inr token"
    "run_webhook cfg sd url p now w =
       (case deliver_webhook cfg (sd_lib sd) (sd_key sd) (sd_dumps sd) (sd_post sd) url p now w of
          (r, cs, w') \<Rightarrow> (r, map (\<lambda>c. \<lparr>po_body = sd_dumps sd p, po_headers = webhook_headers token, po_conn = c\<rparr>) cs, w'))"
proof -
  obtain token where t: "sign_webhook (sd_lib sd) cfg (sd_key sd) url (sd_dumps sd p) now = Inr token"
    using sign_webhook_total by blast
  show thesis
    by (rule that [OF t])
       (simp add: run_webhook_def deliver_webhook_def t request_recorded split: prod.split)
qed

text \<open>A connection made for a URL: its path and query over the validated address, its host in the Host
  header and as the TLS name.\<close>

definition connects_to :: "string \<Rightarrow> conn \<Rightarrow> bool" where
  "connects_to url c \<longleftrightarrow>
     (case urlparse url of
        Inl _ \<Rightarrow> False
      | Inr u \<Rightarrow> starts_with (hostname u) (cn_host c)
          \<and> cn_url c = urlunparse (u\<lparr>u_netloc := ip_netloc (cn_ip c) (cn_port c)\<rparr>)
          \<and> cn_tls_name c = (if u_scheme u = ''https'' then Some (hostname u) else None))"

lemma pin_connects: "pin cfg dns http_method url w = (Inr c, w') \<Longrightarrow> connects_to url c"
  by (auto simp: pin_def validate_and_unpack_def pinned_conn_def connects_to_def rbind_Inr_iff starts_with_iff
      split: prod.splits sum.splits if_splits option.splits)

lemma unfollowed_connects:
  assumes "request_with_redirects cfg nw http_method False url w = (r, cs, w')"
  shows "list_all (connects_to url) cs"
proof -
  have six: "max_redirects + 1 = Suc 5" by (simp add: max_redirects_def)
  from assms show ?thesis
    unfolding request_with_redirects_def six hops_unfollowed
    by (auto split: prod.splits sum.splits dest: pin_connects)
qed

section \<open>What leaves the service\<close>

text \<open>A POST that is the signed delivery of one of the messages.\<close>

definition signed_post :: "('w, 'b) env \<Rightarrow> 'w sender \<Rightarrow> string \<Rightarrow> payload \<Rightarrow> post \<Rightarrow> bool" where
  "signed_post env sd url p po \<longleftrightarrow>
     po_body po = sd_dumps sd p
     \<and> (\<exists>now token. sign_webhook (sd_lib sd) (en_cfg env) (sd_key sd) url (po_body po) now = Inr token
          \<and> po_headers po = webhook_headers token)
     \<and> connects_to url (po_conn po) \<and> cn_method (po_conn po) = ''post''
     \<and> safe_conn (en_cfg env) (nw_dns (sd_post sd (po_body po) (po_headers po))) (po_conn po)"

definition post_ok :: "('w, 'b) env \<Rightarrow> 'w sender \<Rightarrow> (string \<times> payload) set \<Rightarrow> post \<Rightarrow> bool" where
  "post_ok env sd ms po \<longleftrightarrow> (\<exists>(url, p)\<in>ms. signed_post env sd url p po)"

lemma run_webhook_posts:
  assumes "run_webhook (en_cfg env) sd url p now w = (r, ps, w')" and "(url, p) \<in> ms"
  shows "list_all (post_ok env sd ms) ps" and "length ps \<le> 1"
proof -
  obtain token where t: "sign_webhook (sd_lib sd) (en_cfg env) (sd_key sd) url (sd_dumps sd p) now = Inr token"
    and run: "run_webhook (en_cfg env) sd url p now w =
       (case deliver_webhook (en_cfg env) (sd_lib sd) (sd_key sd) (sd_dumps sd) (sd_post sd) url p now w of
          (r, cs, w') \<Rightarrow> (r, map (\<lambda>c. \<lparr>po_body = sd_dumps sd p, po_headers = webhook_headers token, po_conn = c\<rparr>) cs, w'))"
    by (rule run_webhook_eq)
  obtain q cs w2 where q: "request_with_redirects (en_cfg env) (sd_post sd (sd_dumps sd p) (webhook_headers token)) ''post'' False url w = (q, cs, w2)"
    by (metis prod_cases3)
  have ps: "ps = map (\<lambda>c. \<lparr>po_body = sd_dumps sd p, po_headers = webhook_headers token, po_conn = c\<rparr>) cs"
    using assms(1) unfolding run by (simp add: deliver_webhook_def t q)
  show "length ps \<le> 1" using unfollowed_request(1) [OF q] by (simp add: ps)
  have "post_ok env sd ms \<lparr>po_body = sd_dumps sd p, po_headers = webhook_headers token, po_conn = c\<rparr>" if "c \<in> set cs" for c
  proof -
    have "signed_post env sd url p \<lparr>po_body = sd_dumps sd p, po_headers = webhook_headers token, po_conn = c\<rparr>"
      using that t unfollowed_request(2) [OF q] unfollowed_connects [OF q] by (auto simp: signed_post_def list_all_iff)
    then show ?thesis using assms(2) by (auto simp: post_ok_def)
  qed
  then show "list_all (post_ok env sd ms) ps" by (simp add: ps list_all_iff)
qed

definition dlv_ok :: "('w, 'b) env \<Rightarrow> 'w sender \<Rightarrow> ('w, 'b) delivery \<Rightarrow> bool" where
  "dlv_ok env sd d \<longleftrightarrow>
     mset (map fst (dl_queue d)) + mset (dl_done d) + mset (dl_dead d) = mset (outbox (dl_sys d))
     \<and> list_all (\<lambda>(m, n). n \<le> nat (cfg_webhook_max_attempts (en_cfg env))) (dl_queue d)
     \<and> list_all (post_ok env sd (set (outbox (dl_sys d)))) (dl_posts d)"

lemma post_ok_mono: "post_ok env sd ms po \<Longrightarrow> ms \<subseteq> ms' \<Longrightarrow> post_ok env sd ms' po"
  unfolding post_ok_def by blast

lemma queued_message:
  assumes "dlv_ok env sd d" and "dl_queue d = xs @ (m, n) # ys"
  shows "m \<in> set (outbox (dl_sys d))"
proof -
  have "m \<in># mset (map fst (dl_queue d))" using assms(2) by simp
  then have "m \<in># mset (outbox (dl_sys d))" using assms(1) unfolding dlv_ok_def by (metis UnI1 set_mset_union)
  then show ?thesis by simp
qed

lemma dlv_ok_step:
  assumes "dlv_step env loads sd d d'" and "dlv_ok env sd d" and "\<forall>m. en_send env m = Inr ()"
  shows "dlv_ok env sd d'"
  using assms(1)
proof (cases rule: dlv_step.cases)
  case (service s)
  obtain ms where ms: "outbox s = outbox (dl_sys d) @ ms" using outbox_grows [OF service(2) assms(3)] by blast
  have "mset (map fst (dl_queue d')) = mset (map fst (dl_queue d)) + mset ms"
    by (simp add: service(1) ms comp_def)
  moreover have "list_all (\<lambda>(m, n). n \<le> nat (cfg_webhook_max_attempts (en_cfg env))) (dl_queue d')"
    using assms(2) by (auto simp: service(1) dlv_ok_def list_all_iff)
  moreover have "list_all (post_ok env sd (set (outbox s))) (dl_posts d)"
    using assms(2) post_ok_mono unfolding dlv_ok_def list_all_iff ms by fastforce
  ultimately show ?thesis using assms(2) ms by (simp add: service(1) dlv_ok_def add.assoc)
next
  case (delivered xs url p n ys now ps w)
  note posts = run_webhook_posts(1) [OF delivered(3) queued_message [OF assms(2) delivered(2)]]
  show ?thesis using assms(2) posts by (simp add: delivered(1,2) dlv_ok_def)
next
  case (again xs url p n ys now e ps w)
  note posts = run_webhook_posts(1) [OF again(3) queued_message [OF assms(2) again(2)]]
  show ?thesis using assms(2) posts again(4) by (simp add: again(1,2) dlv_ok_def)
next
  case (buried xs url p n ys now e ps w)
  note posts = run_webhook_posts(1) [OF buried(3) queued_message [OF assms(2) buried(2)]]
  show ?thesis using assms(2) posts by (simp add: buried(1,2) dlv_ok_def)
qed

lemma reach_dlv_ok: "dlv_reach env loads sd d \<Longrightarrow> \<forall>m. en_send env m = Inr () \<Longrightarrow> dlv_ok env sd d"
proof (induction rule: dlv_reach.induct)
  case (init s)
  then show ?case by (simp add: dlv_ok_def sys_init_def outbox_def)
qed (blast intro: dlv_ok_step)

lemma set_callbacks_of:
  "(url, q) \<in> set (callbacks_of xs) \<longleftrightarrow>
     url \<noteq> [] \<and> (\<exists>jb p. (jb, p) \<in> set xs \<and> jb_webhook jb = Some url \<and> q = serialize p (jb_version jb))"
  by (force simp: callbacks_of_def callbacks_def split: option.splits if_splits)

text \<open>A POST that carries a documented result of a settled job to the job's own callback URL.\<close>

definition signed_result :: "('w, 'b) env \<Rightarrow> 'w sender \<Rightarrow> (job \<times> payload) list \<Rightarrow> post \<Rightarrow> bool" where
  "signed_result env sd settled po \<longleftrightarrow>
     (\<exists>jb p url. (jb, p) \<in> set settled \<and> documented jb p \<and> jb_webhook jb = Some url
        \<and> signed_post env sd url (serialize p (jb_version jb)) po)"


section \<open>A delivered callback\<close>

text \<open>The service alone, with the deliveries still to come.\<close>

lemma dlv_reach_service:
  assumes "sys_reach env loads s" and "\<forall>m. en_send env m = Inr ()"
  shows "dlv_reach env loads sd \<lparr>dl_sys = s, dl_queue = map (\<lambda>m. (m, 0)) (outbox s), dl_done = [], dl_dead = [], dl_posts = []\<rparr>"
  using assms(1)
proof (induction rule: sys_reach.induct)
  case (init s)
  then show ?case using dlv_reach.init [OF init] by (simp add: outbox_def sys_init_def)
next
  case (step s t)
  obtain ms where ms: "outbox t = outbox s @ ms" using outbox_grows [OF step.hyps(2) assms(2)] by blast
  let ?d = "\<lparr>dl_sys = s, dl_queue = map (\<lambda>m. (m, 0)) (outbox s), dl_done = [], dl_dead = [], dl_posts = []\<rparr>"
  have "sys_step env loads (dl_sys ?d) t" using step.hyps(2) by simp
  from dlv_reach.step [OF step.IH dlv_step.service [OF this]] show ?case by (simp add: ms)
qed

definition hook_net :: "(unit, string) network" where
  "hook_net = answering \<lparr>wr_status = 204, wr_location = None, wr_data = []\<rparr>"

definition hook_sender :: "unit sender" where
  "hook_sender = \<lparr>sd_lib = sample_lib, sd_key = Some [1], sd_dumps = (\<lambda>p. [0x7B, 0x7D]), sd_post = (\<lambda>b h. hook_net)\<rparr>"

text \<open>One attempt at a receiver on the concrete host, whatever it answers.\<close>

lemma answered:
  assumes "url \<in> set drive_urls" and "sd_post sd = (\<lambda>b h. answering a)" and "wr_location a = None"
  shows "\<exists>po. run_webhook cfg sd url p now () = (webhook_outcome (webhook_answer a), [po], ())"
proof -
  obtain c where c: "request_with_redirects cfg (answering a) ''post'' False url () = (Inr a, [c], ())"
    using drive_request [OF assms(1,3), where cfg = cfg and http_method = "''post''" and follow = False and w = "()"] by auto
  obtain token where "sign_webhook (sd_lib sd) cfg (sd_key sd) url (sd_dumps sd p) now = Inr token"
    and run: "run_webhook cfg sd url p now () =
       (case deliver_webhook cfg (sd_lib sd) (sd_key sd) (sd_dumps sd) (sd_post sd) url p now () of
          (r, cs, w') \<Rightarrow> (r, map (\<lambda>c. \<lparr>po_body = sd_dumps sd p, po_headers = webhook_headers token, po_conn = c\<rparr>) cs, w'))"
    by (rule run_webhook_eq)
  with c show ?thesis unfolding run by (simp add: deliver_webhook_def assms(2))
qed

lemma hook_delivered: "\<exists>po. run_webhook cfg hook_sender ''https://drive.example/hook'' p now () = (Inr (), [po], ())"
  using answered [where sd = hook_sender and cfg = cfg and p = p and now = now and url = "''https://drive.example/hook''"
      and a = "\<lparr>wr_status = 204, wr_location = None, wr_data = []\<rparr>"]
  by (simp add: hook_sender_def hook_net_def drive_urls_def webhook_answer_def webhook_outcome_def)


end
