(* ===== verification/Confidential.thy ===== *)
theory Confidential
  imports Callbacks "HOL-Library.Sublist"
begin

text \<open>
  What the decryption key of a client-encrypted file can influence (\<open>ScanEncryption\<close> in
  \<open>src/app.py\<close>, \<open>src/encryption.py\<close>, \<open>_write_decrypted\<close> in \<open>src/tasks.py\<close>): only which chunks of
  the served body open, and to what. The proof is an unwinding: two executions whose keys open
  the same chunks stay equal, step by step, in everything but the keys in the messages.
\<close>

section \<open>Keys the body does not tell apart\<close>

text \<open>Two keys open the pieces of the data alike.\<close>

definition opens_alike :: "gcm \<Rightarrow> 8 word list \<Rightarrow> 8 word list \<Rightarrow> 8 word list \<Rightarrow> bool" where
  "opens_alike gcm data k k' \<longleftrightarrow>
     (\<forall>blob aad. sublist blob data \<longrightarrow>
        gcm k (take iv_bytes blob) (drop iv_bytes blob) aad = gcm k' (take iv_bytes blob) (drop iv_bytes blob) aad)"

text \<open>So do two key texts, when they decode, or else are rejected alike.\<close>

definition keys_alike :: "gcm \<Rightarrow> 8 word list \<Rightarrow> 8 word list result \<Rightarrow> 8 word list result \<Rightarrow> bool" where
  "keys_alike gcm data r r' \<longleftrightarrow>
     (case (r, r') of
        (Inr k, Inr k') \<Rightarrow> opens_alike gcm data k k'
      | (Inl e, Inl e') \<Rightarrow> e = e'
      | _ \<Rightarrow> False)"

definition key_of :: "enc_params \<Rightarrow> 8 word list result" where
  "key_of enc = rbind (item enc ''key'') decode_key"

lemma opens_alike_sub: "opens_alike gcm data k k' \<Longrightarrow> sublist part data \<Longrightarrow> opens_alike gcm part k k'"
  unfolding opens_alike_def using sublist_order.order_trans by blast

lemma opens_alikeD:
  "opens_alike gcm data k k' \<Longrightarrow> sublist blob data \<Longrightarrow>
     gcm k' (take iv_bytes blob) (drop iv_bytes blob) aad = gcm k (take iv_bytes blob) (drop iv_bytes blob) aad"
  by (simp add: opens_alike_def)

lemma sublist_py_take: "sublist (py_take i xs) xs"
  by (simp add: py_take_def)

lemma suffix_py_drop: "suffix (py_drop i xs) xs"
  by (simp add: py_drop_def suffix_drop)

section \<open>The decryption\<close>

lemma write_chunk_alike:
  "opens_alike gcm data (cp_key cp) k \<Longrightarrow> sublist blob data \<Longrightarrow>
     write_chunk cfg gcm (cp\<lparr>cp_key := k\<rparr>) n out blob = write_chunk cfg gcm cp n out blob"
  by (simp add: write_chunk_def decrypt_chunk_def opens_alikeD)

lemma blob_size_key [simp]: "blob_size (cp\<lparr>cp_key := k\<rparr>) = blob_size cp"
  by (simp add: blob_size_def)

lemma drain_alike:
  assumes "opens_alike gcm buffer (cp_key cp) k"
  shows "drain cfg gcm (cp\<lparr>cp_key := k\<rparr>) buffer n out = drain cfg gcm cp buffer n out"
  using assms
proof (induction cfg gcm cp buffer n out rule: drain.induct)
  case (1 cfg gcm cp buffer n out)
  note w = write_chunk_alike [OF "1.prems" sublist_py_take]
  have rest: "opens_alike gcm (py_drop (blob_size cp) buffer) (cp_key cp) k"
    by (rule opens_alike_sub [OF "1.prems"]) (rule suffix_imp_sublist [OF suffix_py_drop])
  show ?case
  proof (cases "int (length buffer) < blob_size cp")
    case False
    with "1.IH" [OF False _ rest] show ?thesis
      by (subst (1 2) drain.simps)
         (cases "write_chunk cfg gcm cp (n + 1) out (py_take (blob_size cp) buffer)"; simp add: w)
  qed (simp add: drain.simps)
qed

lemma drain_suffix: "drain cfg gcm cp buffer n out = (r, buffer', n', out') \<Longrightarrow> suffix buffer' buffer"
proof (induction cfg gcm cp buffer n out rule: drain.induct)
  case (1 cfg gcm cp buffer n out)
  show ?case
  proof (cases "int (length buffer) < blob_size cp")
    case False
    show ?thesis
    proof (cases "write_chunk cfg gcm cp (n + 1) out (py_take (blob_size cp) buffer)")
      case (Inr f)
      with "1.IH" [OF False Inr] "1.prems" False have "suffix buffer' (py_drop (blob_size cp) buffer)"
        by (simp add: drain.simps [of cfg gcm cp buffer])
      then show ?thesis using suffix_py_drop suffix_order.order_trans by blast
    qed (use "1.prems" False in \<open>simp add: drain.simps [of cfg gcm cp buffer]\<close>)
  qed (use "1.prems" in \<open>simp add: drain.simps [of cfg gcm cp buffer]\<close>)
qed

lemma finish_alike:
  "opens_alike gcm buffer (cp_key cp) k \<Longrightarrow>
     finish cfg gcm (cp\<lparr>cp_key := k\<rparr>) read buffer n out = finish cfg gcm cp read buffer n out"
  by (auto simp: finish_def write_chunk_alike split: sum.split)

lemma cipher_loop_alike:
  assumes "opens_alike gcm (buffer @ body_bytes body) (cp_key cp) k"
  shows "cipher_loop cfg gcm (cp\<lparr>cp_key := k\<rparr>) cap fin read buffer n out body =
     cipher_loop cfg gcm cp cap fin read buffer n out body"
  using assms
proof (induction cfg gcm cp cap fin read buffer n out body rule: cipher_loop.induct)
  case (1 cfg gcm cp cap fin read buffer n out)
  then show ?case by (simp add: finish_alike body_bytes_def split: option.split)
next
  case (2 cfg gcm cp cap fin read buffer n out chunk t rest)
  let ?b = "buffer @ chunk"
  have all: "?b @ body_bytes rest = buffer @ body_bytes ((chunk, t) # rest)" by (simp add: body_bytes_def)
  have "sublist ?b (?b @ body_bytes rest)" by simp
  from opens_alike_sub [OF "2.prems" [folded all] this]
  have d: "drain cfg gcm (cp\<lparr>cp_key := k\<rparr>) ?b n out = drain cfg gcm cp ?b n out" by (rule drain_alike)
  obtain r b' n' o' where dr: "drain cfg gcm cp ?b n out = (r, b', n', o')" by (metis prod_cases4)
  have "suffix (b' @ body_bytes rest) (?b @ body_bytes rest)"
    using drain_suffix [OF dr] by (simp add: suffix_def)
  then have "opens_alike gcm (b' @ body_bytes rest) (cp_key cp) k"
    by (rule opens_alike_sub [OF "2.prems" [folded all] suffix_imp_sublist])
  with "2.IH" show ?case
    by (cases "check_limits cfg (read + length chunk) t cap"; cases r) (simp_all add: d dr)
qed

lemma check_params_alike:
  assumes "keys_alike gcm data (key_of enc) (decode_key v)"
  shows "case check_params cfg enc of
      Inr cp \<Rightarrow> \<exists>k. check_params cfg (dict_set ''key'' v enc) = Inr (cp\<lparr>cp_key := k\<rparr>) \<and> opens_alike gcm data (cp_key cp) k
    | Inl e \<Rightarrow> check_params cfg (dict_set ''key'' v enc) = Inl e"
  using assms
  by (cases "decode_key v"; cases "key_of enc")
     (auto simp: keys_alike_def key_of_def check_params_def read_params_def item_def rbind_def Let_def
       split: sum.splits option.splits)

lemma item_dict_set: "k \<noteq> k' \<Longrightarrow> item (dict_set k v d) k' = item d k'"
  by (simp add: item_def)

lemma wire_cap_key: "enc \<noteq> [] \<Longrightarrow> wire_cap cfg (dict_set ''key'' v enc) = wire_cap cfg enc"
  by (simp add: wire_cap_def item_dict_set Let_def)

lemma write_decrypted_alike:
  assumes "keys_alike gcm (body_bytes body) (key_of enc) (decode_key v)" and "enc \<noteq> []"
  shows "write_decrypted cfg gcm (dict_set ''key'' v enc) body fin = write_decrypted cfg gcm enc body fin"
  using check_params_alike [OF assms(1), of cfg] wire_cap_key [OF assms(2), of cfg v] cipher_loop_alike [of gcm "[]" body]
  by (auto simp: write_decrypted_def split: sum.splits)

section \<open>One run of a job\<close>

text \<open>The job with another key.\<close>

definition rekey :: "(string \<Rightarrow> string) \<Rightarrow> job \<Rightarrow> job" where
  "rekey ks jb = jb\<lparr>jb_encryption :=
     (if jb_encryption jb = [] then [] else dict_set ''key'' (JStr (ks (jb_id jb))) (jb_encryption jb))\<rparr>"

text \<open>The bytes the job's URL serves in that state of the network.\<close>

definition served :: "('w, 'b) env \<Rightarrow> job \<Rightarrow> 'w \<Rightarrow> 8 word list" where
  "served env jb w =
     (case assert_scannable (en_cfg env) (nw_dns (en_net env)) (jb_url jb) (jb_webhook jb) w of (_, w1) \<Rightarrow>
        (case request_with_redirects (en_cfg env) (en_net env) ''get'' True (jb_url jb) w1 of
           (Inr r, _) \<Rightarrow> body_bytes (st_body (wr_data r))
         | (Inl e, _) \<Rightarrow> []))"

definition rekey_alike :: "('w, 'b) env \<Rightarrow> (string \<Rightarrow> string) \<Rightarrow> job \<Rightarrow> bool" where
  "rekey_alike env ks jb \<longleftrightarrow> jb_encryption jb = []
     \<or> (\<forall>w. keys_alike (en_gcm env) (served env jb w) (key_of (jb_encryption jb)) (decode_key (JStr (ks (jb_id jb)))))"

lemma rekey_fields [simp]:
  "jb_id (rekey ks jb) = jb_id jb" "jb_url (rekey ks jb) = jb_url jb" "jb_scanners (rekey ks jb) = jb_scanners jb"
  "jb_filename (rekey ks jb) = jb_filename jb" "jb_webhook (rekey ks jb) = jb_webhook jb"
  "jb_metadata (rekey ks jb) = jb_metadata jb" "jb_client (rekey ks jb) = jb_client jb"
  "jb_version (rekey ks jb) = jb_version jb"
  by (simp_all add: rekey_def)

lemma wire_cap_rekey: "wire_cap cfg (jb_encryption (rekey ks jb)) = wire_cap cfg (jb_encryption jb)"
  by (simp add: rekey_def wire_cap_key)

lemma check_response_rekey: "check_response env (rekey ks jb) r = check_response env jb r"
  by (simp add: check_response_def wire_cap_rekey)

lemma write_body_rekey:
  assumes "jb_encryption jb \<noteq> [] \<Longrightarrow>
     keys_alike (en_gcm env) (body_bytes (st_body response)) (key_of (jb_encryption jb)) (decode_key (JStr (ks (jb_id jb))))"
  shows "write_body env (rekey ks jb) response = write_body env jb response"
  using assms by (cases "jb_encryption jb = []") (simp_all add: write_body_def rekey_def write_decrypted_alike)

lemma fetch_file_rekey:
  assumes "rekey_alike env ks jb"
  shows "fetch_file env (rekey ks jb) w = fetch_file env jb w"
proof -
  obtain a w1 where a: "assert_scannable (en_cfg env) (nw_dns (en_net env)) (jb_url jb) (jb_webhook jb) w = (a, w1)"
    by fastforce
  obtain q cs w2 where q: "request_with_redirects (en_cfg env) (en_net env) ''get'' True (jb_url jb) w1 = (q, cs, w2)"
    by (metis prod_cases3)
  have "write_body env (rekey ks jb) (wr_data r) = write_body env jb (wr_data r)" if "q = Inr r" for r
    by (rule write_body_rekey) (use assms a q that in \<open>auto simp: rekey_alike_def served_def dest: spec [of _ w]\<close>)
  then show ?thesis
    using a q by (cases a; cases q) (auto simp: fetch_file_def check_response_rekey split: sum.split)
qed

lemma reports_rekey [simp]:
  "error_result (rekey ks jb) k m = error_result jb k m" "report_result (rekey ks jb) rep t = report_result jb rep t"
  by (simp_all add: error_result_def report_result_def initial_result_def)

lemma finalize_rekey [simp]: "finalize env (rekey ks jb) p s = finalize env jb p s"
  by (cases "jb_webhook jb") (simp_all add: finalize_def Let_def)

lemma on_error_rekey [simp]: "on_error env (rekey ks jb) x e s = on_error env jb x e s"
  by (simp add: on_error_def report_error_def split: exn.split)

lemma scan_attempt_rekey:
  "rekey_alike env ks jb \<Longrightarrow> scan_attempt env (rekey ks jb) path dur s = scan_attempt env jb path dur s"
  by (auto simp: scan_attempt_def fetch_file_rekey Let_def split: prod.split sum.split)

lemma scan_task_rekey:
  "rekey_alike env ks jb \<Longrightarrow> scan_task env (rekey ks jb) path dur msg s = scan_task env jb path dur msg s"
  by (auto simp: scan_task_def scan_attempt_rekey deliver_def Let_def split: prod.split sum.split)

lemma verdict_on_rekey [simp]: "verdict_on (rekey ks jb) r = verdict_on jb r"
  by (simp add: verdict_on_def split: sum.split)

section \<open>The service\<close>

definition rekey_sys :: "(string \<Rightarrow> string) \<Rightarrow> ('w, 'b) system \<Rightarrow> ('w, 'b) system" where
  "rekey_sys ks s = s\<lparr>sy_queue := map (map_prod (rekey ks) id) (sy_queue s),
     sy_accepted := map (map_prod (rekey ks) id) (sy_accepted s), sy_settled := map (map_prod (rekey ks) id) (sy_settled s)\<rparr>"

definition rekey_request :: "string \<Rightarrow> async_request \<Rightarrow> async_request" where
  "rekey_request k body = body\<lparr>ar_encryption := map_option (\<lambda>e. e\<lparr>se_key := k\<rparr>) (ar_encryption body)\<rparr>"

lemma rekey_sys_fields [simp]:
  "sy_world (rekey_sys ks s) = sy_world s" "sy_cache (rekey_sys ks s) = sy_cache s" "sy_seeds (rekey_sys ks s) = sy_seeds s"
  "sy_queue (rekey_sys ks s) = map (map_prod (rekey ks) id) (sy_queue s)"
  "sy_accepted (rekey_sys ks s) = map (map_prod (rekey ks) id) (sy_accepted s)"
  "sy_settled (rekey_sys ks s) = map (map_prod (rekey ks) id) (sy_settled s)"
  by (simp_all add: rekey_sys_def)

lemma job_ids_rekey [simp]: "job_ids (rekey_sys ks s) = job_ids s"
  by (simp add: job_ids_def comp_def)

lemma rekeyed_request:
  "scan_message j u names (rekey_request (ks j) body) = rekey ks (scan_message j u names body)"
  "pending_record j (rekey_request k body) = pending_record j body"
  by (auto simp: scan_message_def rekey_request_def rekey_def dump_encryption_def dict_set_def of_path_def
      pending_record_def split: option.split)

text \<open>Admission looks neither at the key nor at what is queued.\<close>

lemma admit_rekey:
  assumes "admit loads cfg builders dns body s = (r, v)"
  shows "admit loads cfg builders dns (rekey_request k body) (s\<lparr>ws_queue := q\<rparr>) = (r, v\<lparr>ws_queue := q\<rparr>)"
proof -
  obtain n c where n: "api_resolve loads cfg builders (ar_categories body) (ar_scanners body) (ws_cache s) = (n, c)"
    by fastforce
  obtain a w where a: "assert_scannable cfg dns (ar_url body) (ar_webhook body) (ws_net s) = (a, w)" by fastforce
  show ?thesis
  proof (cases n)
    case (Inr names)
    with assms n a show ?thesis
      by (cases "api_size_cap cfg names (cfg_max_url_size cfg) ''MAX_URL_SIZE''"; cases "unsafe_request a"; cases s)
         (auto simp: admit_def rekey_request_def Let_def simp del: unsafe_request_Inr split: if_splits)
  qed (use assms n in \<open>cases s; auto simp: admit_def rekey_request_def\<close>)
qed

lemma step_rekey:
  assumes "sys_step env loads s t" and "list_all (rekey_alike env ks \<circ> fst) (sy_queue s)"
  shows "sys_step env loads (rekey_sys ks s) (rekey_sys ks t)"
  using assms(1)
proof (cases rule: sys_step.cases)
  case (accept body names v jb job_id username)
  have view: "web_view (rekey_sys ks s) = (web_view s)\<lparr>ws_queue := ws_queue (web_view (rekey_sys ks s))\<rparr>"
    by (simp add: web_view_def)
  have a: "admit loads (en_cfg env) (en_builders env) (nw_dns (en_net env)) (rekey_request (ks job_id) body)
      (web_view (rekey_sys ks s)) = (Inr names, v\<lparr>ws_queue := ws_queue (web_view (rekey_sys ks s))\<rparr>)"
    by (subst view) (rule admit_rekey [OF accept(2)])
  have "job_id \<notin> set (job_ids (rekey_sys ks s))" using accept(4) by simp
  from sys_step.accept [OF a refl this, of username] show ?thesis
    by (cases s) (simp add: accept(1,3) rekeyed_request rekey_sys_def)
next
  case (seed xs job_id username p ys)
  then have "sy_seeds (rekey_sys ks s) = xs @ (job_id, username, p) # ys" by simp
  from sys_step.seed [OF this, of env loads] show ?thesis by (cases s) (simp add: seed(1) rekey_sys_def)
next
  case (work xs jb n ys path dur w)
  have al: "rekey_alike env ks jb" using assms(2) work(2) by simp
  have q: "sy_queue (rekey_sys ks s) = map (map_prod (rekey ks) id) xs @ (rekey ks jb, n) # map (map_prod (rekey ks) id) ys"
    using work(2) by simp
  have "scan_task env (rekey ks jb) path dur (Some (int n)) (sy_world (rekey_sys ks s)) = (Inr (), w)"
    using work(4) by (simp add: scan_task_rekey [OF al])
  from sys_step.work [OF q _ this, of loads] work(3) show ?thesis
    by (cases s) (simp add: work(1) rekey_sys_def scan_attempt_rekey [OF al])
next
  case (retry xs jb n ys path dur e w)
  have al: "rekey_alike env ks jb" using assms(2) retry(2) by simp
  have q: "sy_queue (rekey_sys ks s) = map (map_prod (rekey ks) id) xs @ (rekey ks jb, n) # map (map_prod (rekey ks) id) ys"
    using retry(2) by simp
  have "scan_task env (rekey ks jb) path dur (Some (int n)) (sy_world (rekey_sys ks s)) = (Inl e, w)"
    using retry(4) by (simp add: scan_task_rekey [OF al])
  from sys_step.retry [OF q _ this, of loads] retry(3) show ?thesis
    by (cases s) (simp add: retry(1) rekey_sys_def)
next
  case (drift b net)
  then have "forgets (en_backend env) (wo_store (sy_world (rekey_sys ks s))) b" by simp
  from sys_step.drift [OF this, of loads net] show ?thesis by (cases s) (simp add: drift(1) rekey_sys_def)
qed

lemma queue_accepted: "sys_reach env loads s \<Longrightarrow> fst ` set (sy_queue s) \<subseteq> fst ` set (sy_accepted s)"
proof (induction rule: sys_reach.induct)
  case (step s t)
  from step.hyps(2) step.IH show ?case by (cases rule: sys_step.cases) auto
qed (simp add: sys_init_def)

definition all_alike :: "('w, 'b) env \<Rightarrow> (string \<Rightarrow> string) \<Rightarrow> ('w, 'b) system \<Rightarrow> bool" where
  "all_alike env ks s \<longleftrightarrow> list_all (rekey_alike env ks \<circ> fst) (sy_accepted s)"

lemma all_alike_queue: "all_alike env ks s \<Longrightarrow> sys_reach env loads s \<Longrightarrow> list_all (rekey_alike env ks \<circ> fst) (sy_queue s)"
  unfolding all_alike_def list_all_iff using queue_accepted by fastforce

lemma all_alike_step: "sys_step env loads s t \<Longrightarrow> all_alike env ks t \<Longrightarrow> all_alike env ks s"
  unfolding all_alike_def list_all_iff using step_accepted by blast

definition rekey_delivery :: "(string \<Rightarrow> string) \<Rightarrow> ('w, 'b) delivery \<Rightarrow> ('w, 'b) delivery" where
  "rekey_delivery ks d = d\<lparr>dl_sys := rekey_sys ks (dl_sys d)\<rparr>"

lemma set_net_rekey: "set_net w (rekey_sys ks s) = rekey_sys ks (set_net w s)"
  by (simp add: set_net_def rekey_sys_def)

lemma outbox_rekey [simp]: "outbox (rekey_sys ks s) = outbox s"
  by (simp add: outbox_def)

lemma dlv_step_rekey:
  assumes "dlv_step env loads sd d d'" and "list_all (rekey_alike env ks \<circ> fst) (sy_queue (dl_sys d))"
  shows "dlv_step env loads sd (rekey_delivery ks d) (rekey_delivery ks d')"
  using assms(1)
proof (cases rule: dlv_step.cases)
  case (service s)
  have "sys_step env loads (dl_sys (rekey_delivery ks d)) (rekey_sys ks s)"
    using step_rekey [OF service(2) assms(2)] by (simp add: rekey_delivery_def)
  from dlv_step.service [OF this] show ?thesis by (cases d) (simp add: service(1) rekey_delivery_def)
next
  case (delivered xs url p n ys now ps w)
  with dlv_step.delivered [of "rekey_delivery ks d" xs url p n ys env sd now ps w loads] show ?thesis
    by (cases d) (simp add: rekey_delivery_def set_net_rekey)
next
  case (again xs url p n ys now e ps w)
  with dlv_step.again [of "rekey_delivery ks d" xs url p n ys env sd now e ps w loads] show ?thesis
    by (cases d) (simp add: rekey_delivery_def set_net_rekey)
next
  case (buried xs url p n ys now e ps w)
  with dlv_step.buried [of "rekey_delivery ks d" xs url p n ys env sd now e ps w loads] show ?thesis
    by (cases d) (simp add: rekey_delivery_def set_net_rekey)
qed

lemma init_rekey: "sys_init env s \<Longrightarrow> rekey_sys ks s = s"
  by (simp add: sys_init_def rekey_sys_def)

lemma reach_rekey:
  "dlv_reach env loads sd d \<Longrightarrow> all_alike env ks (dl_sys d) \<Longrightarrow> dlv_reach env loads sd (rekey_delivery ks d)"
proof (induction rule: dlv_reach.induct)
  case (init s)
  then show ?case using dlv_reach.init [OF init(1)] by (simp add: rekey_delivery_def init_rekey)
next
  case (step d d')
  have al: "all_alike env ks (dl_sys d)" by (rule all_alike_step [OF dlv_step_sys [OF step.hyps(2)] step.prems])
  from dlv_reach.step [OF step.IH [OF al] dlv_step_rekey [OF step.hyps(2) all_alike_queue [OF al dlv_reach_sys [OF step.hyps(1)]]]]
  show ?case .
qed

text \<open>C4: The decryption key of a client-encrypted file shows in nothing the service emits. Take any
  execution of web processes, scan workers and deliveries, and give its encrypted jobs other keys
  that open the same chunks of the bodies served (as any two wrong keys do) or are rejected alike.
  Then there is an execution with these keys that agrees in the job store that polls read, the
  queued, delivered and dead-lettered callbacks, every POST with its body and headers, the download
  directory, the metrics, and the outcome of every job; only the messages that carry the keys
  differ. And every run of a queued job returns and leaves exactly the same under either key.\<close>

theorem decryption_keys_stay_inside:
  assumes "dlv_reach env loads sd d" and "all_alike env ks (dl_sys d)"
  shows "(\<exists>e. dlv_reach env loads sd e \<and> sy_world (dl_sys e) = sy_world (dl_sys d) \<and> sy_seeds (dl_sys e) = sy_seeds (dl_sys d)
      \<and> dl_queue e = dl_queue d \<and> dl_done e = dl_done d \<and> dl_dead e = dl_dead d \<and> dl_posts e = dl_posts d
      \<and> sy_queue (dl_sys e) = map (map_prod (rekey ks) id) (sy_queue (dl_sys d))
      \<and> sy_settled (dl_sys e) = map (map_prod (rekey ks) id) (sy_settled (dl_sys d)))
    \<and> list_all (\<lambda>(jb, n). \<forall>path dur msg w. scan_task env (rekey ks jb) path dur msg w = scan_task env jb path dur msg w)
        (sy_queue (dl_sys d))"
proof (rule conjI)
  show "\<exists>e. dlv_reach env loads sd e \<and> sy_world (dl_sys e) = sy_world (dl_sys d) \<and> sy_seeds (dl_sys e) = sy_seeds (dl_sys d)
      \<and> dl_queue e = dl_queue d \<and> dl_done e = dl_done d \<and> dl_dead e = dl_dead d \<and> dl_posts e = dl_posts d
      \<and> sy_queue (dl_sys e) = map (map_prod (rekey ks) id) (sy_queue (dl_sys d))
      \<and> sy_settled (dl_sys e) = map (map_prod (rekey ks) id) (sy_settled (dl_sys d))"
    by (rule exI [of _ "rekey_delivery ks d"]) (simp add: reach_rekey [OF assms], simp add: rekey_delivery_def)
  have "list_all (rekey_alike env ks \<circ> fst) (sy_queue (dl_sys d))"
    by (rule all_alike_queue [OF assms(2) dlv_reach_sys [OF assms(1)]])
  then show "list_all (\<lambda>(jb, n). \<forall>path dur msg w. scan_task env (rekey ks jb) path dur msg w = scan_task env jb path dur msg w)
      (sy_queue (dl_sys d))"
    by (auto simp: list_all_iff scan_task_rekey)
qed

section \<open>Two wrong keys\<close>

definition secret_env :: "(unit, (key_msg \<times> json) list) env" where
  "secret_env = race_env\<lparr>en_gcm := (\<lambda>k iv b aad. if k = replicate 32 7 then Some [0x50] else None)\<rparr>"

definition secret_request :: async_request where
  "secret_request = sample_async\<lparr>ar_encryption := Some \<lparr>se_scheme = scheme, se_key = encode_key (replicate 32 0xFB),
     se_chunk_size = 4096, se_file_id = ''f'', se_parts = 1\<rparr>\<rparr>"

definition secret_job :: job where
  "secret_job = scan_message ''j1'' ''drive'' [''exav'', ''clamav''] secret_request"

definition other_key :: "string \<Rightarrow> string" where
  "other_key j = encode_key (replicate 32 1)"

lemma secret_fields [simp]:
  "en_cfg secret_env = async_cfg" "en_net secret_env = sample_net" "en_builders secret_env = sample_builders"
  "jb_url secret_job = ''https://drive.example/f''" "jb_webhook secret_job = Some ''https://drive.example/hook''"
  by (simp_all add: secret_env_def race_env_def sample_env_def secret_job_def scan_message_def secret_request_def sample_async_def)

lemma secret_body:
  "1 \<le> wire_cap async_cfg (jb_encryption secret_job)"
  "case fst (write_body secret_env secret_job sample_stream) of Inl (DecryptionError m) \<Rightarrow> True | _ \<Rightarrow> False"
  by code_simp+

lemma secret_work: "\<exists>w. scan_task secret_env secret_job ''p'' (\<lambda>_. 1) (Some 0) sample_world = (Inr (), w)"
proof -
  obtain m content where b: "write_body secret_env secret_job sample_stream = (Inl (DecryptionError m), content)"
    using secret_body(2) by (cases "write_body secret_env secret_job sample_stream") (auto split: sum.splits exn.splits)
  have "fetch_file secret_env secret_job () =
      (case write_body secret_env secret_job sample_stream of (res, content) \<Rightarrow> (rbind res (\<lambda>_. Inr ()), Some content, ()))"
    by (rule drive_fetch)
       (use secret_body(1) in \<open>simp_all add: sample_net_def drive_urls_def async_cfg_def sample_cfg_def default_settings_def sample_response\<close>)
  then have f: "fetch_file secret_env secret_job () = (Inl (DecryptionError m), Some content, ())" by (simp add: b)
  have "jb_webhook secret_job \<noteq> Some []" "\<forall>m. en_send secret_env m = Inr ()"
    by (simp_all add: secret_env_def race_env_def sample_env_def)
  then show ?thesis
    by (simp add: scan_task_def scan_attempt_def f on_error_def report_error_def finalize_def Let_def)
qed

lemma secret_alike: "rekey_alike secret_env other_key secret_job"
  using decode_encoded_key [of "replicate 32 0xFB" "''''"] decode_encoded_key [of "replicate 32 1" "''''"]
  by (simp add: rekey_alike_def keys_alike_def opens_alike_def key_of_def secret_job_def scan_message_def secret_request_def
      dump_encryption_def item_def other_key_def secret_env_def)

lemma secret_settled:
  "\<exists>s p. sys_reach secret_env sample_loads s \<and> sy_queue s = [] \<and> sy_settled s = [(secret_job, p)]
     \<and> map fst (sy_accepted s) = [secret_job]"
proof -
  have v: "web_view race_start = sample_web"
    by (simp add: web_view_def race_start_def sample_world_def sample_web_def)
  have "ar_categories secret_request = ar_categories sample_async" "ar_scanners secret_request = ar_scanners sample_async"
    "ar_url secret_request = ar_url sample_async" "ar_webhook secret_request = ar_webhook sample_async"
    by (simp_all add: secret_request_def)
  then have "admit sample_loads async_cfg sample_builders (nw_dns sample_net) secret_request sample_web
      = admit sample_loads async_cfg sample_builders (nw_dns sample_net) sample_async sample_web"
    by (simp only: admit_def)
  then obtain w where a: "admit sample_loads (en_cfg secret_env) (en_builders secret_env) (nw_dns (en_net secret_env)) secret_request
      (web_view race_start) = (Inr [''exav'', ''clamav''], w)"
    using sample_admitted unfolding v secret_fields
    by (cases "admit sample_loads async_cfg sample_builders (nw_dns sample_net) sample_async sample_web") simp
  have "sys_init secret_env race_start"
    by (simp add: sys_init_def race_start_def sample_world_def secret_env_def race_env_def sample_env_def fetch_job_def list_backend_def)
  then have r: "sys_reach secret_env sample_loads race_start" by (rule sys_reach.init)
  have "''j1'' \<notin> set (job_ids race_start)" by (simp add: job_ids_def race_start_def)
  note r1 = sys_reach.step [OF r sys_step.accept [OF a secret_job_def this]]
  obtain w2 where w2: "scan_task secret_env secret_job ''p'' (\<lambda>_. 1) (Some (int 0)) sample_world = (Inr (), w2)"
    using secret_work by auto
  let ?s1 = "race_start\<lparr>sy_world := (sy_world race_start)\<lparr>wo_net := ws_net w\<rparr>, sy_cache := ws_cache w,
     sy_queue := sy_queue race_start @ [(secret_job, 0)],
     sy_seeds := sy_seeds race_start @ [(''j1'', ''drive'', pending_record ''j1'' secret_request)],
     sy_accepted := sy_accepted race_start @ [(secret_job, pending_record ''j1'' secret_request)]\<rparr>"
  have q: "sy_queue ?s1 = [] @ (secret_job, 0) # []" "sy_world ?s1 = sample_world"
    by (simp_all add: race_start_def sample_world_def)
  have "''p'' \<notin> fst ` set (wo_files (sy_world ?s1))" unfolding q(2) by simp
  note r2 = sys_reach.step [OF r1 sys_step.work [OF q(1) this, unfolded q(2), OF w2]]
  then show ?thesis by - (rule exI, rule exI, rule conjI, assumption, simp add: race_start_def)
qed

theorem decryption_keys_stay_inside_witness:
  "\<exists>d e p. dlv_reach secret_env sample_loads hook_sender d \<and> dlv_reach secret_env sample_loads hook_sender e
     \<and> sy_settled (dl_sys d) = [(secret_job, p)] \<and> sy_settled (dl_sys e) = [(rekey other_key secret_job, p)]
     \<and> sy_world (dl_sys e) = sy_world (dl_sys d) \<and> dl_posts e = dl_posts d"
proof -
  obtain s p where s: "sys_reach secret_env sample_loads s" "sy_settled s = [(secret_job, p)]" "map fst (sy_accepted s) = [secret_job]"
    using secret_settled by auto
  let ?d = "\<lparr>dl_sys = s, dl_queue = map (\<lambda>m. (m, 0)) (outbox s), dl_done = [], dl_dead = [], dl_posts = []\<rparr>"
  have "\<forall>m. en_send secret_env m = Inr ()" by (simp add: secret_env_def race_env_def sample_env_def)
  then have d: "dlv_reach secret_env sample_loads hook_sender ?d" by (rule dlv_reach_service [OF s(1)])
  have "all_alike secret_env other_key (dl_sys ?d)"
    using s(3) secret_alike by (auto simp: all_alike_def)
  from decryption_keys_stay_inside [OF d this] obtain e where "dlv_reach secret_env sample_loads hook_sender e"
    "sy_world (dl_sys e) = sy_world (dl_sys ?d)" "dl_posts e = dl_posts ?d"
    "sy_settled (dl_sys e) = map (map_prod (rekey other_key) id) (sy_settled (dl_sys ?d))"
    by blast
  with d s(2) show ?thesis by (intro exI [of _ ?d] exI [of _ e] exI [of _ p]) simp
qed

end
