(* ===== verification/Crashes.thy ===== *)
theory Crashes
  imports Async_System
begin

text \<open>
  The asynchronous path when processes die. A worker that dies in the middle of \<open>scan_task\<close> has not
  acknowledged its message, so the broker redelivers it with the same retry count; the run may have
  left its download behind, and may have stored its report and queued its callback. A web process
  that dies may never store the pending record of a job it queued. \<open>cr_reports\<close> is a history of every
  report a run made, settled or not, and \<open>cr_deaths\<close> counts the workers that died.
\<close>

record ('w, 'b) crashing =
  cr_sys :: "('w, 'b) system"
  cr_reports :: "(job \<times> payload) list"
  cr_deaths :: nat

text \<open>What the dead run leaves of its download: nothing, or a file with any content.\<close>

definition leave_file :: "string \<Rightarrow> 8 word list option \<Rightarrow> (string, 8 word list) dict \<Rightarrow> (string, 8 word list) dict" where
  "leave_file path left files = (case left of None \<Rightarrow> files | Some content \<Rightarrow> dict_set path content files)"

definition crash_world ::
    "string \<Rightarrow> 8 word list option \<Rightarrow> 'w \<Rightarrow> scan_state \<Rightarrow> 'b \<Rightarrow> (string \<times> payload) list \<Rightarrow> ('w, 'b) system \<Rightarrow> ('w, 'b) system" where
  "crash_world path left net sc b out s =
     s\<lparr>sy_world := \<lparr>wo_net = net, wo_store = b, wo_files = leave_file path left (wo_files (sy_world s)), wo_outbox = out, wo_scan = sc\<rparr>\<rparr>"

inductive crash_step ::
    "('w, 'b) env \<Rightarrow> loads \<Rightarrow> ('w, 'b) crashing \<Rightarrow> ('w, 'b) crashing \<Rightarrow> bool" for env loads where
  alive: "sys_step env loads (cr_sys c) s \<Longrightarrow>
     crash_step env loads c (c\<lparr>cr_sys := s,
       cr_reports := cr_reports c @ drop (length (sy_settled (cr_sys c))) (sy_settled s)\<rparr>)"
| died_working: "sy_queue (cr_sys c) = xs @ (jb, n) # ys \<Longrightarrow>
     crash_step env loads c (c\<lparr>cr_sys := crash_world path left net sc (wo_store (sy_world (cr_sys c))) (wo_outbox (sy_world (cr_sys c))) (cr_sys c),
       cr_deaths := Suc (cr_deaths c)\<rparr>)"
| died_reporting: "sy_queue (cr_sys c) = xs @ (jb, n) # ys \<Longrightarrow> path \<notin> fst ` set (wo_files (sy_world (cr_sys c))) \<Longrightarrow>
     scan_task env jb path dur (Some (int n)) (sy_world (cr_sys c)) = (Inr (), w) \<Longrightarrow>
     out \<in> {wo_outbox (sy_world (cr_sys c)), wo_outbox w} \<Longrightarrow>
     crash_step env loads c (c\<lparr>cr_sys := crash_world path left net sc (wo_store w) out (cr_sys c),
       cr_reports := cr_reports c @ [(jb, verdict_on jb (fst (scan_attempt env jb path dur (sy_world (cr_sys c)))))],
       cr_deaths := Suc (cr_deaths c)\<rparr>)"
| died_web: "sy_seeds (cr_sys c) = xs @ x # ys \<Longrightarrow>
     crash_step env loads c (c\<lparr>cr_sys := (cr_sys c)\<lparr>sy_seeds := xs @ ys\<rparr>\<rparr>)"

inductive crash_reach :: "('w, 'b) env \<Rightarrow> loads \<Rightarrow> ('w, 'b) crashing \<Rightarrow> bool" for env loads where
  init: "sys_init env s \<Longrightarrow> crash_reach env loads \<lparr>cr_sys = s, cr_reports = [], cr_deaths = 0\<rparr>"
| step: "crash_reach env loads c \<Longrightarrow> crash_step env loads c c' \<Longrightarrow> crash_reach env loads c'"

section \<open>The invariant\<close>

text \<open>The system with every report in the place of the settled ones: its steps are the same.\<close>

definition ghost :: "('w, 'b) crashing \<Rightarrow> ('w, 'b) system" where
  "ghost c = (cr_sys c)\<lparr>sy_settled := cr_reports c\<rparr>"

lemma ghost_fields [simp]:
  "sy_world (ghost c) = sy_world (cr_sys c)" "sy_queue (ghost c) = sy_queue (cr_sys c)" "sy_seeds (ghost c) = sy_seeds (cr_sys c)"
  "sy_accepted (ghost c) = sy_accepted (cr_sys c)" "sy_settled (ghost c) = cr_reports c" "job_ids (ghost c) = job_ids (cr_sys c)"
  "web_view (ghost c) = web_view (cr_sys c)"
  by (simp_all add: ghost_def job_ids_def web_view_def)

lemma sys_step_history:
  assumes "sys_step env loads s t"
  shows "sys_step env loads (s\<lparr>sy_settled := h\<rparr>) (t\<lparr>sy_settled := h @ drop (length (sy_settled s)) (sy_settled t)\<rparr>)"
  using assms
proof (cases rule: sys_step.cases)
  case (accept body names v jb job_id username)
  with sys_step.accept [of loads env body "s\<lparr>sy_settled := h\<rparr>" names v jb job_id username] show ?thesis
    by (cases s) (simp add: web_view_def job_ids_def)
next
  case (seed xs job_id username p ys)
  with sys_step.seed [of "s\<lparr>sy_settled := h\<rparr>" xs job_id username p ys env loads] show ?thesis by (cases s) simp
next
  case (work xs jb n ys path dur w)
  with sys_step.work [of "s\<lparr>sy_settled := h\<rparr>" xs jb n ys path env dur w loads] show ?thesis by (cases s) simp
next
  case (retry xs jb n ys path dur e w)
  with sys_step.retry [of "s\<lparr>sy_settled := h\<rparr>" xs jb n ys path env dur e w loads] show ?thesis by (cases s) simp
next
  case (drift b net)
  with sys_step.drift [of env "s\<lparr>sy_settled := h\<rparr>" b loads net] show ?thesis by (cases s) simp
qed

definition crash_ok :: "('w, 'b) env \<Rightarrow> ('w, 'b) crashing \<Rightarrow> bool" where
  "crash_ok env c \<longleftrightarrow>
     shows_ok env (ghost c)
     \<and> distinct (job_ids (cr_sys c))
     \<and> mset (map fst (sy_queue (cr_sys c))) + mset (map fst (sy_settled (cr_sys c))) = mset (map fst (sy_accepted (cr_sys c)))
     \<and> list_all (\<lambda>(jb, p). terminal jb p) (cr_reports c)
     \<and> mset (callbacks_of (sy_settled (cr_sys c))) \<subseteq># mset (wo_outbox (sy_world (cr_sys c)))
     \<and> mset (wo_outbox (sy_world (cr_sys c))) \<subseteq># mset (callbacks_of (cr_reports c))
     \<and> mset (sy_settled (cr_sys c)) \<subseteq># mset (cr_reports c)
     \<and> length (cr_reports c) \<le> length (sy_settled (cr_sys c)) + cr_deaths c
     \<and> length (wo_files (sy_world (cr_sys c))) \<le> cr_deaths c"

lemma crash_world_fields [simp]:
  "sy_queue (crash_world path left net sc b out s) = sy_queue s" "sy_seeds (crash_world path left net sc b out s) = sy_seeds s"
  "sy_accepted (crash_world path left net sc b out s) = sy_accepted s" "sy_settled (crash_world path left net sc b out s) = sy_settled s"
  "wo_store (sy_world (crash_world path left net sc b out s)) = b"
  "wo_outbox (sy_world (crash_world path left net sc b out s)) = out"
  "wo_files (sy_world (crash_world path left net sc b out s)) = leave_file path left (wo_files (sy_world s))"
  "job_ids (crash_world path left net sc b out s) = job_ids s"
  by (simp_all add: crash_world_def job_ids_def)

lemma length_leave_file: "length (leave_file path left files) \<le> Suc (length files)"
proof -
  have "length (dict_set path content files) \<le> Suc (length files)" for content
    by (induction files) (auto simp: dict_set_def)
  then show ?thesis by (simp add: leave_file_def split: option.split)
qed

lemma shown_more:
  "set (sy_accepted s) \<subseteq> set (sy_accepted t) \<Longrightarrow> set (sy_settled s) \<subseteq> set (sy_settled t) \<Longrightarrow> shown s j o' p \<Longrightarrow> shown t j o' p"
  unfolding shown_def by blast

lemma mset_sub_add: "A \<subseteq># B \<Longrightarrow> A \<subseteq># B + C"
  by (rule subset_mset.order_trans [OF _ mset_subset_eq_add_left])

lemma crash_ok_step:
  assumes "crash_step env loads c d" and "crash_ok env c"
    and laws: "backend_laws (en_backend env)" and up: "\<forall>m. en_send env m = Inr ()"
  shows "crash_ok env d"
  using assms(1)
proof (cases rule: crash_step.cases)
  case (alive s)
  obtain new where new: "sy_settled s = sy_settled (cr_sys c) @ new"
    "wo_outbox (sy_world s) = wo_outbox (sy_world (cr_sys c)) @ callbacks_of new"
    "list_all (\<lambda>(jb, p). terminal jb p) new" "wo_files (sy_world s) = wo_files (sy_world (cr_sys c))"
    by (rule step_settles [OF alive(2) up])
  have "sys_step env loads (ghost c) (ghost d)"
    using sys_step_history [OF alive(2), of "cr_reports c"] by (simp add: ghost_def alive(1))
  from shows_ok_step [OF this _ laws up] assms(2) have "shows_ok env (ghost d)" by (simp add: crash_ok_def)
  with step_accounts [OF alive(2)] new assms(2) show ?thesis
    by (auto simp: crash_ok_def alive(1) subset_mset.add_mono)
next
  case (died_working xs jb n ys path left net sc)
  have "shows_ok env (ghost d)"
    using assms(2) polls_ok_forget [of env "ghost c" "ghost d"] shown_more [of "ghost c" "ghost d"]
    by (auto simp: crash_ok_def shows_ok_def died_working(1) forgets_refl)
  then show ?thesis
    using assms(2) length_leave_file [of path left "wo_files (sy_world (cr_sys c))"] by (simp add: crash_ok_def died_working(1))
next
  case (died_reporting xs jb n ys path dur w out left net sc)
  let ?p = "verdict_on jb (fst (scan_attempt env jb path dur (sy_world (cr_sys c))))"
  have w: "reported env jb ?p (sy_world (cr_sys c)) w"
    by (cases rule: scan_task_cases [OF died_reporting(4,3)]) simp_all
  have sh: "shown (ghost d) (jb_id jb) (jb_client jb) ?p" by (auto simp: shown_def died_reporting(1))
  have mono: "shown (ghost c) i o' q \<Longrightarrow> shown (ghost d) i o' q" for i o' q
    by (rule shown_more) (auto simp: died_reporting(1))
  have "polls_ok env (ghost d)"
    by (rule polls_ok_write [OF laws, of "ghost c", OF _ sh mono])
       (use assms(2) w in \<open>auto simp: crash_ok_def shows_ok_def died_reporting(1) reported_def stored_def\<close>)
  then have "shows_ok env (ghost d)" using assms(2) mono by (auto simp: crash_ok_def shows_ok_def died_reporting(1))
  moreover have "mset (callbacks_of (sy_settled (cr_sys c))) \<subseteq># mset out \<and> mset out \<subseteq># mset (callbacks_of (cr_reports c @ [(jb, ?p)]))"
  proof -
    have "callbacks_of [(jb, ?p)] = callbacks jb ?p" by (simp add: callbacks_of_def)
    moreover have "out = wo_outbox (sy_world (cr_sys c)) \<or> out = wo_outbox (sy_world (cr_sys c)) @ callbacks jb ?p"
      using died_reporting(5) w by (auto simp: reported_def)
    ultimately show ?thesis
      using assms(2) by (auto simp: crash_ok_def intro: mset_sub_add)
  qed
  moreover have "mset (sy_settled (cr_sys c)) \<subseteq># mset (cr_reports c @ [(jb, ?p)])"
    unfolding mset_append using assms(2) by (intro mset_sub_add) (simp add: crash_ok_def)
  ultimately show ?thesis
    using assms(2) length_leave_file [of path left "wo_files (sy_world (cr_sys c))"] terminal_verdict_on
    by (simp add: crash_ok_def died_reporting(1))
next
  case (died_web xs x ys)
  have eq: "shown (ghost d) = shown (ghost c)" by (simp add: died_web(1) shown_def fun_eq_iff)
  have "shows_ok env (ghost d)"
    using assms(2) unfolding crash_ok_def shows_ok_def polls_ok_def eq by (simp add: died_web)
  then show ?thesis using assms(2) by (simp add: crash_ok_def died_web(1) job_ids_def)
qed

lemma reach_crash_ok:
  "crash_reach env loads c \<Longrightarrow> backend_laws (en_backend env) \<Longrightarrow> \<forall>m. en_send env m = Inr () \<Longrightarrow> crash_ok env c"
proof (induction rule: crash_reach.induct)
  case (init s)
  then show ?case
    by (simp add: sys_init_def crash_ok_def shows_ok_def polls_ok_def job_ids_def callbacks_of_def ghost_def)
qed (blast intro: crash_ok_step)

lemma known_accepted:
  assumes "crash_ok env c"
  shows "fst ` set (sy_queue (cr_sys c)) \<union> fst ` set (sy_settled (cr_sys c)) = fst ` set (sy_accepted (cr_sys c))"
proof -
  have "set_mset (mset (map fst (sy_queue (cr_sys c))) + mset (map fst (sy_settled (cr_sys c)))) = set_mset (mset (map fst (sy_accepted (cr_sys c))))"
    using assms by (simp add: crash_ok_def)
  then show ?thesis by simp
qed

lemma reports_accepted:
  assumes "crash_reach env loads c" and "backend_laws (en_backend env)" and "\<forall>m. en_send env m = Inr ()"
  shows "fst ` set (cr_reports c) \<subseteq> fst ` set (sy_accepted (cr_sys c))"
  using assms(1)
proof (induction rule: crash_reach.induct)
  case (step c d)
  note ok = known_accepted [OF reach_crash_ok [OF step.hyps(1) assms(2,3)]]
    known_accepted [OF reach_crash_ok [OF crash_reach.step [OF step.hyps] assms(2,3)]]
  from step.hyps(2) show ?case
  proof (cases rule: crash_step.cases)
    case (alive s)
    have "set (drop (length (sy_settled (cr_sys c))) (sy_settled s)) \<subseteq> set (sy_settled s)" by (rule set_drop_subset)
    then have "fst ` set (drop (length (sy_settled (cr_sys c))) (sy_settled s)) \<subseteq> fst ` set (sy_accepted s)"
      using ok(2) unfolding alive(1) by (simp add: image_mono subset_trans) blast
    moreover have "fst ` set (sy_accepted (cr_sys c)) \<subseteq> fst ` set (sy_accepted s)"
      by (rule image_mono) (rule step_accepted [OF alive(2)])
    ultimately show ?thesis using step.IH by (simp add: alive(1) image_Un)
  next
    case (died_reporting xs jb n ys path dur w out left net sc)
    then show ?thesis using step.IH ok(1) by auto
  qed (use step.IH in simp_all)
qed simp


section \<open>A run that dies after its callback\<close>

lemma reach_crashless:
  "sys_reach env loads s \<Longrightarrow> crash_reach env loads \<lparr>cr_sys = s, cr_reports = sy_settled s, cr_deaths = 0\<rparr>"
proof (induction rule: sys_reach.induct)
  case (init s)
  then show ?case using crash_reach.init [OF init] by (simp add: sys_init_def)
next
  case (step s t)
  obtain new where "sy_settled t = sy_settled s @ new"
    using step.hyps(2) by (cases rule: sys_step.cases) auto
  moreover have "sys_step env loads (cr_sys \<lparr>cr_sys = s, cr_reports = sy_settled s, cr_deaths = 0\<rparr>) t" using step.hyps(2) by simp
  ultimately show ?case using crash_reach.step [OF step.IH crash_step.alive] by fastforce
qed


end
