(* ===== verification/Delivery_Crashes.thy ===== *)
theory Delivery_Crashes
  imports Callbacks Crashes
begin

text \<open>
  The delivery of the callbacks when processes die: the service of \<open>Crashes\<close> with the delivery
  workers of \<open>Callbacks\<close> on top, which die as well. A worker that dies in \<open>deliver_webhook\<close>
  (\<open>src/tasks.py\<close>) has not acknowledged its message, so the broker keeps it, with its retry count;
  the POST may have left already. Requeueing a failed message and acknowledging it is one step of
  the broker, as in \<open>Crashes\<close>.
\<close>

record ('w, 'b) outage =
  ot_sys :: "('w, 'b) crashing"
  ot_queue :: "((string \<times> payload) \<times> nat) list"
  ot_done :: "(string \<times> payload) list"
  ot_dead :: "(string \<times> payload) list"
  ot_posts :: "post list"
  ot_deaths :: nat

definition queued_out :: "('w, 'b) crashing \<Rightarrow> (string \<times> payload) list" where
  "queued_out c = outbox (cr_sys c)"

definition adrift :: "'w \<Rightarrow> ('w, 'b) crashing \<Rightarrow> ('w, 'b) crashing" where
  "adrift w c = c\<lparr>cr_sys := set_net w (cr_sys c)\<rparr>"

definition net_of :: "('w, 'b) crashing \<Rightarrow> 'w" where
  "net_of c = wo_net (sy_world (cr_sys c))"

inductive out_step ::
    "('w, 'b) env \<Rightarrow> loads \<Rightarrow> 'w sender \<Rightarrow> ('w, 'b) outage \<Rightarrow> ('w, 'b) outage \<Rightarrow> bool" for env loads sd where
  service: "crash_step env loads (ot_sys d) c \<Longrightarrow>
     out_step env loads sd d (d\<lparr>ot_sys := c,
       ot_queue := ot_queue d @ map (\<lambda>m. (m, 0)) (drop (length (queued_out (ot_sys d))) (queued_out c))\<rparr>)"
| delivered: "ot_queue d = xs @ ((url, p), n) # ys \<Longrightarrow>
     run_webhook (en_cfg env) sd url p now (net_of (ot_sys d)) = (Inr (), ps, w) \<Longrightarrow>
     out_step env loads sd d (d\<lparr>ot_sys := adrift w (ot_sys d), ot_queue := xs @ ys,
       ot_done := ot_done d @ [(url, p)], ot_posts := ot_posts d @ ps\<rparr>)"
| again: "ot_queue d = xs @ ((url, p), n) # ys \<Longrightarrow>
     run_webhook (en_cfg env) sd url p now (net_of (ot_sys d)) = (Inl e, ps, w) \<Longrightarrow>
     int n < cfg_webhook_max_attempts (en_cfg env) \<Longrightarrow>
     out_step env loads sd d (d\<lparr>ot_sys := adrift w (ot_sys d), ot_queue := xs @ ys @ [((url, p), Suc n)],
       ot_posts := ot_posts d @ ps\<rparr>)"
| buried: "ot_queue d = xs @ ((url, p), n) # ys \<Longrightarrow>
     run_webhook (en_cfg env) sd url p now (net_of (ot_sys d)) = (Inl e, ps, w) \<Longrightarrow>
     cfg_webhook_max_attempts (en_cfg env) \<le> int n \<Longrightarrow>
     out_step env loads sd d (d\<lparr>ot_sys := adrift w (ot_sys d), ot_queue := xs @ ys,
       ot_dead := ot_dead d @ [(url, p)], ot_posts := ot_posts d @ ps\<rparr>)"
| died_delivering: "ot_queue d = xs @ ((url, p), n) # ys \<Longrightarrow>
     run_webhook (en_cfg env) sd url p now (net_of (ot_sys d)) = (r, ps, w) \<Longrightarrow>
     out_step env loads sd d (d\<lparr>ot_sys := adrift net (ot_sys d), ot_posts := ot_posts d @ take k ps,
       ot_deaths := Suc (ot_deaths d)\<rparr>)"

inductive out_reach ::
    "('w, 'b) env \<Rightarrow> loads \<Rightarrow> 'w sender \<Rightarrow> ('w, 'b) outage \<Rightarrow> bool" for env loads sd where
  init: "sys_init env s \<Longrightarrow>
     out_reach env loads sd \<lparr>ot_sys = \<lparr>cr_sys = s, cr_reports = [], cr_deaths = 0\<rparr>,
       ot_queue = [], ot_done = [], ot_dead = [], ot_posts = [], ot_deaths = 0\<rparr>"
| step: "out_reach env loads sd d \<Longrightarrow> out_step env loads sd d d' \<Longrightarrow> out_reach env loads sd d'"

section \<open>The service inside\<close>

lemma queued_out_adrift [simp]: "queued_out (adrift w c) = queued_out c"
  by (simp add: queued_out_def adrift_def)

lemma adrift_step: "crash_step env loads c (adrift w c)"
  using crash_step.alive [OF set_net_drift [of env loads "cr_sys c" w]] by (simp add: adrift_def)

lemma out_step_sys: "out_step env loads sd d d' \<Longrightarrow> crash_step env loads (ot_sys d) (ot_sys d')"
  by (erule out_step.cases) (simp_all add: adrift_step)

lemma out_reach_sys: "out_reach env loads sd d \<Longrightarrow> crash_reach env loads (ot_sys d)"
proof (induction rule: out_reach.induct)
  case (step d d')
  from step.IH out_step_sys [OF step.hyps(2)] show ?case by (rule crash_reach.step)
qed (simp add: crash_reach.init)

lemma queued_out_grows:
  assumes "crash_step env loads c c'" and "\<forall>m. en_send env m = Inr ()"
  shows "\<exists>ms. queued_out c' = queued_out c @ ms"
  using assms(1)
proof (cases rule: crash_step.cases)
  case (alive s)
  then show ?thesis using outbox_grows [OF _ assms(2)] by (simp add: queued_out_def)
next
  case (died_reporting xs jb n ys path dur w out left net sc)
  have "\<exists>ms. wo_outbox w = wo_outbox (sy_world (cr_sys c)) @ ms"
    by (cases rule: scan_task_cases [OF died_reporting(4,3)]) (auto simp: reported_def)
  with died_reporting(1,5) show ?thesis by (auto simp: queued_out_def outbox_def)
qed (auto simp: queued_out_def outbox_def)

section \<open>At least once, and how often at most\<close>

text \<open>A callback whose host does not pass the address check, or has ceased to, is dropped: the task
  returns without a POST. Otherwise a delivery that returns has made one.\<close>

definition refused_host :: "('w, 'b) env \<Rightarrow> 'w sender \<Rightarrow> string \<Rightarrow> payload \<Rightarrow> bool" where
  "refused_host env sd url p \<longleftrightarrow>
     (\<exists>token w m w'. pin (en_cfg env) (nw_dns (sd_post sd (sd_dumps sd p) (webhook_headers token))) ''post'' url w
        = (Inl (SSRFValidationError m), w'))"

lemma unfollowed_silent:
  assumes "request_with_redirects cfg nw http_method False url w = (r, [], w')"
  shows "\<exists>e. r = Inl e \<and> pin cfg (nw_dns nw) http_method url w = (Inl e, w')"
proof -
  have six: "max_redirects + 1 = Suc 5" by (simp add: max_redirects_def)
  from assms show ?thesis unfolding request_with_redirects_def six hops_unfollowed by (auto split: prod.splits sum.splits)
qed

lemma run_webhook_delivers:
  assumes "run_webhook (en_cfg env) sd url p now w = (Inr (), ps, w')"
  shows "(\<exists>po\<in>set ps. signed_post env sd url p po) \<or> refused_host env sd url p"
proof (cases "ps = []")
  case True
  obtain token where t: "sign_webhook (sd_lib sd) (en_cfg env) (sd_key sd) url (sd_dumps sd p) now = Inr token"
    and run: "run_webhook (en_cfg env) sd url p now w =
       (case deliver_webhook (en_cfg env) (sd_lib sd) (sd_key sd) (sd_dumps sd) (sd_post sd) url p now w of
          (r, cs, w') \<Rightarrow> (r, map (\<lambda>c. \<lparr>po_body = sd_dumps sd p, po_headers = webhook_headers token, po_conn = c\<rparr>) cs, w'))"
    by (rule run_webhook_eq)
  obtain q where q: "request_with_redirects (en_cfg env) (sd_post sd (sd_dumps sd p) (webhook_headers token)) ''post'' False url w = (q, [], w')"
    and out: "webhook_outcome (rbind q webhook_answer) = Inr ()"
    using assms True unfolding run by (auto simp: deliver_webhook_def t split: prod.splits)
  from unfollowed_silent [OF q] obtain e where
    e: "q = Inl e" "pin (en_cfg env) (nw_dns (sd_post sd (sd_dumps sd p) (webhook_headers token))) ''post'' url w = (Inl e, w')"
    by blast
  from out obtain m where "e = SSRFValidationError m" by (cases e) (simp_all add: e(1) webhook_outcome_def)
  with e(2) show ?thesis unfolding refused_host_def by blast
next
  case False
  have "list_all (post_ok env sd {(url, p)}) ps" by (rule run_webhook_posts(1) [OF assms]) simp
  with False show ?thesis by (cases ps) (auto simp: post_ok_def)
qed

abbreviation budget :: "('w, 'b) env \<Rightarrow> nat" where
  "budget env \<equiv> nat (cfg_webhook_max_attempts (en_cfg env))"

text \<open>The invariant, on the fields of the state one by one.\<close>

definition posts_ok :: "('w, 'b) env \<Rightarrow> 'w sender \<Rightarrow> (string \<times> payload) list \<Rightarrow> (string \<times> payload) list \<Rightarrow> post list \<Rightarrow> bool" where
  "posts_ok env sd out dn posts \<longleftrightarrow>
     list_all (post_ok env sd (set out)) posts
     \<and> list_all (\<lambda>(url, p). (\<exists>po\<in>set posts. signed_post env sd url p po) \<or> refused_host env sd url p) dn"

definition counts_ok :: "nat \<Rightarrow> ((string \<times> payload) \<times> nat) list \<Rightarrow> nat \<Rightarrow> nat \<Rightarrow> nat \<Rightarrow> bool" where
  "counts_ok b queue settled deaths posts \<longleftrightarrow>
     list_all (\<lambda>(m, n). n \<le> b) queue \<and> posts \<le> Suc b * settled + sum_list (map snd queue) + deaths"

definition out_ok :: "('w, 'b) env \<Rightarrow> 'w sender \<Rightarrow> ('w, 'b) outage \<Rightarrow> bool" where
  "out_ok env sd d \<longleftrightarrow>
     mset (map fst (ot_queue d)) + mset (ot_done d) + mset (ot_dead d) = mset (queued_out (ot_sys d))
     \<and> posts_ok env sd (queued_out (ot_sys d)) (ot_done d) (ot_posts d)
     \<and> counts_ok (budget env) (ot_queue d) (length (ot_done d) + length (ot_dead d)) (ot_deaths d) (length (ot_posts d))"

lemma posts_ok_more:
  assumes "posts_ok env sd out dn posts" and "list_all (post_ok env sd (set out)) ps"
  shows "posts_ok env sd (out @ ms) dn (posts @ ps)"
proof -
  have "post_ok env sd (set (out @ ms)) po" if "post_ok env sd (set out) po" for po
    by (rule post_ok_mono [OF that]) simp
  with assms show ?thesis unfolding posts_ok_def list_all_iff set_append by blast
qed

lemma posts_ok_done:
  assumes "posts_ok env sd out dn posts" and "(\<exists>po\<in>set posts. signed_post env sd url p po) \<or> refused_host env sd url p"
  shows "posts_ok env sd out (dn @ [(url, p)]) posts"
  using assms by (simp add: posts_ok_def)

lemma counts_ok_settle:
  "counts_ok b (xs @ (m, n) # ys) settled deaths posts \<Longrightarrow> new \<le> 1 \<Longrightarrow> counts_ok b (xs @ ys) (Suc settled) deaths (posts + new)"
  by (auto simp: counts_ok_def)

lemma counts_ok_again:
  "counts_ok b (xs @ (m, n) # ys) settled deaths posts \<Longrightarrow> new \<le> 1 \<Longrightarrow> n < b
     \<Longrightarrow> counts_ok b (xs @ ys @ [(m, Suc n)]) settled deaths (posts + new)"
  by (auto simp: counts_ok_def)

lemma callback_queued:
  assumes "out_ok env sd d" and "ot_queue d = xs @ (m, n) # ys"
  shows "m \<in> set (queued_out (ot_sys d))"
proof -
  have "m \<in># mset (map fst (ot_queue d))" using assms(2) by simp
  then have "m \<in># mset (queued_out (ot_sys d))" using assms(1) unfolding out_ok_def by (metis UnI1 set_mset_union)
  then show ?thesis by simp
qed

lemma out_ok_counts:
  "out_ok env sd d \<Longrightarrow> ot_queue d = q
     \<Longrightarrow> counts_ok (budget env) q (length (ot_done d) + length (ot_dead d)) (ot_deaths d) (length (ot_posts d))"
  by (simp add: out_ok_def)

lemma out_ok_step:
  assumes "out_step env loads sd d d'" and "out_ok env sd d" and "\<forall>m. en_send env m = Inr ()"
  shows "out_ok env sd d'"
  using assms(1)
proof (cases rule: out_step.cases)
  case (service c)
  obtain ms where ms: "queued_out c = queued_out (ot_sys d) @ ms" using queued_out_grows [OF service(2) assms(3)] by blast
  have "posts_ok env sd (queued_out c) (ot_done d) (ot_posts d)"
    using posts_ok_more [of env sd _ _ _ "[]" ms] assms(2) by (simp add: out_ok_def ms)
  moreover have "counts_ok (budget env) (ot_queue d @ map (\<lambda>m. (m, 0)) ms) k j i" if "counts_ok (budget env) (ot_queue d) k j i" for k j i
    using that by (auto simp: counts_ok_def comp_def sum_list_triv list_all_iff)
  ultimately show ?thesis using assms(2) by (simp add: service(1) ms out_ok_def comp_def add.assoc)
next
  case (delivered xs url p n ys now ps w)
  note posts = run_webhook_posts [OF delivered(3) callback_queued [OF assms(2) delivered(2)]]
  have "posts_ok env sd (queued_out (ot_sys d)) (ot_done d @ [(url, p)]) (ot_posts d @ ps)"
    using posts_ok_more [OF _ posts(1), where ms = "[]"] run_webhook_delivers [OF delivered(3)] assms(2)
    by (intro posts_ok_done) (auto simp: out_ok_def)
  then show ?thesis using assms(2) counts_ok_settle [OF out_ok_counts [OF assms(2) delivered(2)] posts(2)] by (simp add: delivered(1,2) out_ok_def)
next
  case (again xs url p n ys now e ps w)
  note posts = run_webhook_posts [OF again(3) callback_queued [OF assms(2) again(2)]]
  have "n < budget env" using again(4) by simp
  then show ?thesis
    using assms(2) counts_ok_again [OF out_ok_counts [OF assms(2) again(2)] posts(2)] posts_ok_more [OF _ posts(1), where ms = "[]"]
    by (simp add: again(1,2) out_ok_def)
next
  case (buried xs url p n ys now e ps w)
  note posts = run_webhook_posts [OF buried(3) callback_queued [OF assms(2) buried(2)]]
  show ?thesis
    using assms(2) counts_ok_settle [OF out_ok_counts [OF assms(2) buried(2)] posts(2)] posts_ok_more [OF _ posts(1), where ms = "[]"]
    by (simp add: buried(1,2) out_ok_def)
next
  case (died_delivering xs url p n ys now r ps w k net)
  note posts = run_webhook_posts [OF died_delivering(3) callback_queued [OF assms(2) died_delivering(2)]]
  have "list_all (post_ok env sd (set (queued_out (ot_sys d)))) (take k ps)" "length (take k ps) \<le> 1"
    using posts by (auto simp: list_all_iff dest: in_set_takeD)
  then show ?thesis
    using assms(2) posts_ok_more [of env sd "queued_out (ot_sys d)" "ot_done d" "ot_posts d" "take k ps" "[]"]
    by (auto simp: died_delivering(1) out_ok_def counts_ok_def)
qed

lemma reach_out_ok: "out_reach env loads sd d \<Longrightarrow> \<forall>m. en_send env m = Inr () \<Longrightarrow> out_ok env sd d"
proof (induction rule: out_reach.induct)
  case (init s)
  then show ?case by (simp add: out_ok_def sys_init_def queued_out_def outbox_def posts_ok_def counts_ok_def)
qed (blast intro: out_ok_step)

lemma length_callbacks_of: "length (callbacks_of xs) \<le> length xs"
proof (induction xs)
  case (Cons x xs)
  then show ?case by (cases x) (auto simp: callbacks_of_def callbacks_def split: option.split)
qed (simp add: callbacks_of_def)

lemma sum_counts_le: "list_all (\<lambda>(m, n). n \<le> b) q \<Longrightarrow> sum_list (map snd q) \<le> b * length q"
  by (induction q) auto

lemma counts_ok_bound: "counts_ok b q settled deaths posts \<Longrightarrow> posts \<le> Suc b * (settled + length q) + deaths"
  using sum_counts_le [of b q] by (auto simp: counts_ok_def algebra_simps)

text \<open>A POST that carries what a run of an accepted job reported to the job's own callback URL.\<close>

definition signed_report :: "('w, 'b) env \<Rightarrow> 'w sender \<Rightarrow> ('w, 'b) crashing \<Rightarrow> post \<Rightarrow> bool" where
  "signed_report env sd c po \<longleftrightarrow>
     (\<exists>jb p url. (jb, p) \<in> set (cr_reports c) \<and> terminal jb p \<and> jb \<in> fst ` set (sy_accepted (cr_sys c))
        \<and> jb_webhook jb = Some url \<and> signed_post env sd url (serialize p (jb_version jb)) po)"

text \<open>C6: Callbacks survive dying processes, delivered at least once and not arbitrarily often. Whenever
  web processes, scan workers and delivery workers die, and in whatever order the survivors go on:
  the callback of every settled job is pending, delivered or dead-lettered, and nothing is that a
  run of a job did not report; every POST ever made is the signed report of a run of an accepted
  job to that job's own callback URL; a callback counts as delivered only after its POST, or
  because its host was refused by the address check; and there are at most one POST more than
  \<open>WEBHOOK_MAX_ATTEMPTS\<close> for each settled job and each scan worker that died, and one for each
  delivery worker that died.\<close>

theorem deliveries_survive_crashes:
  assumes "out_reach env loads sd d" and "backend_laws (en_backend env)" and "\<forall>m. en_send env m = Inr ()"
  shows "mset (callbacks_of (sy_settled (cr_sys (ot_sys d)))) \<subseteq># mset (map fst (ot_queue d)) + mset (ot_done d) + mset (ot_dead d)
    \<and> mset (map fst (ot_queue d)) + mset (ot_done d) + mset (ot_dead d) \<subseteq># mset (callbacks_of (cr_reports (ot_sys d)))
    \<and> list_all (signed_report env sd (ot_sys d)) (ot_posts d)
    \<and> list_all (\<lambda>(url, p). (\<exists>po\<in>set (ot_posts d). signed_post env sd url p po) \<or> refused_host env sd url p) (ot_done d)
    \<and> length (ot_posts d) \<le> Suc (nat (cfg_webhook_max_attempts (en_cfg env)))
         * (length (sy_settled (cr_sys (ot_sys d))) + cr_deaths (ot_sys d)) + ot_deaths d"
proof -
  have r: "crash_reach env loads (ot_sys d)" by (rule out_reach_sys [OF assms(1)])
  note inner = reach_crash_ok [OF r assms(2,3), unfolded crash_ok_def] and ok = reach_out_ok [OF assms(1,3)]
  let ?m = "mset (map fst (ot_queue d)) + mset (ot_done d) + mset (ot_dead d)"
  have out: "?m = mset (queued_out (ot_sys d))" using ok by (simp add: out_ok_def)
  have sub: "mset (queued_out (ot_sys d)) \<subseteq># mset (callbacks_of (cr_reports (ot_sys d)))"
    using inner by (simp add: queued_out_def outbox_def)
  have "signed_report env sd (ot_sys d) po" if "post_ok env sd (set (queued_out (ot_sys d))) po" for po
  proof -
    from that obtain url q where q: "(url, q) \<in> set (queued_out (ot_sys d))" "signed_post env sd url q po"
      by (auto simp: post_ok_def)
    from q(1) have "(url, q) \<in> set (callbacks_of (cr_reports (ot_sys d)))" using set_mset_mono [OF sub] by auto
    then obtain jb p where jb: "(jb, p) \<in> set (cr_reports (ot_sys d))" "jb_webhook jb = Some url" "q = serialize p (jb_version jb)"
      unfolding set_callbacks_of by blast
    moreover have "terminal jb p" "jb \<in> fst ` set (sy_accepted (cr_sys (ot_sys d)))"
      using inner reports_accepted [OF r assms(2,3)] jb(1) by (force simp: list_all_iff)+
    ultimately show ?thesis using q(2) unfolding signed_report_def by blast
  qed
  then have posts: "list_all (signed_report env sd (ot_sys d)) (ot_posts d)"
    using ok by (auto simp: out_ok_def posts_ok_def list_all_iff)
  have "size ?m = length (ot_queue d) + length (ot_done d) + length (ot_dead d)" by simp
  then have len: "length (ot_done d) + length (ot_dead d) + length (ot_queue d) \<le> length (sy_settled (cr_sys (ot_sys d))) + cr_deaths (ot_sys d)"
    using size_mset_mono [OF sub] length_callbacks_of [of "cr_reports (ot_sys d)"] inner unfolding out by simp
  have "length (ot_posts d) \<le> Suc (budget env) * (length (ot_done d) + length (ot_dead d) + length (ot_queue d)) + ot_deaths d"
    by (rule counts_ok_bound [OF out_ok_counts [OF ok refl]])
  also have "\<dots> \<le> Suc (budget env) * (length (sy_settled (cr_sys (ot_sys d))) + cr_deaths (ot_sys d)) + ot_deaths d"
    by (intro add_right_mono mult_le_mono2 len)
  finally have "length (ot_posts d) \<le> Suc (budget env) * (length (sy_settled (cr_sys (ot_sys d))) + cr_deaths (ot_sys d)) + ot_deaths d" .
  with posts ok inner sub show ?thesis by (simp add: out out_ok_def posts_ok_def queued_out_def outbox_def)
qed

section \<open>A delivery that dies after its POST\<close>

lemma out_reach_service:
  assumes "crash_reach env loads c" and "\<forall>m. en_send env m = Inr ()"
  shows "out_reach env loads sd \<lparr>ot_sys = c, ot_queue = map (\<lambda>m. (m, 0)) (queued_out c), ot_done = [], ot_dead = [],
    ot_posts = [], ot_deaths = 0\<rparr>"
  using assms(1)
proof (induction rule: crash_reach.induct)
  case (init s)
  then show ?case using out_reach.init [OF init] by (simp add: queued_out_def outbox_def sys_init_def)
next
  case (step c c')
  obtain ms where ms: "queued_out c' = queued_out c @ ms" using queued_out_grows [OF step.hyps(2) assms(2)] by blast
  let ?d = "\<lparr>ot_sys = c, ot_queue = map (\<lambda>m. (m, 0)) (queued_out c), ot_done = [], ot_dead = [], ot_posts = [], ot_deaths = 0\<rparr>"
  have "crash_step env loads (ot_sys ?d) c'" using step.hyps(2) by simp
  from out_reach.step [OF step.IH out_step.service [OF this]] show ?case by (simp add: ms)
qed

text \<open>The receiver gets the callback twice, and both times it is the signed report of its job.\<close>

theorem deliveries_survive_crashes_witness:
  "\<exists>d p po. out_reach race_env sample_loads hook_sender d \<and> ot_posts d = [po, po] \<and> ot_queue d = []
     \<and> ot_done d = callbacks race_job p \<and> ot_deaths d = 1 \<and> signed_report race_env hook_sender (ot_sys d) po"
proof -
  obtain s p where s: "sys_reach race_env sample_loads s" "sy_settled s = [(race_job, p)]"
    "wo_outbox (sy_world s) = callbacks race_job p"
    using race_settled by blast
  let ?url = "''https://drive.example/hook''"
  let ?c = "\<lparr>cr_sys = s, cr_reports = sy_settled s, cr_deaths = 0\<rparr>"
  let ?d = "\<lparr>ot_sys = ?c, ot_queue = map (\<lambda>m. (m, 0)) (queued_out ?c), ot_done = [], ot_dead = [], ot_posts = [], ot_deaths = 0\<rparr>"
  have env: "backend_laws (en_backend race_env)" "\<forall>m. en_send race_env m = Inr ()" "en_cfg race_env = async_cfg"
    by (simp_all add: race_env_def sample_env_def list_backend_laws)
  obtain po where po: "run_webhook (en_cfg race_env) hook_sender ?url (serialize p v2) 100 w = (Inr (), [po], ())" for w
    unfolding env(3) using hook_delivered [of async_cfg "serialize p v2" 100] by auto
  have q: "ot_queue ?d = [] @ ((?url, serialize p v2), 0) # []"
    using s(3) by (simp add: queued_out_def outbox_def race_callbacks)
  have r: "out_reach race_env sample_loads hook_sender ?d" by (rule out_reach_service [OF reach_crashless [OF s(1)] env(2)])
  let ?e = "?d\<lparr>ot_sys := adrift () ?c, ot_posts := [] @ take 1 [po], ot_deaths := Suc 0\<rparr>"
  have e: "out_reach race_env sample_loads hook_sender ?e"
    using out_reach.step [OF r out_step.died_delivering [OF q po, where net = "()" and k = 1]] by simp
  have q2: "ot_queue ?e = [] @ ((?url, serialize p v2), 0) # []" using q by simp
  let ?f = "?e\<lparr>ot_sys := adrift () (adrift () ?c), ot_queue := [] @ [], ot_done := [(?url, serialize p v2)], ot_posts := [po] @ [po]\<rparr>"
  have f: "out_reach race_env sample_loads hook_sender ?f"
    using out_reach.step [OF e out_step.delivered [OF q2 po]] by simp
  from deliveries_survive_crashes [OF f env(1,2)] have "signed_report race_env hook_sender (ot_sys ?f) po" by simp
  with f show ?thesis by (intro exI [of _ ?f] exI [of _ p] exI [of _ po]) (simp add: race_callbacks)
qed

end
