(* ===== verification/Scanner_Pool.thy ===== *)
theory Scanner_Pool
  imports Run_Scanners "HOL-Library.Multiset"
begin

text \<open>
  The threads behind \<open>run_scanners\<close> (\<open>src/scanner.py\<close>): one per scanner of a call, all of a call in
  its own \<open>ThreadPoolExecutor\<close>, and several calls at a time, because the synchronous endpoint runs
  in the threads of the web process. They share \<open>_cache\<close> and the metrics registry and are
  interleaved at every access to either; nothing locks the cache. \<open>Run_Scanners\<close> runs one call
  after the other and the scanners of a call in the order of their names; here this is shown to be
  what every schedule amounts to.
\<close>

text \<open>The arguments of one call of \<open>run_scanners\<close>.\<close>

record call =
  ca_names :: "string list"
  ca_open :: "string \<Rightarrow> 8 word list result"
  ca_dur :: "string \<Rightarrow> rat"
  ca_client :: string

text \<open>
  Where a thread of \<open>_one\<close> stands: before \<open>name not in _cache\<close>; with a scanner built but not
  stored; before reading \<open>_cache[name]\<close>; with its scanner, before or during the scan; with a
  result whose counter is to be raised; with one whose time is to be observed; returned.
\<close>

datatype pc =
    Waiting
  | Building scanner
  | Reading
  | Scanning scanner
  | Counting scanner_result
  | Timing scanner_result
  | Returned "scanner_result result"

text \<open>The two halves of \<open>metrics.record\<close>, each atomic under the lock of its metric.\<close>

definition count_scan :: "scanner_result \<Rightarrow> string \<Rightarrow> metrics \<Rightarrow> metrics" where
  "count_scan r api_client m =
     m\<lparr>mt_scans := dict_set (scan_labels api_client r) (Suc (scans_at m (scan_labels api_client r))) (mt_scans m)\<rparr>"

definition observe_time :: "scanner_result \<Rightarrow> string \<Rightarrow> metrics \<Rightarrow> metrics" where
  "observe_time r api_client m =
     m\<lparr>mt_durations := dict_set (sr_scanner r, api_client)
         (durations_at m (sr_scanner r, api_client) @ [sr_time r]) (mt_durations m)\<rparr>"

fun thread_step ::
    "settings \<Rightarrow> builders \<Rightarrow> call \<Rightarrow> string \<Rightarrow> pc \<Rightarrow> scan_state \<Rightarrow> pc \<times> scan_state" where
  "thread_step cfg builders ca name Waiting (c, m) =
     (if map_of c name \<noteq> None then (Reading, (c, m))
      else case map_of builders name of
             None \<Rightarrow> (Returned (Inl (KeyError (py_repr name))), (c, m))
           | Some (Inl e) \<Rightarrow> (Returned (Inl e), (c, m))
           | Some (Inr s) \<Rightarrow> (Building s, (c, m)))"
| "thread_step cfg builders ca name (Building s) (c, m) = (Reading, (dict_set name s c, m))"
| "thread_step cfg builders ca name Reading (c, m) =
     (case map_of c name of
        None \<Rightarrow> (Returned (Inl (KeyError (py_repr name))), (c, m))
      | Some s \<Rightarrow> (Scanning s, (c, m)))"
| "thread_step cfg builders ca name (Scanning s) (c, m) =
     (Counting (scan_result cfg (ca_open ca) (ca_dur ca) name s), (c, m))"
| "thread_step cfg builders ca name (Counting r) (c, m) = (Timing r, (c, count_scan r (ca_client ca) m))"
| "thread_step cfg builders ca name (Timing r) (c, m) = (Returned (Inr r), (c, observe_time r (ca_client ca) m))"
| "thread_step cfg builders ca name (Returned r) (c, m) = (Returned r, (c, m))"

text \<open>Every call with its threads, over the shared state; any thread that has not returned may be the next.\<close>

type_synonym pool = "(call \<times> (string \<times> pc) list) list \<times> scan_state"

fun returned :: "pc \<Rightarrow> bool" where
  "returned (Returned r) = True"
| "returned pc = False"

definition start_pool :: "call list \<Rightarrow> scan_state \<Rightarrow> pool" where
  "start_pool calls s = (map (\<lambda>ca. (ca, map (\<lambda>n. (n, Waiting)) (ca_names ca))) calls, s)"

inductive pool_step :: "settings \<Rightarrow> builders \<Rightarrow> pool \<Rightarrow> pool \<Rightarrow> bool" for cfg builders where
  thread: "\<not> returned pc \<Longrightarrow> thread_step cfg builders ca name pc s = (pc', s') \<Longrightarrow>
     pool_step cfg builders (xs @ (ca, us @ (name, pc) # vs) # ys, s) (xs @ (ca, us @ (name, pc') # vs) # ys, s')"

text \<open>What a call gives once its pool is shut down, that is when all its threads have returned: the
  first exception in the order of the names, or the results; a pool of no threads is refused.\<close>

fun thread_answer :: "pc \<Rightarrow> scanner_result result option" where
  "thread_answer (Returned r) = Some r"
| "thread_answer pc = None"

definition call_answer :: "call \<times> (string \<times> pc) list \<Rightarrow> report result option" where
  "call_answer = (\<lambda>(ca, ts).
     if ca_names ca = [] then Some (Inl (ValueError ''max_workers must be greater than 0''))
     else map_option (collect (\<lambda>r. r)) (those (map (thread_answer \<circ> snd) ts)))"

definition finished :: "pool \<Rightarrow> bool" where
  "finished p \<longleftrightarrow> (\<forall>(ca, ts)\<in>set (fst p). \<forall>(n, pc)\<in>set ts. returned pc)"

text \<open>The reference: the calls one after another.\<close>

fun serial :: "settings \<Rightarrow> builders \<Rightarrow> call list \<Rightarrow> scan_state \<Rightarrow> report result list \<times> scan_state" where
  "serial cfg builders [] s = ([], s)"
| "serial cfg builders (ca # cas) s =
     (case run_scanners cfg builders (ca_names ca) (ca_open ca) (ca_dur ca) (ca_client ca) s of
        (r, s') \<Rightarrow> (case serial cfg builders cas s' of (rs, s'') \<Rightarrow> (r # rs, s'')))"

section \<open>What one thread gives\<close>

definition final_result :: "settings \<Rightarrow> builders \<Rightarrow> call \<Rightarrow> string \<Rightarrow> scanner_result result" where
  "final_result cfg builders ca n = rbind (build builders n) (\<lambda>s. Inr (scan_result cfg (ca_open ca) (ca_dur ca) n s))"

definition call_result :: "settings \<Rightarrow> builders \<Rightarrow> call \<Rightarrow> report result" where
  "call_result cfg builders ca =
     (if ca_names ca = [] then Inl (ValueError ''max_workers must be greater than 0'')
      else collect (\<lambda>r. r) (map (final_result cfg builders ca) (ca_names ca)))"

fun oks :: "'a result list \<Rightarrow> 'a list" where
  "oks [] = []"
| "oks (Inl e # rs) = oks rs"
| "oks (Inr x # rs) = x # oks rs"

definition buildable :: "builders \<Rightarrow> string list \<Rightarrow> string set" where
  "buildable builders names = {n \<in> set names. \<exists>s. build builders n = Inr s}"

lemma build_cached: "cache_ok builders c \<Longrightarrow> map_of c n = Some s \<Longrightarrow> build builders n = Inr s"
  by (simp add: cache_ok_def build_def)

lemma same_cache:
  assumes "cache_ok builders c" and "cache_ok builders d" and "dom (map_of c) = dom (map_of d)"
  shows "map_of c = map_of d"
proof
  fix n
  show "map_of c n = map_of d n"
  proof (cases "map_of c n")
    case None
    then have "n \<notin> dom (map_of d)" using assms(3) by auto
    with None show ?thesis by (simp add: domIff)
  next
    case (Some s)
    then obtain t where t: "map_of d n = Some t" using assms(3) by blast
    from build_cached [OF assms(1) Some] build_cached [OF assms(2) t] Some t show ?thesis by simp
  qed
qed

lemma get_scanner_dom:
  "dom (map_of (snd (get_scanner builders n c))) = dom (map_of c) \<union> (if \<exists>s. build builders n = Inr s then {n} else {})"
  if "cache_ok builders c"
  using that
  by (auto simp: get_scanner_def build_def cache_ok_def map_of_dict_set split: option.splits sum.splits if_splits)

section \<open>The serial reference\<close>

lemma scan_one_agrees:
  assumes "cache_ok builders c"
  shows "\<exists>c'. cache_ok builders c' \<and> dom (map_of c') = dom (map_of c) \<union> buildable builders [n]
    \<and> scan_one cfg builders (ca_open ca) (ca_dur ca) client n (c, m) =
        (final_result cfg builders ca n, (c', record_all client (oks [final_result cfg builders ca n]) m))"
proof -
  obtain r c' where g: "get_scanner builders n c = (r, c')" by fastforce
  have "r = build builders n" "cache_ok builders c'"
    using scanners.get_build [OF assms, of n] scanners.get_ok [OF assms, of n] by (simp_all add: g)
  moreover have "dom (map_of c') = dom (map_of c) \<union> buildable builders [n]"
    using get_scanner_dom [OF assms, of n] by (auto simp: g buildable_def)
  moreover have "scan_one cfg builders (ca_open ca) (ca_dur ca) client n (c, m) =
      (final_result cfg builders ca n, (c', record_all client (oks [final_result cfg builders ca n]) m))"
    using calculation(1)
    by (cases "build builders n") (simp_all add: scan_one_def g final_result_def record_all_def Let_def)
  ultimately show ?thesis by blast
qed

lemma oks_append [simp]: "oks (xs @ ys) = oks xs @ oks ys"
  by (induction xs rule: oks.induct) simp_all

lemma record_all_append: "record_all client (xs @ ys) m = record_all client ys (record_all client xs m)"
  by (simp add: record_all_def)

lemma pool_map_agrees:
  assumes "cache_ok builders c"
  shows "\<exists>c'. cache_ok builders c' \<and> dom (map_of c') = dom (map_of c) \<union> buildable builders names
    \<and> pool_map (scan_one cfg builders (ca_open ca) (ca_dur ca) client) names (c, m) =
        (map (final_result cfg builders ca) names,
         (c', record_all client (oks (map (final_result cfg builders ca) names)) m))"
  using assms
proof (induction names arbitrary: c m)
  case (Cons n ns)
  let ?r = "final_result cfg builders ca n"
  from scan_one_agrees [OF Cons.prems] obtain c1 where c1: "cache_ok builders c1"
    "dom (map_of c1) = dom (map_of c) \<union> buildable builders [n]"
    "scan_one cfg builders (ca_open ca) (ca_dur ca) client n (c, m) = (?r, (c1, record_all client (oks [?r]) m))"
    by blast
  from Cons.IH [OF c1(1)] obtain c2 where c2: "cache_ok builders c2"
    "dom (map_of c2) = dom (map_of c1) \<union> buildable builders ns"
    "pool_map (scan_one cfg builders (ca_open ca) (ca_dur ca) client) ns (c1, record_all client (oks [?r]) m) =
       (map (final_result cfg builders ca) ns,
        (c2, record_all client (oks (map (final_result cfg builders ca) ns)) (record_all client (oks [?r]) m)))"
    by blast
  have "oks (?r # map (final_result cfg builders ca) ns) = oks [?r] @ oks (map (final_result cfg builders ca) ns)"
    by (cases ?r) simp_all
  moreover have "buildable builders (n # ns) = buildable builders [n] \<union> buildable builders ns"
    by (auto simp: buildable_def)
  ultimately show ?case using c1 c2
    by (intro exI [of _ c2]) (auto simp: record_all_append simp del: oks.simps)
qed (simp add: buildable_def record_all_def)

lemma run_scanners_agrees:
  assumes "cache_ok builders c"
  shows "\<exists>c'. cache_ok builders c' \<and> dom (map_of c') = dom (map_of c) \<union> buildable builders (ca_names ca)
    \<and> run_scanners cfg builders (ca_names ca) (ca_open ca) (ca_dur ca) client (c, m) =
        (call_result cfg builders ca,
         (c', record_all client (oks (map (final_result cfg builders ca) (ca_names ca))) m))"
proof (cases "length (ca_names ca) = 1")
  case True
  then obtain n where n: "ca_names ca = [n]" by (cases "ca_names ca") auto
  from scan_one_agrees [OF assms, of n cfg ca client m] show ?thesis
    by (auto simp: n run_scanners_def call_result_def rbind_def split: sum.split)
next
  case False
  from pool_map_agrees [OF assms, of "ca_names ca" cfg ca client m] False show ?thesis
    by (auto simp: run_scanners_def call_result_def buildable_def record_all_def intro: exI [of _ c] assms)
qed

section \<open>The invariant of the schedules\<close>

fun stored :: "pc \<Rightarrow> bool" where
  "stored Waiting = False"
| "stored (Building s) = False"
| "stored (Returned (Inl e)) = False"
| "stored pc = True"

fun counted :: "pc \<Rightarrow> scanner_result list" where
  "counted (Timing r) = [r]"
| "counted (Returned (Inr r)) = [r]"
| "counted pc = []"

fun timed :: "pc \<Rightarrow> scanner_result list" where
  "timed (Returned (Inr r)) = [r]"
| "timed pc = []"

fun steps_left :: "pc \<Rightarrow> nat" where
  "steps_left Waiting = 6"
| "steps_left (Building s) = 5"
| "steps_left Reading = 4"
| "steps_left (Scanning s) = 3"
| "steps_left (Counting r) = 2"
| "steps_left (Timing r) = 1"
| "steps_left (Returned r) = 0"

definition scans_of :: "string \<times> string \<times> string \<times> string \<Rightarrow> call \<Rightarrow> pc \<Rightarrow> nat" where
  "scans_of l ca pc = length (filter (\<lambda>r. scan_labels (ca_client ca) r = l) (counted pc))"

definition times_of :: "string \<times> string \<Rightarrow> call \<Rightarrow> pc \<Rightarrow> rat multiset" where
  "times_of d ca pc = mset (map sr_time (filter (\<lambda>r. (sr_scanner r, ca_client ca) = d) (timed pc)))"

definition threads :: "(call \<times> (string \<times> pc) list) list \<Rightarrow> (call \<times> string \<times> pc) list" where
  "threads cs = concat (map (\<lambda>(ca, ts). map (Pair ca) ts) cs)"

definition tally :: "(call \<Rightarrow> pc \<Rightarrow> 'a::comm_monoid_add) \<Rightarrow> (call \<times> string \<times> pc) list \<Rightarrow> 'a" where
  "tally f ts = sum_list (map (\<lambda>(ca, n, pc). f ca pc) ts)"

definition stored_names :: "(call \<times> string \<times> pc) list \<Rightarrow> string set" where
  "stored_names ts = {n. \<exists>ca pc. (ca, n, pc) \<in> set ts \<and> stored pc}"

fun thread_ok :: "settings \<Rightarrow> builders \<Rightarrow> cache \<Rightarrow> call \<times> string \<times> pc \<Rightarrow> bool" where
  "thread_ok cfg builders c (ca, n, Waiting) = True"
| "thread_ok cfg builders c (ca, n, Building s) = (build builders n = Inr s)"
| "thread_ok cfg builders c (ca, n, Reading) = (map_of c n \<noteq> None)"
| "thread_ok cfg builders c (ca, n, Scanning s) = (build builders n = Inr s)"
| "thread_ok cfg builders c (ca, n, Counting r) = (final_result cfg builders ca n = Inr r)"
| "thread_ok cfg builders c (ca, n, Timing r) = (final_result cfg builders ca n = Inr r)"
| "thread_ok cfg builders c (ca, n, Returned r) = (final_result cfg builders ca n = r)"

lemma threads_split [simp]:
  "threads (xs @ (ca, us @ (n, pc) # vs) # ys) =
     (threads xs @ map (Pair ca) us) @ (ca, n, pc) # map (Pair ca) vs @ threads ys"
  by (simp add: threads_def)

lemma tally_append [simp]: "tally f (xs @ ys) = tally f xs + tally f ys"
  by (simp add: tally_def)

lemma tally_Cons [simp]: "tally f ((ca, n, pc) # ts) = f ca pc + tally f ts"
  by (simp add: tally_def)

lemma stored_names_append [simp]: "stored_names (xs @ ys) = stored_names xs \<union> stored_names ys"
  by (auto simp: stored_names_def)

lemma stored_names_Cons [simp]: "stored_names ((ca, n, pc) # ts) = (if stored pc then {n} else {}) \<union> stored_names ts"
  by (auto simp: stored_names_def)

lemma thread_ok_mono: "thread_ok cfg builders c t \<Longrightarrow> dom (map_of c) \<subseteq> dom (map_of c') \<Longrightarrow> thread_ok cfg builders c' t"
  by (induction cfg builders c t rule: thread_ok.induct) (auto simp: subset_iff domIff)

lemma count_scan_effect:
  "scans_at (count_scan r client m) l = scans_at m l + (if scan_labels client r = l then 1 else 0)"
  "durations_at (count_scan r client m) d = durations_at m d"
  by (simp_all add: scans_at_def durations_at_def count_scan_def map_of_dict_set)

lemma observe_time_effect:
  "durations_at (observe_time r client m) d = durations_at m d @ (if (sr_scanner r, client) = d then [sr_time r] else [])"
  "scans_at (observe_time r client m) l = scans_at m l"
  by (simp_all add: scans_at_def durations_at_def observe_time_def map_of_dict_set)

text \<open>The two halves of the recording are the recording.\<close>

lemma record_scan_halves: "observe_time r client (count_scan r client m) = record_scan r client m"
  by (simp add: record_scan_def observe_time_def count_scan_def durations_at_def)

definition same_gauges :: "metrics \<Rightarrow> metrics \<Rightarrow> bool" where
  "same_gauges m m' \<longleftrightarrow> mt_outdated m' = mt_outdated m \<and> mt_version m' = mt_version m \<and> mt_last_refresh m' = mt_last_refresh m"

text \<open>One step of one thread: what it keeps, and what it adds to the shared state.\<close>

lemma thread_step_effect:
  assumes "thread_step cfg builders ca n pc (c, m) = (pc', (c', m'))" and "\<not> returned pc"
    and "cache_ok builders c" and "thread_ok cfg builders c (ca, n, pc)" and "stored pc \<Longrightarrow> n \<in> dom (map_of c)"
  shows "cache_ok builders c'" and "thread_ok cfg builders c' (ca, n, pc')"
    and "dom (map_of c') = dom (map_of c) \<union> (if stored pc' then {n} else {})" and "stored pc \<longrightarrow> stored pc'"
    and "scans_at m' l + scans_of l ca pc = scans_at m l + scans_of l ca pc'"
    and "mset (durations_at m' d) + times_of d ca pc = mset (durations_at m d) + times_of d ca pc'"
    and "same_gauges m m'" and "steps_left pc' < steps_left pc"
proof -
  have b: "map_of c n = Some s \<Longrightarrow> build builders n = Inr s" for s by (rule build_cached [OF assms(3)])
  have new: "build builders n = Inr s \<Longrightarrow> cache_ok builders (dict_set n s c)" for s
    using assms(3) by (auto simp: cache_ok_def map_of_dict_set build_def split: option.splits)
  show "cache_ok builders c'" "thread_ok cfg builders c' (ca, n, pc')"
    "dom (map_of c') = dom (map_of c) \<union> (if stored pc' then {n} else {})" "stored pc \<longrightarrow> stored pc'"
    using assms b new
    by (cases pc; force simp: final_result_def build_def map_of_dict_set split: option.splits sum.splits if_splits)+
  show "scans_at m' l + scans_of l ca pc = scans_at m l + scans_of l ca pc'"
    using assms(1,2) by (cases pc) (auto simp: count_scan_effect observe_time_effect scans_of_def split: option.splits sum.splits if_splits)
  show "mset (durations_at m' d) + times_of d ca pc = mset (durations_at m d) + times_of d ca pc'"
    using assms(1,2) by (cases pc) (auto simp: count_scan_effect observe_time_effect times_of_def split: option.splits sum.splits if_splits)
  show "same_gauges m m'" "steps_left pc' < steps_left pc"
    using assms(1,2) by (cases pc; auto simp: same_gauges_def count_scan_def observe_time_def split: option.splits sum.splits if_splits)+
qed

definition pool_ok :: "settings \<Rightarrow> builders \<Rightarrow> call list \<Rightarrow> scan_state \<Rightarrow> pool \<Rightarrow> bool" where
  "pool_ok cfg builders calls s0 = (\<lambda>(cs, (c, m)).
     map (\<lambda>(ca, ts). (ca, map fst ts)) cs = map (\<lambda>ca. (ca, ca_names ca)) calls
     \<and> cache_ok builders c
     \<and> (\<forall>t\<in>set (threads cs). thread_ok cfg builders c t)
     \<and> dom (map_of c) = dom (map_of (fst s0)) \<union> stored_names (threads cs)
     \<and> (\<forall>l. scans_at m l = scans_at (snd s0) l + tally (scans_of l) (threads cs))
     \<and> (\<forall>d. mset (durations_at m d) = mset (durations_at (snd s0) d) + tally (times_of d) (threads cs))
     \<and> same_gauges (snd s0) m)"

lemma threads_start: "threads (fst (start_pool calls s)) = concat (map (\<lambda>ca. map (\<lambda>n. (ca, n, Waiting)) (ca_names ca)) calls)"
  by (simp add: start_pool_def threads_def comp_def)

lemma tally_start: "(\<And>ca. f ca Waiting = 0) \<Longrightarrow> tally f (threads (fst (start_pool calls s))) = 0"
  unfolding threads_start tally_def by (induction calls) (simp_all add: comp_def sum_list_triv)

lemma pool_ok_start:
  assumes "cache_ok builders (fst s)"
  shows "pool_ok cfg builders calls s (start_pool calls s)"
proof -
  obtain c m where s: "s = (c, m)" by fastforce
  have "tally (scans_of l) (threads (fst (start_pool calls s))) = 0"
    "tally (times_of d) (threads (fst (start_pool calls s))) = {#}" for l d
    by (auto intro: tally_start simp: scans_of_def times_of_def)
  moreover have "stored_names (threads (fst (start_pool calls s))) = {}"
    "\<forall>t\<in>set (threads (fst (start_pool calls s))). thread_ok cfg builders c t"
    unfolding threads_start by (auto simp: stored_names_def)
  ultimately show ?thesis using assms
    by (simp add: pool_ok_def start_pool_def s same_gauges_def comp_def)
qed

lemma pool_ok_step:
  assumes "pool_step cfg builders p q" and "pool_ok cfg builders calls s0 p"
  shows "pool_ok cfg builders calls s0 q"
  using assms(1)
proof (cases rule: pool_step.cases)
  case (thread pc ca n s pc' s' xs us vs ys)
  obtain c m c' m' where st: "s = (c, m)" "s' = (c', m')" by fastforce
  note ok = assms(2) [unfolded thread(1) st pool_ok_def prod.case]
  have pre: "cache_ok builders c" "thread_ok cfg builders c (ca, n, pc)" "stored pc \<Longrightarrow> n \<in> dom (map_of c)"
    using ok by auto
  note eff = thread_step_effect [OF thread(4) [unfolded st] thread(3) pre]
  have "\<forall>t\<in>set (threads (xs @ (ca, us @ (n, pc') # vs) # ys)). thread_ok cfg builders c' t"
    using ok eff(2) thread_ok_mono [of cfg builders c _ c'] eff(3) by auto
  moreover have "dom (map_of c') = dom (map_of (fst s0)) \<union> stored_names (threads (xs @ (ca, us @ (n, pc') # vs) # ys))"
    using ok eff(3,4) by auto
  moreover have "scans_at m' l = scans_at (snd s0) l + tally (scans_of l) (threads (xs @ (ca, us @ (n, pc') # vs) # ys))" for l
  proof -
    have "scans_at m l = scans_at (snd s0) l + tally (scans_of l) (threads (xs @ (ca, us @ (n, pc) # vs) # ys))" using ok by blast
    with eff(5) [of l] show ?thesis by simp
  qed
  moreover have "mset (durations_at m' d) = mset (durations_at (snd s0) d) + tally (times_of d) (threads (xs @ (ca, us @ (n, pc') # vs) # ys))" for d
  proof -
    let ?rest = "mset (durations_at (snd s0) d) + tally (times_of d) (threads xs @ map (Pair ca) us) + tally (times_of d) (map (Pair ca) vs @ threads ys)"
    have "mset (durations_at m d) = ?rest + times_of d ca pc"
    proof -
      have "mset (durations_at m d) = mset (durations_at (snd s0) d) + tally (times_of d) (threads (xs @ (ca, us @ (n, pc) # vs) # ys))"
        using ok by blast
      then show ?thesis by (simp add: ac_simps)
    qed
    with eff(6) [of d] have "mset (durations_at m' d) + times_of d ca pc = ?rest + times_of d ca pc' + times_of d ca pc"
      by (simp add: ac_simps)
    then have "mset (durations_at m' d) = ?rest + times_of d ca pc'" by (simp only: add_right_cancel)
    then show ?thesis by (simp add: ac_simps)
  qed
  moreover have "same_gauges (snd s0) m'" using ok eff(7) by (simp add: same_gauges_def)
  ultimately show ?thesis using ok eff(1) by (simp add: thread(2) st pool_ok_def)
qed

lemma pool_ok_steps:
  "(pool_step cfg builders ^^ k) p q \<Longrightarrow> pool_ok cfg builders calls s0 p \<Longrightarrow> pool_ok cfg builders calls s0 q"
  by (induction k arbitrary: q) (auto intro: pool_ok_step)

section \<open>Every schedule ends\<close>

definition pool_left :: "pool \<Rightarrow> nat" where
  "pool_left p = tally (\<lambda>_. steps_left) (threads (fst p))"

lemma steps_left_less: "thread_step cfg builders ca n pc s = (pc', s') \<Longrightarrow> \<not> returned pc \<Longrightarrow> steps_left pc' < steps_left pc"
  by (cases pc; cases s) (auto split: option.splits sum.splits if_splits)

lemma pool_left_step: "pool_step cfg builders p q \<Longrightarrow> pool_left q < pool_left p"
  by (erule pool_step.cases) (auto simp: pool_left_def dest: steps_left_less)

lemma pool_left_steps: "(pool_step cfg builders ^^ k) p q \<Longrightarrow> k + pool_left q \<le> pool_left p"
proof (induction k arbitrary: q)
  case (Suc k)
  then obtain r where r: "(pool_step cfg builders ^^ k) p r" "pool_step cfg builders r q" by auto
  from Suc.IH [OF r(1)] pool_left_step [OF r(2)] show ?case by simp
qed simp

lemma pool_left_start: "pool_left (start_pool calls s) = 6 * sum_list (map (length \<circ> ca_names) calls)"
  unfolding pool_left_def threads_start tally_def
  by (induction calls) (simp_all add: comp_def sum_list_triv)

lemma pool_progress: "finished p \<or> (\<exists>q. pool_step cfg builders p q)"
proof (cases "finished p")
  case False
  then obtain ca ts n pc where t: "(ca, ts) \<in> set (fst p)" "(n, pc) \<in> set ts" "\<not> returned pc"
    by (auto simp: finished_def)
  from t(1) obtain xs ys where xs: "fst p = xs @ (ca, ts) # ys" by (meson split_list)
  from t(2) obtain us vs where us: "ts = us @ (n, pc) # vs" by (meson split_list)
  obtain pc' s' where "thread_step cfg builders ca n pc (snd p) = (pc', s')" by (meson surj_pair)
  from pool_step.thread [OF t(3) this, of xs us vs ys] show ?thesis
    unfolding us [symmetric] xs [symmetric] prod.collapse by blast
qed simp

lemma pool_finishes: "\<exists>k q. (pool_step cfg builders ^^ k) p q \<and> finished q"
proof (induction "pool_left p" arbitrary: p rule: less_induct)
  case less
  show ?case
  proof (cases "finished p")
    case True
    then show ?thesis by (intro exI [of _ 0] exI [of _ p]) simp
  next
    case False
    with pool_progress obtain q where q: "pool_step cfg builders p q" by blast
    from less [OF pool_left_step [OF q]] obtain k r where r: "(pool_step cfg builders ^^ k) q r" "finished r" by blast
    have "(pool_step cfg builders ^^ Suc k) p r" by (rule relpowp_Suc_I2) (rule q, rule r(1))
    with r(2) show ?thesis by blast
  qed
qed

section \<open>Every schedule is the serial one\<close>

lemma thread_answer_ok:
  "thread_ok cfg builders c (ca, n, pc) \<Longrightarrow> thread_answer pc = Some r \<Longrightarrow> r = final_result cfg builders ca n"
  by (cases pc) simp_all

lemma answers_ok:
  assumes "\<forall>t\<in>set (map (Pair ca) ts). thread_ok cfg builders c t" and "map fst ts = ca_names ca"
  shows "call_answer (ca, ts) \<in> {None, Some (call_result cfg builders ca)}"
proof -
  have "those (map (thread_answer \<circ> snd) ts) \<in> {None, Some (map (final_result cfg builders ca) (map fst ts))}"
    using assms(1)
  proof (induction ts)
    case (Cons t ts)
    then show ?case by (cases t) (auto split: option.split dest: thread_answer_ok)
  qed simp
  then show ?thesis using assms(2) by (auto simp: call_answer_def call_result_def)
qed

definition final_threads :: "settings \<Rightarrow> builders \<Rightarrow> call list \<Rightarrow> (call \<times> string \<times> pc) list" where
  "final_threads cfg builders calls =
     concat (map (\<lambda>ca. map (\<lambda>n. (ca, n, Returned (final_result cfg builders ca n))) (ca_names ca)) calls)"

lemma those_Some: "those (map (\<lambda>x. Some (f x)) xs) = Some (map f xs)"
  by (induction xs) simp_all

lemma returned_thread:
  "returned pc \<Longrightarrow> thread_ok cfg builders c (ca, n, pc) \<Longrightarrow> pc = Returned (final_result cfg builders ca n)"
  by (cases pc) simp_all

lemma all_answers_ok:
  assumes "\<forall>t\<in>set (threads cs). thread_ok cfg builders c t"
    and "map (\<lambda>(ca, ts). (ca, map fst ts)) cs = map (\<lambda>ca. (ca, ca_names ca)) calls"
  shows "list_all2 (\<lambda>ca t. call_answer t \<in> {None, Some (call_result cfg builders ca)}) calls cs"
  using assms
proof (induction cs arbitrary: calls)
  case (Cons x cs)
  obtain ca ts where x: "x = (ca, ts)" by fastforce
  with Cons.prems(2) obtain rest where rest: "calls = ca # rest" "map fst ts = ca_names ca"
    "map (\<lambda>(ca, ts). (ca, map fst ts)) cs = map (\<lambda>ca. (ca, ca_names ca)) rest"
    by (cases calls) auto
  have "\<forall>t\<in>set (map (Pair ca) ts). thread_ok cfg builders c t" "\<forall>t\<in>set (threads cs). thread_ok cfg builders c t"
    using Cons.prems(1) by (simp_all add: threads_def x)
  with answers_ok [OF this(1) rest(2)] Cons.IH [OF _ rest(3)] show ?case by (simp add: rest(1) x)
qed simp

lemma finished_threads:
  assumes "\<forall>(ca, ts)\<in>set cs. \<forall>(n, pc)\<in>set ts. returned pc" and "\<forall>t\<in>set (threads cs). thread_ok cfg builders c t"
    and "map (\<lambda>(ca, ts). (ca, map fst ts)) cs = map (\<lambda>ca. (ca, ca_names ca)) calls"
  shows "threads cs = final_threads cfg builders calls
    \<and> map call_answer cs = map (\<lambda>ca. Some (call_result cfg builders ca)) calls"
  using assms
proof (induction cs arbitrary: calls)
  case (Cons x cs)
  obtain ca ts where x: "x = (ca, ts)" by fastforce
  with Cons.prems(3) obtain rest where rest: "calls = ca # rest" "map fst ts = ca_names ca"
    "map (\<lambda>(ca, ts). (ca, map fst ts)) cs = map (\<lambda>ca. (ca, ca_names ca)) rest"
    by (cases calls) auto
  have "\<forall>t\<in>set ts. t = (fst t, Returned (final_result cfg builders ca (fst t)))"
    using Cons.prems(1,2) by (force simp: x threads_def dest: returned_thread)
  then have "map (\<lambda>t. t) ts = map (\<lambda>t. (fst t, Returned (final_result cfg builders ca (fst t)))) ts"
    by (intro map_cong [OF refl]) simp
  then have ts: "ts = map (\<lambda>n. (n, Returned (final_result cfg builders ca n))) (ca_names ca)"
    by (simp add: rest(2) [symmetric] comp_def)
  have "those (map (thread_answer \<circ> snd) ts) = Some (map (final_result cfg builders ca) (ca_names ca))"
    unfolding ts by (simp add: comp_def those_Some)
  then have "call_answer (ca, ts) = Some (call_result cfg builders ca)" by (simp add: call_answer_def call_result_def)
  moreover have "threads cs = final_threads cfg builders rest \<and> map call_answer cs = map (\<lambda>ca. Some (call_result cfg builders ca)) rest"
    by (rule Cons.IH) (use Cons.prems rest in \<open>auto simp: threads_def\<close>)
  ultimately show ?case by (simp add: x rest(1) threads_def final_threads_def ts comp_def)
qed (simp add: threads_def final_threads_def)

lemma tally_call:
  "tally (scans_of l) (map (\<lambda>n. (ca, n, Returned (f n))) names) =
     length (filter (\<lambda>r. scan_labels (ca_client ca) r = l) (oks (map f names)))"
  "tally (times_of d) (map (\<lambda>n. (ca, n, Returned (f n))) names) =
     mset (map sr_time (filter (\<lambda>r. (sr_scanner r, ca_client ca) = d) (oks (map f names))))"
proof (induction names)
  case (Cons n ns)
  { case 1 with Cons show ?case by (cases "f n") (simp_all add: scans_of_def) }
  { case 2 with Cons show ?case by (cases "f n") (simp_all add: times_of_def) }
qed (simp_all add: tally_def)

lemma record_all_gauges: "same_gauges m (record_all client rs m)"
  unfolding record_all_def by (induction rs arbitrary: m) (simp_all add: same_gauges_def record_scan_def)

lemma stored_call:
  "stored_names (map (\<lambda>n. (ca, n, Returned (final_result cfg builders ca n))) names) = buildable builders names"
proof -
  have "stored (Returned (final_result cfg builders ca n)) \<longleftrightarrow> (\<exists>s. build builders n = Inr s)" for n
    by (cases "build builders n") (simp_all add: final_result_def)
  then show ?thesis by (auto simp: stored_names_def buildable_def)
qed

lemma serial_ok:
  assumes "cache_ok builders c"
  shows "\<exists>c' m'. serial cfg builders calls (c, m) = (map (call_result cfg builders) calls, (c', m')) \<and> cache_ok builders c'
    \<and> dom (map_of c') = dom (map_of c) \<union> stored_names (final_threads cfg builders calls)
    \<and> (\<forall>l. scans_at m' l = scans_at m l + tally (scans_of l) (final_threads cfg builders calls))
    \<and> (\<forall>d. mset (durations_at m' d) = mset (durations_at m d) + tally (times_of d) (final_threads cfg builders calls))
    \<and> same_gauges m m'"
  using assms
proof (induction calls arbitrary: c m)
  case Nil
  then show ?case by (simp add: final_threads_def tally_def stored_names_def same_gauges_def)
next
  case (Cons ca cas)
  let ?rs = "oks (map (final_result cfg builders ca) (ca_names ca))"
  let ?ts = "map (\<lambda>n. (ca, n, Returned (final_result cfg builders ca n))) (ca_names ca)"
  from run_scanners_agrees [OF Cons.prems, of ca cfg "ca_client ca" m] obtain c1 where c1: "cache_ok builders c1"
    "dom (map_of c1) = dom (map_of c) \<union> buildable builders (ca_names ca)"
    "run_scanners cfg builders (ca_names ca) (ca_open ca) (ca_dur ca) (ca_client ca) (c, m) =
       (call_result cfg builders ca, (c1, record_all (ca_client ca) ?rs m))"
    by blast
  from Cons.IH [OF c1(1), of "record_all (ca_client ca) ?rs m"] obtain c' m' where
    IH: "serial cfg builders cas (c1, record_all (ca_client ca) ?rs m) = (map (call_result cfg builders) cas, (c', m'))"
      "cache_ok builders c'" "dom (map_of c') = dom (map_of c1) \<union> stored_names (final_threads cfg builders cas)"
      "\<And>l. scans_at m' l = scans_at (record_all (ca_client ca) ?rs m) l + tally (scans_of l) (final_threads cfg builders cas)"
      "\<And>d. mset (durations_at m' d) = mset (durations_at (record_all (ca_client ca) ?rs m) d) + tally (times_of d) (final_threads cfg builders cas)"
      "same_gauges (record_all (ca_client ca) ?rs m) m'"
    by blast
  have f: "final_threads cfg builders (ca # cas) = ?ts @ final_threads cfg builders cas" by (simp add: final_threads_def)
  have "same_gauges m m'" using IH(6) record_all_gauges [of m "ca_client ca" ?rs] by (simp add: same_gauges_def)
  moreover have "scans_at m' l = scans_at m l + tally (scans_of l) (?ts @ final_threads cfg builders cas)" for l
    by (simp add: IH(4) scans_at_record_all tally_call)
  moreover have "mset (durations_at m' d) = mset (durations_at m d) + tally (times_of d) (?ts @ final_threads cfg builders cas)" for d
    by (simp add: IH(5) durations_at_record_all tally_call)
  moreover have "dom (map_of c') = dom (map_of c) \<union> stored_names (?ts @ final_threads cfg builders cas)"
    by (simp add: IH(3) c1(2) stored_call Un_assoc)
  ultimately show ?case unfolding f using IH(1,2) c1(3) by simp
qed


definition sample_calls :: "call list" where
  "sample_calls =
     [\<lparr>ca_names = [''clamav'', ''exav''], ca_open = \<lambda>_. Inr [0x50], ca_dur = \<lambda>_. 1, ca_client = ''drive''\<rparr>,
      \<lparr>ca_names = [''exav''], ca_open = \<lambda>_. Inr [0x51], ca_dur = \<lambda>_. 2, ca_client = ''docs''\<rparr>,
      \<lparr>ca_names = [''exav'', ''none''], ca_open = \<lambda>_. Inr [], ca_dur = \<lambda>_. 3, ca_client = ''drive''\<rparr>]"


end
