(* ===== verification/Freshness.thy ===== *)
theory Freshness
  imports App Scanner_Pool
begin

text \<open>
  The signature gauges of a web process over its lifetime: the endpoints of \<open>src/app.py\<close> that touch
  its scanner cache and metrics, in any order, and what \<open>/metrics\<close> shows of the engines' databases
  (\<open>refresh_signatures\<close> of \<open>src/metrics.py\<close>) against the answers the engines gave.
\<close>

text \<open>What the process serves: a scrape at a moment of \<open>time.monotonic\<close>, a synchronous scan, and any
  request that resolves a selection of scanners (the asynchronous scan, the health check).\<close>

datatype served =
    Scrape rat "string option"
  | Scan "string \<Rightarrow> rat" string upload
  | Select "string list option" "string list option"

definition serve ::
    "loads \<Rightarrow> settings \<Rightarrow> builders \<Rightarrow> (string \<Rightarrow> rat option) \<Rightarrow> served \<Rightarrow> scan_state \<Rightarrow> scan_state" where
  "serve loads cfg builders to_float e s =
     (case e of
        Scrape now authorization \<Rightarrow> snd (metrics_endpoint loads cfg builders to_float now authorization s)
      | Scan dur username up \<Rightarrow> snd (scan_endpoint loads cfg builders dur username up s)
      | Select categories scanners \<Rightarrow> (snd (resolve_scanners loads cfg builders categories scanners (fst s)), snd s))"

definition lifetime ::
    "loads \<Rightarrow> settings \<Rightarrow> builders \<Rightarrow> (string \<Rightarrow> rat option) \<Rightarrow> served list \<Rightarrow> scan_state" where
  "lifetime loads cfg builders to_float es = fold (serve loads cfg builders to_float) es ([], initial_metrics)"

section \<open>The specification\<close>

text \<open>The engines the gauges are about: the default selection.\<close>

definition watched :: "loads \<Rightarrow> settings \<Rightarrow> builders \<Rightarrow> string list" where
  "watched loads cfg builders = (case resolve_build loads cfg builders None None of Inl _ \<Rightarrow> [] | Inr names \<Rightarrow> names)"

text \<open>The scrapes that are let in while the default selection resolves.\<close>

fun scrapes :: "loads \<Rightarrow> settings \<Rightarrow> builders \<Rightarrow> served list \<Rightarrow> rat list" where
  "scrapes loads cfg builders [] = []"
| "scrapes loads cfg builders (Scrape now authorization # es) =
     (if (\<exists>u. verify_prometheus cfg authorization = Inr u) \<and> (\<exists>ns. resolve_build loads cfg builders None None = Inr ns)
      then [now] else []) @ scrapes loads cfg builders es"
| "scrapes loads cfg builders (e # es) = scrapes loads cfg builders es"

text \<open>The scrapes that ask the engines, when they were last asked at \<open>last_asked\<close>.\<close>

fun asks :: "rat \<Rightarrow> rat list \<Rightarrow> rat list" where
  "asks last_asked [] = []"
| "asks last_asked (t # ts) =
     (if t - last_asked < signature_refresh_ttl then asks last_asked ts else t # asks t ts)"

text \<open>What an engine answers when it is asked, and the last of the answers that has a value.\<close>

definition answer_at :: "builders \<Rightarrow> rat \<Rightarrow> string \<Rightarrow> version_info option" where
  "answer_at builders t name = (case rbind (build builders name) (\<lambda>s. sc_version s t) of Inl _ \<Rightarrow> None | Inr info \<Rightarrow> info)"

definition version_at :: "loads \<Rightarrow> settings \<Rightarrow> builders \<Rightarrow> string \<Rightarrow> rat \<Rightarrow> version_info option" where
  "version_at loads cfg builders name t =
     (if name \<in> set (watched loads cfg builders) then answer_at builders t name else None)"

definition outdated_at :: "loads \<Rightarrow> settings \<Rightarrow> builders \<Rightarrow> string \<Rightarrow> rat \<Rightarrow> int option" where
  "outdated_at loads cfg builders name t =
     map_option (\<lambda>info. if vi_outdated info then 1 else 0) (version_at loads cfg builders name t)"

definition number_at :: "loads \<Rightarrow> settings \<Rightarrow> builders \<Rightarrow> (string \<Rightarrow> rat option) \<Rightarrow> string \<Rightarrow> rat \<Rightarrow> rat option" where
  "number_at loads cfg builders to_float name t =
     Option.bind (version_at loads cfg builders name t) (\<lambda>info. Option.bind (vi_actual info) to_float)"

definition latest :: "(rat \<Rightarrow> 'a option) \<Rightarrow> rat list \<Rightarrow> 'a option" where
  "latest f ts = fold (\<lambda>t shown. case f t of None \<Rightarrow> shown | Some x \<Rightarrow> Some x) ts None"

lemma asks_append: "asks l (ts @ us) = asks l ts @ asks (last (l # asks l ts)) us"
  by (induction l ts rule: asks.induct) simp_all

lemma asks_from: "t \<in> set (asks l ts) \<Longrightarrow> l + signature_refresh_ttl \<le> t"
  by (induction l ts rule: asks.induct) (fastforce simp: signature_refresh_ttl_def split: if_splits)+

lemma asks_spaced: "sorted_wrt (\<lambda>t u. t + signature_refresh_ttl \<le> u) (asks l ts)"
  by (induction l ts rule: asks.induct) (auto dest: asks_from)

lemma asks_recent: "t - last (l # asks l (ts @ [t])) < signature_refresh_ttl"
  by (simp add: asks_append signature_refresh_ttl_def)

lemma scrapes_append: "scrapes loads cfg builders (es @ fs) = scrapes loads cfg builders es @ scrapes loads cfg builders fs"
  by (induction loads cfg builders es rule: scrapes.induct) simp_all

lemma latest_append: "latest f (ts @ [t]) = (case f t of None \<Rightarrow> latest f ts | Some x \<Rightarrow> Some x)"
  by (cases "f t") (simp_all add: latest_def)

section \<open>The invariant\<close>

lemma refresh_one_gauges:
  "map_of (mt_outdated (refresh_one f n a m)) k =
     (case (if k = n then (case a of Inl _ \<Rightarrow> None | Inr info \<Rightarrow> info) else None) of
        None \<Rightarrow> map_of (mt_outdated m) k | Some info \<Rightarrow> Some (if vi_outdated info then 1 else 0))"
  "map_of (mt_version (refresh_one f n a m)) k =
     (case (if k = n then (case a of Inl _ \<Rightarrow> None | Inr info \<Rightarrow> info) else None) of
        None \<Rightarrow> map_of (mt_version m) k
      | Some info \<Rightarrow> (case Option.bind (vi_actual info) f of None \<Rightarrow> map_of (mt_version m) k | Some q \<Rightarrow> Some q))"
  by (auto simp: refresh_one_def Let_def map_of_dict_set split: sum.split option.split)

lemma refresh_all_gauges:
  assumes "cache_ok builders c"
  shows "\<exists>c' m'. refresh_all f (get_scanner builders) now names (c, m) = (c', m') \<and> cache_ok builders c'
    \<and> (\<forall>k. map_of (mt_outdated m') k = (case (if k \<in> set names then answer_at builders now k else None) of
          None \<Rightarrow> map_of (mt_outdated m) k | Some info \<Rightarrow> Some (if vi_outdated info then 1 else 0)))
    \<and> (\<forall>k. map_of (mt_version m') k = (case (if k \<in> set names then answer_at builders now k else None) of
          None \<Rightarrow> map_of (mt_version m) k
        | Some info \<Rightarrow> (case Option.bind (vi_actual info) f of None \<Rightarrow> map_of (mt_version m) k | Some q \<Rightarrow> Some q)))"
  using assms
proof (induction names arbitrary: c m)
  case (Cons n ns)
  obtain r c1 where g: "get_scanner builders n c = (r, c1)" by fastforce
  have r: "r = build builders n" "cache_ok builders c1"
    using scanners.get_build [OF Cons.prems, of n] scanners.get_ok [OF Cons.prems, of n] by (simp_all add: g)
  let ?m = "refresh_one f n (rbind r (\<lambda>s. sc_version s now)) m"
  from Cons.IH [OF r(2), of ?m] obtain c' m' where
    IH: "refresh_all f (get_scanner builders) now ns (c1, ?m) = (c', m')" "cache_ok builders c'"
      "\<And>k. map_of (mt_outdated m') k = (case (if k \<in> set ns then answer_at builders now k else None) of
          None \<Rightarrow> map_of (mt_outdated ?m) k | Some info \<Rightarrow> Some (if vi_outdated info then 1 else 0))"
      "\<And>k. map_of (mt_version m') k = (case (if k \<in> set ns then answer_at builders now k else None) of
          None \<Rightarrow> map_of (mt_version ?m) k
        | Some info \<Rightarrow> (case Option.bind (vi_actual info) f of None \<Rightarrow> map_of (mt_version ?m) k | Some q \<Rightarrow> Some q))"
    by blast
  have a: "(case rbind r (\<lambda>s. sc_version s now) of Inl _ \<Rightarrow> None | Inr info \<Rightarrow> info) = answer_at builders now n"
    by (simp add: answer_at_def r(1))
  note gauges = IH(3,4) [unfolded refresh_one_gauges a]
  have "map_of (mt_outdated m') k = (case (if k \<in> set (n # ns) then answer_at builders now k else None) of
      None \<Rightarrow> map_of (mt_outdated m) k | Some info \<Rightarrow> Some (if vi_outdated info then 1 else 0))" for k
    by (simp add: gauges split: option.split)
  moreover have "map_of (mt_version m') k = (case (if k \<in> set (n # ns) then answer_at builders now k else None) of
      None \<Rightarrow> map_of (mt_version m) k
    | Some info \<Rightarrow> (case Option.bind (vi_actual info) f of None \<Rightarrow> map_of (mt_version m) k | Some q \<Rightarrow> Some q))" for k
    by (simp add: gauges split: option.split)
  ultimately show ?case using IH(1,2) by (simp add: g)
qed simp

definition gauges_ok :: "loads \<Rightarrow> settings \<Rightarrow> builders \<Rightarrow> (string \<Rightarrow> rat option) \<Rightarrow> rat list \<Rightarrow> scan_state \<Rightarrow> bool" where
  "gauges_ok loads cfg builders to_float asked s \<longleftrightarrow>
     cache_ok builders (fst s)
     \<and> mt_last_refresh (snd s) = last (0 # asked)
     \<and> (\<forall>k. map_of (mt_outdated (snd s)) k = latest (outdated_at loads cfg builders k) asked)
     \<and> (\<forall>k. map_of (mt_version (snd s)) k = latest (number_at loads cfg builders to_float k) asked)"

lemma gauges_ok_same:
  "gauges_ok loads cfg builders f asked (c, m) \<Longrightarrow> cache_ok builders c' \<Longrightarrow> same_gauges m m'
     \<Longrightarrow> gauges_ok loads cfg builders f asked (c', m')"
  by (simp add: gauges_ok_def same_gauges_def)

lemma scan_endpoint_state:
  assumes "cache_ok builders c"
  obtains c' m' where "snd (scan_endpoint loads cfg builders dur username up (c, m)) = (c', m')"
    "cache_ok builders c'" "same_gauges m m'"
proof -
  let ?r = "resolve_build loads cfg builders (split_param (up_categories up)) (split_param (up_scanners up))"
  obtain c1 where c1: "cache_ok builders c1"
    and a: "api_resolve loads cfg builders (split_param (up_categories up)) (split_param (up_scanners up)) c = (bad_request ?r, c1)"
    using api_resolve_eq [OF assms] by blast
  have run: "\<exists>r c2 m2. run_scanners cfg builders names (\<lambda>_. Inr (up_data up)) dur username (c1, m) = (r, (c2, m2))
      \<and> cache_ok builders c2 \<and> same_gauges m m2" for names
    using run_scanners_agrees [OF c1, of "\<lparr>ca_names = names, ca_open = \<lambda>_. Inr (up_data up), ca_dur = dur, ca_client = username\<rparr>" cfg username m]
      record_all_gauges by fastforce
  have "same_gauges m m" by (simp add: same_gauges_def)
  show thesis
  proof (cases ?r)
    case (Inr names)
    obtain r c2 m2 where "run_scanners cfg builders names (\<lambda>_. Inr (up_data up)) dur username (c1, m) = (r, (c2, m2))"
      "cache_ok builders c2" "same_gauges m m2"
      using run by blast
    moreover note c1 \<open>same_gauges m m\<close> that
    ultimately show ?thesis
      by (cases r; cases "api_size_cap cfg names (cfg_max_upload_size cfg) ''MAX_UPLOAD_SIZE''"; cases "cfg_max_upload_size cfg < int (length (up_data up))")
         (auto simp: scan_endpoint_def a Inr split: if_splits)
  next
    case (Inl e)
    with c1 \<open>same_gauges m m\<close> show ?thesis by (simp add: scan_endpoint_def a bad_request_def that)
  qed
qed

lemma watched_resolve:
  "cache_ok builders c \<Longrightarrow> \<exists>c'. cache_ok builders c' \<and> resolve_scanners loads cfg builders None None c = (resolve_build loads cfg builders None None, c')"
  using reg_agreesD [OF resolve_agrees] by blast

lemma gauges_ok_refresh:
  assumes "gauges_ok loads cfg builders f asked (c, m)" and "resolve_build loads cfg builders None None = Inr names"
    and "cache_ok builders c'"
  shows "gauges_ok loads cfg builders f (asked @ (if now - last (0 # asked) < signature_refresh_ttl then [] else [now]))
    (refresh_signatures f (get_scanner builders) names now (c', m))"
proof (cases "now - last (0 # asked) < signature_refresh_ttl")
  case True
  with assms show ?thesis by (simp add: refresh_signatures_def gauges_ok_def)
next
  case False
  let ?m = "m\<lparr>mt_last_refresh := now\<rparr>"
  from refresh_all_gauges [OF assms(3), of f now names ?m] obtain d m' where
    r: "refresh_all f (get_scanner builders) now names (c', ?m) = (d, m')" "cache_ok builders d"
      "\<And>k. map_of (mt_outdated m') k = (case (if k \<in> set names then answer_at builders now k else None) of
          None \<Rightarrow> map_of (mt_outdated ?m) k | Some info \<Rightarrow> Some (if vi_outdated info then 1 else 0))"
      "\<And>k. map_of (mt_version m') k = (case (if k \<in> set names then answer_at builders now k else None) of
          None \<Rightarrow> map_of (mt_version ?m) k
        | Some info \<Rightarrow> (case Option.bind (vi_actual info) f of None \<Rightarrow> map_of (mt_version ?m) k | Some q \<Rightarrow> Some q))"
    by blast
  have names: "watched loads cfg builders = names" by (simp add: watched_def assms(2))
  have last: "mt_last_refresh m' = now"
    using refresh_all_keeps(1) [of f "get_scanner builders" now names "(c', ?m)"] by (simp add: r(1))
  have fields: "mt_outdated ?m = mt_outdated m" "mt_version ?m = mt_version m" by simp_all
  have old: "mt_last_refresh m = last (0 # asked)" "map_of (mt_outdated m) k = latest (outdated_at loads cfg builders k) asked"
    "map_of (mt_version m) k = latest (number_at loads cfg builders f k) asked" for k
    using assms(1) by (simp_all add: gauges_ok_def)
  have "map_of (mt_outdated m') k = latest (outdated_at loads cfg builders k) (asked @ [now])" for k
    unfolding r(3) fields latest_append outdated_at_def version_at_def names old(2) by (simp split: option.split)
  moreover have "map_of (mt_version m') k = latest (number_at loads cfg builders f k) (asked @ [now])" for k
    unfolding r(4) fields latest_append number_at_def version_at_def names old(3) by (simp split: option.split)
  ultimately show ?thesis
    using False old(1) by (simp add: refresh_signatures_def r(1,2) gauges_ok_def last)
qed

lemma gauges_ok_serve:
  assumes "gauges_ok loads cfg builders f (asks 0 ts) s"
  shows "gauges_ok loads cfg builders f (asks 0 (ts @ scrapes loads cfg builders [e])) (serve loads cfg builders f e s)"
proof -
  obtain c m where s: "s = (c, m)" by fastforce
  have c: "cache_ok builders c" using assms by (simp add: s gauges_ok_def)
  have same: "same_gauges m m" by (simp add: same_gauges_def)
  note keep = gauges_ok_same [OF assms [unfolded s]]
  show ?thesis
  proof (cases e)
    case (Scrape now auth)
    obtain c' where c': "cache_ok builders c'" "resolve_scanners loads cfg builders None None c = (resolve_build loads cfg builders None None, c')"
      using watched_resolve [OF c] by blast
    have out: "serve loads cfg builders f (Scrape now auth) s = (case verify_prometheus cfg auth of
        Inl _ \<Rightarrow> (c, m)
      | Inr _ \<Rightarrow> (case resolve_build loads cfg builders None None of
          Inl _ \<Rightarrow> (c', m) | Inr names \<Rightarrow> refresh_signatures f (get_scanner builders) names now (c', m)))"
      by (simp add: serve_def metrics_endpoint_def s c'(2) split: sum.split)
    have one: "asks 0 (ts @ [now]) = asks 0 ts @ (if now - last (0 # asks 0 ts) < signature_refresh_ttl then [] else [now])"
      by (simp add: asks_append)
    show ?thesis
      using keep [OF c same] keep [OF c'(1) same] gauges_ok_refresh [OF assms [unfolded s] _ c'(1), of _ now]
      unfolding Scrape out
      by (cases "verify_prometheus cfg auth"; cases "resolve_build loads cfg builders None None") (simp_all add: one)
  next
    case (Scan dur username up)
    obtain c' m' where "snd (scan_endpoint loads cfg builders dur username up (c, m)) = (c', m')" "cache_ok builders c'" "same_gauges m m'"
      by (rule scan_endpoint_state [OF c])
    then show ?thesis using keep by (simp add: Scan serve_def s)
  next
    case (Select cats scs)
    have "cache_ok builders (snd (resolve_scanners loads cfg builders cats scs c))"
      by (rule reg_agrees_snd [OF resolve_agrees c])
    then show ?thesis using keep [OF _ same] by (simp add: Select serve_def s)
  qed
qed

lemma lifetime_gauges_ok: "gauges_ok loads cfg builders f (asks 0 (scrapes loads cfg builders es)) (lifetime loads cfg builders f es)"
proof (induction es rule: rev_induct)
  case Nil
  then show ?case by (simp add: lifetime_def gauges_ok_def initial_metrics_def latest_def)
next
  case (snoc e es)
  from gauges_ok_serve [OF snoc, of e] show ?case
    by (simp only: scrapes_append) (simp add: lifetime_def)
qed

text \<open>C36: The signature gauges show the last answer of the engines. Whatever a web process has served,
  the gauges of an engine are the flag and the number of its latest answer to a refresh that had
  one, the refreshes being the scrapes the rule picks: of the scrapes that are let in, each that
  comes 300 seconds or more after the last refresh, counted from zero. So no two refreshes are
  closer than that, at every scrape the last one is younger than that, and, because the clock is
  \<open>time.monotonic\<close>, none happens before it has reached 300: until then the gauges are absent.\<close>

theorem gauges_show_the_last_answer:
  "let asked = asks 0 (scrapes loads cfg builders es); m = snd (lifetime loads cfg builders to_float es) in
     map_of (mt_outdated m) name = latest (outdated_at loads cfg builders name) asked
     \<and> map_of (mt_version m) name = latest (number_at loads cfg builders to_float name) asked
     \<and> sorted_wrt (\<lambda>t u. t + 300 \<le> u) asked \<and> list_all (\<lambda>t. 300 \<le> t) asked
     \<and> (scrapes loads cfg builders es = [] \<or> last (scrapes loads cfg builders es) - last (0 # asked) < 300)"
proof -
  let ?ts = "scrapes loads cfg builders es"
  have "?ts = [] \<or> last ?ts - last (0 # asks 0 ?ts) < 300"
    using asks_recent [of "last ?ts" 0 "butlast ?ts"] by (cases "?ts = []") (simp_all add: signature_refresh_ttl_def)
  moreover have "list_all (\<lambda>t. 300 \<le> t) (asks 0 ?ts)"
    using asks_from [of _ 0 ?ts] by (auto simp: list_all_iff signature_refresh_ttl_def)
  ultimately show ?thesis
    using lifetime_gauges_ok [of loads cfg builders to_float es] asks_spaced [of 0 ?ts]
    by (simp add: gauges_ok_def signature_refresh_ttl_def Let_def)
qed

end
