(* ===== verification/Worker.thy ===== *)
theory Worker
  imports App
begin

text \<open>
  How the processes are put together: the broker and the result backend (\<open>src/broker.py\<close>), the
  actors with their queues and options (\<open>src/tasks.py\<close>, \<open>src/health.py\<close>), the command line of the
  worker (\<open>src/worker.py\<close>) and the answer of the health probe. The environment and the host name
  are arguments.
\<close>

section \<open>Broker\<close>

datatype broker = StubBroker | StreamsBroker string string

datatype result_store = StubBackend string | RedisBackend string string

definition make_broker :: "settings \<Rightarrow> broker" where
  "make_broker cfg =
     (if cfg_worker_eager cfg then StubBroker
      else StreamsBroker (cfg_worker_broker_url cfg) (cfg_worker_queue_namespace cfg))"

definition make_result_backend :: "settings \<Rightarrow> result_store" where
  "make_result_backend cfg =
     (if cfg_worker_eager cfg then StubBackend (cfg_worker_queue_namespace cfg)
      else RedisBackend (cfg_worker_queue_namespace cfg) (cfg_worker_broker_url cfg))"

record actor =
  ac_name :: string
  ac_queue :: string
  ac_options :: "(string, int) dict"

text \<open>\<open>register_task\<close>: the queue defaults to \<open>default\<close>, the options are passed on.\<close>

definition register_task :: "string \<Rightarrow> string option \<Rightarrow> (string, int) dict \<Rightarrow> actor" where
  "register_task fn queue options =
     \<lparr>ac_name = fn, ac_queue = (case queue of None \<Rightarrow> ''default'' | Some q \<Rightarrow> q), ac_options = options\<rparr>"

definition webhook_actor :: "settings \<Rightarrow> actor" where
  "webhook_actor cfg =
     register_task ''deliver_webhook'' (Some ''webhooks'')
       [(''priority'', 5), (''max_retries'', cfg_webhook_max_attempts cfg), (''min_backoff'', 1000), (''max_backoff'', 60000)]"

definition scan_actor :: actor where
  "scan_actor =
     register_task ''scan_task'' (Some ''scans'')
       [(''priority'', 10), (''max_retries'', max_retries), (''min_backoff'', 30000), (''max_backoff'', 30000)]"

definition ping_queue :: "string \<Rightarrow> string" where
  "ping_queue host = ''ping.'' @ host"

definition ping_actor :: "string \<Rightarrow> actor" where
  "ping_actor host =
     \<lparr>ac_name = ''ping'', ac_queue = ping_queue host,
      ac_options = [(''priority'', 0), (''store_results'', 1), (''max_retries'', 0), (''max_age'', 10000), (''result_ttl'', 30000)]\<rparr>"

section \<open>Worker\<close>

text \<open>\<open>s.split()\<close>: the maximal runs of characters that are not white space.\<close>

fun words_of :: "string \<Rightarrow> string list" where
  "words_of [] = []"
| "words_of (c # s) =
     (if is_space c then words_of s
      else case s of
          [] \<Rightarrow> [[c]]
        | d # r \<Rightarrow> if is_space d then [c] # words_of r
            else (case words_of s of [] \<Rightarrow> [[c]] | w # ws \<Rightarrow> (c # w) # ws))"

declare words_of.simps [simp del]

definition getenv :: "(string, string) dict \<Rightarrow> string \<Rightarrow> string \<Rightarrow> string" where
  "getenv environ name other = (case map_of environ name of None \<Rightarrow> other | Some v \<Rightarrow> v)"

definition build_argv :: "(string, string) dict \<Rightarrow> string \<Rightarrow> string list" where
  "build_argv environ host =
     [''broker'', ''tasks'', ''health'', ''--processes'', getenv environ ''WORKER_PROCESSES'' ''2'',
      ''--threads'', getenv environ ''WORKER_THREADS'' ''8'']
     @ (case map_of environ ''WORKER_WATCH'' of None \<Rightarrow> [] | Some watch \<Rightarrow> if watch = [] then [] else [''--watch'', watch])
     @ [''--queues''] @ words_of (getenv environ ''WORKER_QUEUES'' ''webhooks scans'') @ [ping_queue host]"

text \<open>The health probe: what \<open>ping.send().get_result(...)\<close> gave decides the exit code.\<close>

definition ping :: json where "ping = JStr ''pong''"

definition probe_exit :: "json result \<Rightarrow> nat" where
  "probe_exit answer = (case answer of Inl e \<Rightarrow> 1 | Inr v \<Rightarrow> if v = JStr ''pong'' then 0 else 1)"

section \<open>Every queue is consumed\<close>

definition consumed :: "string list \<Rightarrow> string list" where
  "consumed argv = drop 1 (dropWhile (\<lambda>a. a \<noteq> ''--queues'') argv)"

lemma consumed_build_argv:
  assumes "''--queues'' \<notin> {getenv environ ''WORKER_PROCESSES'' ''2'', getenv environ ''WORKER_THREADS'' ''8'', getenv environ ''WORKER_WATCH'' []}"
  shows "consumed (build_argv environ host) = words_of (getenv environ ''WORKER_QUEUES'' ''webhooks scans'') @ [ping_queue host]"
  using assms by (auto simp: consumed_def build_argv_def getenv_def split: option.splits)

lemma default_queues: "words_of ''webhooks scans'' = [''webhooks'', ''scans'']"
  by (simp add: words_of.simps is_space_def)

text \<open>A worker started without queue settings serves every actor of the program: it consumes the queue
  of the scans, of the callbacks and its own host's health probe, each once; and whatever queues are
  configured, the probe's queue is among them, so that the probe tests this very worker.\<close>

lemma worker_consumes_every_queue:
  assumes "''--queues'' \<notin> {getenv environ ''WORKER_PROCESSES'' ''2'', getenv environ ''WORKER_THREADS'' ''8'', getenv environ ''WORKER_WATCH'' []}"
  shows "ac_queue (ping_actor host) \<in> set (consumed (build_argv environ host))
    \<and> (case map_of environ ''WORKER_QUEUES'' of
         None \<Rightarrow> consumed (build_argv environ host) = map ac_queue [webhook_actor cfg, scan_actor, ping_actor host]
       | Some q \<Rightarrow> set (consumed (build_argv environ host)) = insert (ping_queue host) (set (words_of q)))"
  using consumed_build_argv [OF assms, of host]
  by (auto simp: ping_actor_def webhook_actor_def scan_actor_def register_task_def getenv_def default_queues split: option.splits)

lemma default_worker_queues:
  "consumed (build_argv [] ''h'') = [''webhooks'', ''scans'', ''ping.h'']"
  using worker_consumes_every_queue [of "[]" "''h''" default_settings]
  by (simp add: getenv_def webhook_actor_def scan_actor_def ping_actor_def register_task_def ping_queue_def)

end
