(* ===== verification/Dashboard.thy ===== *)
theory Dashboard
  imports App Ip
begin

text \<open>
  The guard of the queue dashboard (\<open>src/dashboard.py\<close>): the IP allowlist, Basic authentication and
  the middleware in front of the destructive application, which is a parameter. Texts that come
  from UTF-8 are kept as their bytes, on which the tests the code makes (equality, the separator,
  being ASCII) are the same.
\<close>

section \<open>Networks\<close>

datatype network_addr = Net4 "32 word" nat | Net6 "128 word" nat

definition netmask :: "nat \<Rightarrow> 32 word" where
  "netmask n = push_bit (32 - n) (drop_bit (32 - n) (- 1))"

text \<open>The prefix length of an IPv4 mask: a number, a netmask or a host mask.\<close>

definition prefix_of_mask :: "string \<Rightarrow> nat option" where
  "prefix_of_mask s =
     (if s \<noteq> [] \<and> list_all is_digit s then (if digits_val s \<le> 32 then Some (digits_val s) else None)
      else case parse_ipv4 s of
          None \<Rightarrow> None
        | Some w \<Rightarrow>
            (case find (\<lambda>n. netmask n = w) [0..<33] of
               Some n \<Rightarrow> Some n
             | None \<Rightarrow> find (\<lambda>n. netmask n = NOT w) [0..<33]))"

definition prefix_of_digits :: "string \<Rightarrow> nat option" where
  "prefix_of_digits s =
     (if s \<noteq> [] \<and> list_all is_digit s \<and> digits_val s \<le> 128 then Some (digits_val s) else None)"

text \<open>\<open>ipaddress.ip_network(entry, strict=False)\<close>.\<close>

definition ip_network :: "string \<Rightarrow> network_addr result" where
  "ip_network entry =
     (let addr = fst (str_partition (CHR ''/'') entry);
          mask = (if CHR ''/'' \<in> set entry then Some (snd (str_partition (CHR ''/'') entry)) else None);
          bad = Inl (ValueError (py_repr entry @ '' does not appear to be an IPv4 or IPv6 network'')) in
      case ip_address addr of
        Some (V4 w) \<Rightarrow>
          (case (case mask of None \<Rightarrow> Some 32 | Some m \<Rightarrow> prefix_of_mask m) of None \<Rightarrow> bad | Some n \<Rightarrow> Inr (Net4 w n))
      | Some (V6 w s) \<Rightarrow>
          (case (case mask of None \<Rightarrow> Some 128 | Some m \<Rightarrow> prefix_of_digits m) of None \<Rightarrow> bad | Some n \<Rightarrow> Inr (Net6 w n))
      | None \<Rightarrow> bad)"

fun in_network :: "ip \<Rightarrow> network_addr \<Rightarrow> bool" where
  "in_network (V4 w) (Net4 net n) = in_net w (net, n)"
| "in_network (V6 w s) (Net6 net n) = in_net w (net, n)"
| "in_network _ _ = False"

section \<open>The guard\<close>

definition allowed_networks :: "settings \<Rightarrow> network_addr list result" where
  "allowed_networks cfg = collect ip_network (split_csv (cfg_worker_dashboard_allowed_ips cfg))"

type_synonym environ = "(string, string) dict"

definition client_ip :: "settings \<Rightarrow> environ \<Rightarrow> string option" where
  "client_ip cfg environ =
     (let header = str_strip (cfg_worker_dashboard_forwarded_ip_header cfg);
          forwarded = (if header = [] then None
            else map_of environ (''HTTP_'' @ map (\<lambda>ch. if ch = CHR ''-'' then CHR ''_'' else ch) (str_upper header))) in
      case forwarded of
        Some v \<Rightarrow> if v = [] then map_of environ ''REMOTE_ADDR'' else Some (str_strip (hd (str_split (CHR '','') v)))
      | None \<Rightarrow> map_of environ ''REMOTE_ADDR'')"

definition ip_allowed :: "settings \<Rightarrow> string option \<Rightarrow> bool result" where
  "ip_allowed cfg host =
     rbind (allowed_networks cfg) (\<lambda>nets.
       if nets = [] then Inr True
       else case ip_address (case host of None \<Rightarrow> [] | Some h \<Rightarrow> h) of
           None \<Rightarrow> Inr False
         | Some ip \<Rightarrow> Inr (list_ex (in_network ip) nets))"

text \<open>The UTF-8 decoder's acceptance of a byte string.\<close>

definition cont_byte :: "nat \<Rightarrow> bool" where
  "cont_byte b \<longleftrightarrow> 0x80 \<le> b \<and> b \<le> 0xBF"

fun utf8_ok :: "nat list \<Rightarrow> bool" where
  "utf8_ok [] = True"
| "utf8_ok (b # bs) =
     (if b < 0x80 then utf8_ok bs
      else case bs of
          [] \<Rightarrow> False
        | c # cs \<Rightarrow>
            if 0xC2 \<le> b \<and> b \<le> 0xDF then cont_byte c \<and> utf8_ok cs
            else case cs of
                [] \<Rightarrow> False
              | d # ds \<Rightarrow>
                  if 0xE0 \<le> b \<and> b \<le> 0xEF then
                    cont_byte c \<and> (b = 0xE0 \<longrightarrow> 0xA0 \<le> c) \<and> (b = 0xED \<longrightarrow> c \<le> 0x9F) \<and> cont_byte d \<and> utf8_ok ds
                  else case ds of
                      [] \<Rightarrow> False
                    | e # es \<Rightarrow>
                        0xF0 \<le> b \<and> b \<le> 0xF4 \<and> cont_byte c \<and> (b = 0xF0 \<longrightarrow> 0x90 \<le> c) \<and> (b = 0xF4 \<longrightarrow> c \<le> 0x8F)
                        \<and> cont_byte d \<and> cont_byte e \<and> utf8_ok es)"

text \<open>\<open>base64.b64decode(s).decode().partition(":")\<close>; the alphabet error of a text that is not ASCII is
  a plain \<open>ValueError\<close>.\<close>

definition basic_credentials :: "string \<Rightarrow> (string \<times> string) result" where
  "basic_credentials s =
     (if \<not> list_all (\<lambda>ch. (of_char ch :: nat) < 128) s then
        Inl (ValueError ''string argument should contain only ASCII characters'')
      else rbind (a2b 0 0 0 s) (\<lambda>bs.
        if utf8_ok bs then Inr (str_partition (CHR '':'') (map char_of bs))
        else Inl (UnicodeDecodeError ''invalid start byte'')))"

definition authorized :: "settings \<Rightarrow> string option \<Rightarrow> bool result" where
  "authorized cfg auth_header =
     (if cfg_worker_dashboard_password cfg = [] then Inr False
      else case auth_header of
          None \<Rightarrow> Inr False
        | Some h \<Rightarrow>
            if h = [] \<or> \<not> starts_with ''Basic '' h then Inr False
            else case basic_credentials (drop 6 h) of
                Inl (BinasciiError _) \<Rightarrow> Inr False
              | Inl (UnicodeDecodeError _) \<Rightarrow> Inr False
              | Inl e \<Rightarrow> Inl e
              | Inr (user, password) \<Rightarrow>
                  rbind (compare_digest password (cfg_worker_dashboard_password cfg)) (\<lambda>ok_password.
                  rbind (if cfg_worker_dashboard_user cfg = [] then Inr True
                         else compare_digest user (cfg_worker_dashboard_user cfg)) (\<lambda>ok_user.
                    Inr (ok_user \<and> ok_password))))"

text \<open>What the middleware answers: a refusal with its status line, extra headers and body, or what the
  application answers.\<close>

datatype 'a answer = Denied string "(string \<times> string) list" string | Passed 'a

definition deny :: "string \<Rightarrow> string \<Rightarrow> (string \<times> string) list \<Rightarrow> 'a answer" where
  "deny status message headers =
     Denied status ([(''Content-Type'', ''text/plain; charset=utf-8''), (''Content-Length'', show_nat (length message))] @ headers)
       message"

definition guard_call :: "settings \<Rightarrow> (environ \<Rightarrow> 'a) \<Rightarrow> environ \<Rightarrow> 'a answer result" where
  "guard_call cfg app environ =
     rbind (ip_allowed cfg (client_ip cfg environ)) (\<lambda>ok.
       if \<not> ok then Inr (deny ''403 Forbidden'' (''Forbidden'' @ [CHR 10]) [])
       else rbind (authorized cfg (map_of environ ''HTTP_AUTHORIZATION'')) (\<lambda>auth.
         if \<not> auth then Inr (deny ''401 Unauthorized'' (''Unauthorized'' @ [CHR 10])
           [(''WWW-Authenticate'', ''Basic realm='' @ [CHR 34] @ ''dashboard'' @ [CHR 34])])
         else Inr (Passed (app environ))))"

section \<open>Who gets through\<close>

text \<open>The address checks and the credentials, as conditions.\<close>

definition peer_ok :: "settings \<Rightarrow> environ \<Rightarrow> bool" where
  "peer_ok cfg environ \<longleftrightarrow>
     (\<exists>nets. allowed_networks cfg = Inr nets \<and>
        (nets = [] \<or> (\<exists>host ip. client_ip cfg environ = Some host \<and> ip_address host = Some ip \<and> list_ex (in_network ip) nets)))"

definition secret_ok :: "settings \<Rightarrow> environ \<Rightarrow> bool" where
  "secret_ok cfg environ \<longleftrightarrow>
     (\<exists>h user. map_of environ ''HTTP_AUTHORIZATION'' = Some (''Basic '' @ h)
        \<and> basic_credentials h = Inr (user, cfg_worker_dashboard_password cfg)
        \<and> list_all (\<lambda>ch. (of_char ch :: nat) < 128) (cfg_worker_dashboard_password cfg)
        \<and> (cfg_worker_dashboard_user cfg = []
           \<or> user = cfg_worker_dashboard_user cfg \<and> list_all (\<lambda>ch. (of_char ch :: nat) < 128) user))"

lemma compare_digest_Inr:
  "compare_digest a b = Inr v \<longleftrightarrow> list_all (\<lambda>ch. (of_char ch :: nat) < 128) (a @ b) \<and> v = (a = b)"
  by (auto simp: compare_digest_def)

lemma empty_address [simp]: "ip_address [] = None"
  by code_simp

lemma ip_allowed_True: "ip_allowed cfg (client_ip cfg environ) = Inr True \<longleftrightarrow> peer_ok cfg environ"
proof (cases "allowed_networks cfg")
  case (Inr nets)
  then show ?thesis
    by (cases "client_ip cfg environ"; cases "ip_address (case client_ip cfg environ of None \<Rightarrow> [] | Some h \<Rightarrow> h)")
       (simp_all add: ip_allowed_def peer_ok_def)
qed (simp add: ip_allowed_def peer_ok_def)

lemma authorized_True:
  "authorized cfg (map_of environ ''HTTP_AUTHORIZATION'') = Inr True
     \<longleftrightarrow> cfg_worker_dashboard_password cfg \<noteq> [] \<and> secret_ok cfg environ"
proof (cases "\<exists>h. map_of environ ''HTTP_AUTHORIZATION'' = Some (''Basic '' @ h)")
  case True
  then obtain h where h: "map_of environ ''HTTP_AUTHORIZATION'' = Some (''Basic '' @ h)" by blast
  show ?thesis
  proof (cases "basic_credentials h")
    case (Inl e)
    then show ?thesis using h by (cases e) (simp_all add: authorized_def secret_ok_def starts_with_def)
  next
    case (Inr up)
    then show ?thesis
      using h by (cases up) (auto simp: authorized_def secret_ok_def starts_with_def rbind_Inr_iff compare_digest_Inr)
  qed
next
  case False
  then show ?thesis by (auto simp: authorized_def secret_ok_def starts_with_iff split: option.splits)
qed

lemma guard_call_Passed:
  "guard_call cfg app environ = Inr (Passed x) \<longleftrightarrow>
     x = app environ \<and> cfg_worker_dashboard_password cfg \<noteq> [] \<and> peer_ok cfg environ \<and> secret_ok cfg environ"
proof -
  have "guard_call cfg app environ = Inr (Passed x) \<longleftrightarrow>
      ip_allowed cfg (client_ip cfg environ) = Inr True
      \<and> authorized cfg (map_of environ ''HTTP_AUTHORIZATION'') = Inr True \<and> x = app environ"
    by (auto simp: guard_call_def deny_def rbind_Inr_iff split: if_splits)
  then show ?thesis by (auto simp: ip_allowed_True authorized_True)
qed


end
