(* ===== verification/Processes.thy ===== *)
theory Processes
  imports Worker Dashboard
begin

text \<open>
  How the processes start and stop: what importing the modules builds (\<open>src/broker.py\<close>, the keys of
  \<open>src/jwt_auth.py\<close>, the dashboard mount of \<open>src/app.py\<close>, the actors and middleware of
  \<open>src/health.py\<close>), the boot checks of both processes (\<open>lifespan\<close>, \<open>__main__\<close> of \<open>src/worker.py\<close>),
  and what a worker does at shutdown.
\<close>

section \<open>Import\<close>

datatype middleware = CurrentMessage | Results result_store | DropPingQueue

record broker_module =
  bm_broker :: broker
  bm_backend :: result_store
  bm_middleware :: "middleware list"

text \<open>\<open>defaults\<close> is the middleware the task library gives every broker.\<close>

definition broker_import :: "settings \<Rightarrow> middleware list \<Rightarrow> broker_module" where
  "broker_import cfg defaults =
     (let backend = make_result_backend cfg in
      \<lparr>bm_broker = make_broker cfg, bm_backend = backend,
       bm_middleware = (defaults @ [CurrentMessage]) @ [Results backend]\<rparr>)"

text \<open>\<open>hasattr(broker, "client")\<close>: the broker over streams has a Redis client, the stub has none.\<close>

fun has_client :: "broker \<Rightarrow> bool" where
  "has_client StubBroker = False"
| "has_client (StreamsBroker url namespace) = True"

definition health_import :: "string \<Rightarrow> broker_module \<Rightarrow> actor \<times> broker_module" where
  "health_import host bm =
     (ping_actor host, if has_client (bm_broker bm) then bm\<lparr>bm_middleware := bm_middleware bm @ [DropPingQueue]\<rparr> else bm)"

text \<open>What the worker's modules \<open>tasks\<close> and \<open>health\<close> give a worker process.\<close>

definition worker_import :: "settings \<Rightarrow> string \<Rightarrow> middleware list \<Rightarrow> actor list \<times> broker_module" where
  "worker_import cfg host defaults =
     (case health_import host (broker_import cfg defaults) of
        (p, bm) \<Rightarrow> ([webhook_actor cfg, scan_actor, p], bm))"

text \<open>\<open>build_dashboard(prefix=path)\<close>: the guard around the application of the streams package.\<close>

definition create_app :: "settings \<Rightarrow> (broker \<Rightarrow> string \<Rightarrow> environ \<Rightarrow> 'a) \<Rightarrow> string \<Rightarrow> environ \<Rightarrow> 'a answer result" where
  "create_app cfg dashboard_app prefix = guard_call cfg (dashboard_app (make_broker cfg) prefix)"

section \<open>Start\<close>

definition lifespan :: "loads \<Rightarrow> settings \<Rightarrow> builders \<Rightarrow> unit reg" where
  "lifespan loads cfg builders = validate_registry loads cfg builders"

definition app_version :: string where
  "app_version = ''1.0.0''"

text \<open>\<open>wp_app\<close> is the title and the version that the application announces.\<close>

record 'a web_process =
  wp_app :: "string \<times> string"
  wp_private :: "raw_key option"
  wp_issuers :: "(string, raw_key) dict"
  wp_dashboard :: "(string \<times> (environ \<Rightarrow> 'a answer result)) option"

text \<open>The web process: the keys are read and the dashboard is mounted at import, the registry is
  checked when the server starts.\<close>

definition web_start ::
    "loads \<Rightarrow> settings \<Rightarrow> builders \<Rightarrow> (broker \<Rightarrow> string \<Rightarrow> environ \<Rightarrow> 'a) \<Rightarrow> bool \<Rightarrow> 'a web_process reg" where
  "web_start loads cfg builders dashboard_app built =
     reg_bind (reg_lift (load_private cfg)) (\<lambda>private.
     reg_bind (reg_lift (load_issuers cfg)) (\<lambda>issuers.
     reg_bind (lifespan loads cfg builders) (\<lambda>_.
       reg_lift (Inr \<lparr>wp_app = (''File Scanner'', app_version), wp_private = private, wp_issuers = issuers,
         wp_dashboard = map_option (\<lambda>p. (p, create_app cfg dashboard_app p)) (mount_dashboard cfg built)\<rparr>))))"

text \<open>The worker's parent process: the arguments the command line of the task library gets.\<close>

definition worker_main :: "loads \<Rightarrow> settings \<Rightarrow> builders \<Rightarrow> (string, string) dict \<Rightarrow> string \<Rightarrow> string list reg" where
  "worker_main loads cfg builders environ host =
     reg_bind (validate_registry loads cfg builders) (\<lambda>_. reg_lift (Inr (build_argv environ host)))"

definition jwks_endpoint :: "jwt_lib \<Rightarrow> settings \<Rightarrow> 'a web_process \<Rightarrow> claims" where
  "jwks_endpoint lib cfg wp = jwks lib cfg (wp_private wp)"

section \<open>Stop\<close>

text \<open>The client of the streams broker and the key names of its package.\<close>

record 's redis =
  rd_srem :: "string \<Rightarrow> string \<Rightarrow> 's \<Rightarrow> unit result \<times> 's"
  rd_delete :: "string \<Rightarrow> 's \<Rightarrow> unit result \<times> 's"
  rd_queues_key :: "string \<Rightarrow> string"
  rd_stream_key :: "string \<Rightarrow> string \<Rightarrow> string"

definition after_worker_shutdown :: "'s redis \<Rightarrow> string \<Rightarrow> string \<Rightarrow> 's \<Rightarrow> 's" where
  "after_worker_shutdown rd namespace host s =
     (case rd_srem rd (rd_queues_key rd namespace) (ping_queue host) s of
        (Inl e, s1) \<Rightarrow> s1
      | (Inr _, s1) \<Rightarrow> snd (rd_delete rd (rd_stream_key rd (ping_queue host) namespace) s1))"

text \<open>A worker process stops: each middleware in turn; only this one of the program's has a hook.\<close>

fun on_shutdown :: "'s redis \<Rightarrow> string \<Rightarrow> broker \<Rightarrow> middleware \<Rightarrow> 's \<Rightarrow> 's" where
  "on_shutdown rd host (StreamsBroker url namespace) DropPingQueue s = after_worker_shutdown rd namespace host s"
| "on_shutdown _ _ _ _ s = s"

definition stop_worker :: "'s redis \<Rightarrow> string \<Rightarrow> broker_module \<Rightarrow> 's \<Rightarrow> 's" where
  "stop_worker rd host bm s = fold (on_shutdown rd host (bm_broker bm)) (bm_middleware bm) s"

section \<open>What a started service has\<close>

lemma worker_registers_its_actors:
  "fst (worker_import cfg host defaults) = [webhook_actor cfg, scan_actor, ping_actor host]"
  by (simp add: worker_import_def health_import_def)

text \<open>In the shipped setups a worker that stops drops its probe's queue when there is a server that
  holds it, and touches nothing in the eager mode.\<close>

lemma stop_drops_the_probe_queue:
  assumes "DropPingQueue \<notin> set defaults"
  shows "stop_worker rd host (snd (worker_import cfg host defaults)) s =
     (if cfg_worker_eager cfg then s else after_worker_shutdown rd (cfg_worker_queue_namespace cfg) host s)"
proof -
  have "on_shutdown rd host b m s = s" if "m \<noteq> DropPingQueue" for b m s
    using that by (cases b; cases m) simp_all
  then have "fold (on_shutdown rd host b) ms s = s" if "DropPingQueue \<notin> set ms" for ms b
    using that by (induction ms) auto
  note other = this [OF assms]
  show ?thesis
    by (simp add: stop_worker_def worker_import_def health_import_def broker_import_def make_broker_def other Let_def)
qed

lemma web_start_Inr:
  assumes "cache_ok builders c"
  shows "fst (web_start loads cfg builders app built c) = Inr wp \<longleftrightarrow>
     load_private cfg = Inr (wp_private wp) \<and> load_issuers cfg = Inr (wp_issuers wp)
     \<and> validate_build loads cfg builders = Inr ()
     \<and> wp_dashboard wp = map_option (\<lambda>p. (p, create_app cfg app p)) (mount_dashboard cfg built)
     \<and> wp_app wp = (''File Scanner'', app_version)"
proof -
  have "reg_agrees (cache_ok builders) (web_start loads cfg builders app built)
      (rbind (load_private cfg) (\<lambda>private. rbind (load_issuers cfg) (\<lambda>issuers.
        rbind (validate_build loads cfg builders) (\<lambda>_. Inr \<lparr>wp_app = (''File Scanner'', app_version), wp_private = private, wp_issuers = issuers,
          wp_dashboard = map_option (\<lambda>p. (p, create_app cfg app p)) (mount_dashboard cfg built)\<rparr>))))"
    unfolding web_start_def lifespan_def by (intro agrees validate_agrees)
  from reg_agrees_fst [OF this assms] show ?thesis by (cases wp) (auto simp: rbind_Inr_iff)
qed

lemma worker_main_Inr:
  assumes "cache_ok builders c"
  shows "fst (worker_main loads cfg builders environ host c) = Inr argv \<longleftrightarrow>
     validate_build loads cfg builders = Inr () \<and> argv = build_argv environ host"
proof -
  have "reg_agrees (cache_ok builders) (worker_main loads cfg builders environ host)
      (rbind (validate_build loads cfg builders) (\<lambda>_. Inr (build_argv environ host)))"
    unfolding worker_main_def by (intro agrees validate_agrees)
  from reg_agrees_fst [OF this assms] show ?thesis by (auto simp: rbind_Inr_iff)
qed

text \<open>Callbacks are signed exactly when the published key set names a key to verify them with.\<close>

lemma published_key:
  "sign_webhook lib cfg private url body now = Inr None \<longleftrightarrow> jget (jwks lib cfg private) ''keys'' = JList []"
  by (cases "private") (auto simp: sign_webhook_def can_sign_def jwt_encode_def jwks_def public_jwk_def jget_def Let_def)

text \<open>C24: A service that has started is ready to work, all of it. When the web process starts, its keys
  were read from the settings, the worker with the same settings starts too and is asked for its
  own probe's queue, every selection of configured categories (or of nothing, when there are
  default categories) resolves to built engines that feed one of the requested categories, a
  receiver finds no published key only when callbacks are not signed, and the dashboard, when it
  is served at all, answers nobody but the operator.\<close>

theorem started_service_is_ready:
  assumes "fst (web_start loads cfg builders dashboard_app built c) = Inr wp"
    and "cache_ok builders c" and "cache_ok builders d"
  shows "load_private cfg = Inr (wp_private wp) \<and> load_issuers cfg = Inr (wp_issuers wp)
    \<and> (\<exists>argv. fst (worker_main loads cfg builders environ host d) = Inr argv \<and> ping_queue host \<in> set argv)
    \<and> (\<forall>m cats. category_map loads cfg = Inr m \<and> set cats \<subseteq> fst ` set m \<and> (cats \<noteq> [] \<or> default_categories cfg \<noteq> []) \<longrightarrow>
         (\<exists>ns. fst (resolve_scanners loads cfg builders (Some cats) None d) = Inr ns \<and> distinct ns \<and> ns \<noteq> []
            \<and> set ns \<subseteq> {n. \<exists>s. map_of builders n = Some (Inr s)
                \<and> sc_category s \<in> set (request_categories cfg (Some cats) None)}))
    \<and> (jget (jwks_endpoint lib cfg wp) ''keys'' = JList [] \<longleftrightarrow> sign_webhook lib cfg (wp_private wp) url body now = Inr None)
    \<and> (\<forall>path app request x. wp_dashboard wp = Some (path, app) \<and> app request = Inr (Passed x) \<longrightarrow>
         cfg_worker_dashboard_password cfg \<noteq> [] \<and> peer_ok cfg request \<and> secret_ok cfg request)"
proof -
  note web = assms(1) [unfolded web_start_Inr [OF assms(2)]]
  have v: "fst (validate_registry loads cfg builders c) = Inr ()"
    using web reg_agrees_fst [OF validate_agrees assms(2)] by simp
  have "fst (worker_main loads cfg builders environ host d) = Inr (build_argv environ host)"
    using web worker_main_Inr [OF assms(3)] by simp
  moreover have "ping_queue host \<in> set (build_argv environ host)" by (simp add: build_argv_def)
  moreover have "cfg_worker_dashboard_password cfg \<noteq> [] \<and> peer_ok cfg request \<and> secret_ok cfg request"
    if "wp_dashboard wp = Some (path, app)" "app request = Inr (Passed x)" for path app request x
    using that web by (auto simp: create_app_def guard_call_Passed)
  ultimately show ?thesis
    using web accepted_registry_serves_its_categories [OF assms(2,3) v] published_key
    unfolding jwks_endpoint_def by blast
qed

theorem started_service_is_ready_witness:
  "\<exists>wp. fst (web_start sample_loads sample_cfg sample_builders (\<lambda>b p e. ()) True []) = Inr wp
     \<and> (\<exists>argv. fst (worker_main sample_loads sample_cfg sample_builders [] ''h'' []) = Inr argv \<and> ping_queue ''h'' \<in> set argv)"
proof -
  let ?wp = "\<lparr>wp_app = (''File Scanner'', app_version), wp_private = None, wp_issuers = [], wp_dashboard = None :: (string \<times> (environ \<Rightarrow> unit answer result)) option\<rparr>"
  have "load_private sample_cfg = Inr None" "load_issuers sample_cfg = Inr []" "mount_dashboard sample_cfg True = None"
    by code_simp+
  then have "fst (web_start sample_loads sample_cfg sample_builders (\<lambda>b p e. ()) True []) = Inr ?wp"
    using sample_accepted
    unfolding web_start_Inr [OF cache_ok_Nil] reg_agrees_fst [OF validate_agrees cache_ok_Nil]
    by simp
  from this started_service_is_ready [OF this cache_ok_Nil cache_ok_Nil, of "[]" "''h''"] show ?thesis by blast
qed

end
