(* ===== verification/Spec2Isabelle.thy ===== *)
theory Spec2Isabelle
  imports Result_Shapes Async_Liveness Callbacks Confidential Crashes Delivery_Crashes Freshness Processes Scanner_Pool
begin

text \<open>
  Verification library of the file-scanner service.

  \<^bold>\<open>The program.\<close> A web process (\<open>src/app.py\<close>) authenticates callers by request-bound JWTs
  (\<open>src/jwt_auth.py\<close>) and offers two ways to have a file scanned. The synchronous endpoint scans the
  uploaded bytes at once; the asynchronous one checks the request (\<open>src/validation.py\<close>), queues a
  message and lets the caller poll a record (\<open>src/results.py\<close>) or wait for a callback. A worker
  (\<open>src/tasks.py\<close>, started by \<open>src/worker.py\<close> over the broker of \<open>src/broker.py\<close>) downloads the file
  through a client that is safe against server-side request forgery (\<open>src/ssrf.py\<close>), decrypts a
  client-encrypted one (\<open>src/encryption.py\<close>), runs the scanners (\<open>src/scanner.py\<close>,
  \<open>src/scanners/*.py\<close>), reduces their results to one verdict per category, and reports in the wire
  version of the job (\<open>src/wire.py\<close>). Settings come from \<open>src/config.py\<close>, counters are kept by
  \<open>src/metrics.py\<close>, the queue dashboard is guarded by \<open>src/dashboard.py\<close>, the worker is probed by
  \<open>src/health.py\<close>, and \<open>deploy/scripts\<close> makes keys and tokens.

  \<^bold>\<open>Theories and what they model.\<close>
  \<^item> \<open>Prelude\<close>, \<open>Json\<close>: Python's exceptions as the datatype \<open>exn\<close>, a computation that may raise as
    \<open>exn + 'a\<close> with \<open>rbind\<close>, insertion-ordered dictionaries as association lists, the string and
    number primitives the source uses, JSON values. Collections \<open>py_simps\<close> and \<open>dict_simps\<close>.
  \<^item> \<open>Verdicts\<close>: \<open>Verdict\<close>, \<open>ScannerResult\<close>, \<open>CategoryVerdict\<close> and \<open>ScanReport\<close> of \<open>scanner.py\<close>, the
    five words as a linear order by precedence, the reduction \<open>verdicts\<close>.
  \<^item> \<open>Config\<close>: the record \<open>settings\<close> with every field of \<open>Settings\<close>, its defaults, the profiles, the
    order and the filtering of the sources.
  \<^item> \<open>Registry\<close>: \<open>_BUILDERS\<close> and its cache (explicit state \<open>cache\<close>), \<open>resolve_scanners\<close>, the
    advisory role, the size guard, \<open>validate_registry\<close>.
  \<^item> \<open>Metrics\<close>, \<open>Run_Scanners\<close>: the counters as a record threaded through; \<open>run_scanners\<close>.
  \<^item> \<open>Scanner_Pool\<close>: the threads of \<open>run_scanners\<close> (\<open>pc\<close>: where one stands), those of several calls
    interleaved as \<open>pool_step\<close> over the unlocked cache and the metrics; \<open>serial\<close> is the reference.
  \<^item> \<open>Clamav\<close>, \<open>Exav\<close>, \<open>Jcop\<close>, \<open>Backends\<close>: the three engines and the shipped builder table.
  \<^item> \<open>Wire\<close>, \<open>Results_Store\<close>: the two wire formats; the owner-scoped job records.
  \<^item> \<open>Encryption\<close>, \<open>Download\<close>: the key fragment, one chunk, and the two streaming writers of
    \<open>tasks.py\<close> with their budgets.
  \<^item> \<open>Ip\<close>, \<open>Urls\<close>: what the source uses of \<open>ipaddress\<close> and \<open>urllib.parse\<close>, on machine words and texts.
  \<^item> \<open>Ssrf\<close>, \<open>Validation\<close>: address check, host validation, pinned connections, redirects; the policy.
  \<^item> \<open>Jwt_Auth\<close>, \<open>Deploy_Scripts\<close>, \<open>Api_Auth\<close>: keys, tokens and webhook signatures; the operator's
    scripts; \<open>_authenticate\<close>.
  \<^item> \<open>Tasks\<close>, \<open>Task_Reports\<close>: \<open>scan_task\<close> and \<open>deliver_webhook\<close> over the record \<open>world\<close> (network, store,
    download directory, queued callbacks, scanner state); what they promise, and the retries.
  \<^item> \<open>App\<close>: both scan endpoints, poll, health check, metrics gate, dashboard mount, log filter.
  \<^item> \<open>Async_System\<close>, \<open>Result_Shapes\<close>: web processes and workers interleaved as the step relation
    \<open>sys_step\<close>, its invariant by rule induction, and the documented shapes of what callers get.
  \<^item> \<open>Async_Liveness\<close>: progress of \<open>sys_step\<close>; the measure is the runs the queued jobs have left.
  \<^item> \<open>Callbacks\<close>: the delivery workers on top, as the step relation \<open>dlv_step\<close> over the queue of
    \<open>deliver_webhook\<close>, its retries and dead letters, with a history of every POST.
  \<^item> \<open>Confidential\<close>: what the decryption key can influence, by an unwinding over all these steps.
  \<^item> \<open>Crashes\<close>, \<open>Delivery_Crashes\<close>: \<open>crash_step\<close>, the same service with workers and web processes
    that die; \<open>out_step\<close>, its deliveries with delivery workers that die as well.
  \<^item> \<open>Freshness\<close>: the signature gauges over the lifetime of a web process, whatever it serves.
  \<^item> \<open>Dashboard\<close>, \<open>Worker\<close>, \<open>Processes\<close>: the guard of the dashboard; broker, actors, command line,
    probe; what the modules build at import, the boot checks of both processes, the shutdown.
  \<^item> this theory: the properties that span them, from the upload to the callback and its budget.

  \<^bold>\<open>Interfaces.\<close> Where one part relies on another, the contract is a locale, interpreted on the
  model's own definitions by the part that provides it: \<open>dictionary\<close> and \<open>group_dictionary\<close>
  (association lists, grouping by category), \<open>memo\<close> (the scanner cache is transparent),
  \<open>scan_backend\<close> (reply classification; clamd, exav, JCOP), \<open>job_store\<close> (owner-scoped records),
  \<open>host_guard\<close> (a validated host has addresses that may be dialled), \<open>retried_task\<close> (a task under the
  library's retry policy settles).

  \<^bold>\<open>What is shown.\<close> Verdicts: precedence and scope of the reduction, evidence for every verdict, what
  a clean answer of the shipped engines asserts. Registry: which scanners a request runs, what an
  accepted configuration guarantees. Downloads: the streaming decryption equals the whole-body
  reference, opens exactly what the key's holder sealed, in order and complete, within the budgets. Network:
  every connection goes to an address that passed the check, six hops at most, no downgrade.
  Identity: who gets in proved it for this request; tokens and fragments of the scripts work;
  replay is bounded. Tasks: each run cleans up and settles at most once, every job ends in a
  report, the report says what happened. System: the invariants of every interleaving, what remains
  of them and of the callbacks when processes die, that no job gets stuck, that whatever is posted is a signed result of
  the receiver's own job, that no key shows in anything emitted, and the one run in which the
  pending record overtakes the result; and that a callback nobody accepts is attempted once more
  than the setting says. Processes: what a service that has started can rely on;
  every schedule of the scanner threads is the serial one; the gauges show the engines' last answer.

  \<^bold>\<open>Bounds and termination.\<close> Redirects are a recursion on the six hops of \<open>MAX_REDIRECTS + 1\<close>; the
  drain loop of the decrypting writer has the length of its buffer as measure; the JCOP poll is a
  \<open>partial_function (option)\<close> and is proved to return when the clock advances; redelivery counts up
  to the actor's \<open>max_retries\<close>. No definition runs on fuel.

  \<^bold>\<open>Parameters.\<close> Code outside the repository is an argument: DNS, HTTP and \<open>urljoin\<close> (\<open>network\<close>, over a
  world that may change between any two calls), PyJWT, Ed25519 and SHA-256 (\<open>jwt_lib\<close>), AES-GCM
  (\<open>gcm\<close>), the result backend (\<open>backend\<close>), the broker's \<open>send\<close>, the clamd client and the exav socket,
  the JCOP service, \<open>json.loads\<close> and \<open>json.dumps\<close>, the merging of setting sources, clock and random
  choice. What is relied on of them is a named predicate (\<open>backend_laws\<close>, \<open>jwt_laws\<close>,
  \<open>pyjwt_times\<close>, \<open>pyjwt_claims\<close>, \<open>aead\<close>, \<open>only_opens\<close>), and each has a concrete instance in a witness.

  \<^bold>\<open>Assumptions of the model.\<close> Texts are lists of 8-bit characters, UTF-8 where they are
  not ASCII; white space, digits and letters are those of ASCII. Outside \<open>Scanner_Pool\<close>
  the scanners of a call run in the order of their names, which is shown there to be no loss; a scan
  and each half of \<open>metrics.record\<close> are atomic. The download
  file can be opened and its fresh UUID names no other file. A URL is sent as \<open>urlunparse\<close> gives
  it: the preparation of requests and environment proxies of the HTTP library are not modelled.
  A message is redelivered because a run raised or, in \<open>Crashes\<close> and \<open>Delivery_Crashes\<close> only, because
  its worker died; there the broker keeps an unacknowledged message and its retry count, and
  requeueing a failed message and acknowledging it is one step.

  \<^bold>\<open>Not modelled.\<close> Logging texts; routing, form and body parsing of the web framework; the hooks of
  the task library's own middleware; the dashboard application behind the guard; the imports and
  docstrings that make up most of the lines no definition maps to.
\<close>

section \<open>From the upload to the callback\<close>

text \<open>What a receiver reads as \<open>the file is clean\<close>: in v1 the scalar of the malware axis is
  \<open>false\<close>, in v2 the axis carries the word \<open>clean\<close>.\<close>

definition says_file_is_clean :: "payload \<Rightarrow> bool" where
  "says_file_is_clean body \<longleftrightarrow>
     (if jget body ''api_version'' = JStr v1 then jget body ''malware'' = JBool False
      else member_of ''kind'' (member_of ''malware'' (jget body ''verdicts'')) = JStr ''clean'')"

lemma error_is_not_clean: "\<not> says_file_is_clean (serialize (error_result jb k m) version)"
proof -
  have g: "jget (error_result jb k m) ''verdicts'' = JNull" "jget (error_result jb k m) ''malware'' = JNull"
    by (simp_all add: error_result_def jget_update) (simp_all add: initial_result_def jget_def)
  have "jget (to_v1 p) k = (if k = ''verdicts'' then JNull else jget p k)" if "jget p ''verdicts'' = JNull" for p k
    using that by (simp add: to_v1_def jget_def map_of_filter_key)
  with g show ?thesis by (simp add: says_file_is_clean_def serialize_def v1_def member_of_def)
qed

lemma clean_body_iff:
  "says_file_is_clean (serialize (report_result jb rep t) version) \<Longrightarrow>
     \<exists>v. map_of (verdicts rep) ''malware'' = Some v \<and> cv_kind v = Clean"
proof -
  let ?p = "report_result jb rep t"
  assume c: "says_file_is_clean (serialize ?p version)"
  have v: "map_of ?p ''verdicts'' = Some (JObj (verdicts_json rep))"
    using report_result_gets(3) [of jb rep t] by (auto simp: jget_def split: option.splits)
  have m: "map_of ?p ''malware'' = None"
    by (simp add: report_result_def map_of_dict_update report_as_dict_def initial_result_def split: option.split)
  show ?thesis
  proof (cases "version = v1")
    case True
    with c have "jget (to_v1 ?p) ''malware'' = JBool False" by (simp add: says_file_is_clean_def serialize_def)
    then have "map_of (to_v1 ?p) ''malware'' = Some (JBool False)" by (auto simp: jget_def split: option.splits)
    then obtain x where "map_of (verdicts rep) ''malware'' = Some x" "v1_scalar x = JBool False"
      using m by (auto simp: map_of_to_v1 [OF v] Let_def split: option.splits)
    then show ?thesis by (auto simp: v1_scalar_def split: kind.splits option.splits)
  next
    case False
    with c have "member_of ''kind'' (member_of ''malware'' (JObj (verdicts_json rep))) = JStr ''clean''"
      by (simp add: says_file_is_clean_def serialize_def jget_Some [OF v])
    then obtain x where "map_of (verdicts rep) ''malware'' = Some x" "kind_str (cv_kind x) = kind_str Clean"
      by (auto simp: member_of_def jget_def [of "verdicts_json rep"] map_of_verdicts_json jget_verdict split: option.splits)
    then show ?thesis unfolding kind_str_inj by blast
  qed
qed

text \<open>A callback that a run of the task queued is the serialised verdict on its attempt.\<close>

lemma queued_callback:
  assumes "scan_task env jb path dur msg s = (r, s')" and "path \<notin> fst ` set (wo_files s)"
    and "wo_outbox s' = wo_outbox s @ [(url, body)]"
  shows "body = serialize (verdict_on jb (fst (scan_attempt env jb path dur s))) (jb_version jb)"
  by (cases rule: scan_task_cases [OF assms(1,2)])
     (use assms(3) in \<open>auto simp: reported_def callbacks_def split: option.splits if_splits\<close>)

text \<open>What a finished attempt has read and run.\<close>

lemma finished_attempt:
  assumes "fst (scan_attempt env jb path dur s) = Inr rep"
  obtains content w st where "fetch_file env jb (wo_net s) = (Inr (), Some content, w)"
    "run_scanners (en_cfg env) (en_builders env) (jb_scanners jb) (\<lambda>_. Inr content) dur (jb_client jb) (wo_scan s) = (Inr rep, st)"
proof -
  obtain f content w where f: "fetch_file env jb (wo_net s) = (f, content, w)" by (metis prod_cases3)
  from assms f have "fst (run_scanners (en_cfg env) (en_builders env) (jb_scanners jb) (\<lambda>_. Inr (the content)) dur
      (jb_client jb) (wo_scan s)) = Inr rep" "f = Inr ()" "content = Some (the content)"
    by (auto simp: scan_attempt_fst split: sum.splits option.splits)
  with f that show thesis by (metis prod.collapse)
qed

lemma fetched_plaintext:
  assumes "fetch_file env jb w = (Inr (), Some content, w')" and "jb_encryption jb \<noteq> []"
  obtains body fin n where "write_decrypted (en_cfg env) (en_gcm env) (jb_encryption jb) body fin = (Inr n, content)"
  using assms
  by (auto simp: fetch_file_def write_body_def rbind_Inr_iff split: prod.splits sum.splits)


section \<open>A concrete upload\<close>

definition upload_stream :: stream where
  "upload_stream = \<lparr>st_length = Some ''29'', st_error = [], st_body = sample_body, st_end = None\<rparr>"

definition upload_net :: "(unit, stream) network" where
  "upload_net = answering \<lparr>wr_status = 200, wr_location = None, wr_data = upload_stream\<rparr>"

definition upload_env :: "(unit, (key_msg \<times> json) list) env" where
  "upload_env = \<lparr>en_cfg = default_settings, en_net = upload_net, en_backend = list_backend, en_gcm = sample_gcm,
     en_builders = shipped_builders default_settings sample_outside, en_send = (\<lambda>m. Inr ())\<rparr>"

definition upload_job :: job where
  "upload_job = sample_job\<lparr>jb_encryption := sample_enc\<rparr>"

lemma upload_fields [simp]:
  "en_cfg upload_env = default_settings" "en_gcm upload_env = sample_gcm"
  "en_builders upload_env = shipped_builders default_settings sample_outside"
  "jb_encryption upload_job = sample_enc" "jb_scanners upload_job = [''clamav'']"
  by (simp_all add: upload_env_def upload_job_def sample_job_def)

lemma upload_fetch: "fetch_file upload_env upload_job () = (Inr (), Some [0x41], ())"
proof -
  have d: "declared_length (Some ''29'') = Some 29" by code_simp
  have c: "check_response upload_env upload_job \<lparr>wr_status = 200, wr_location = None, wr_data = upload_stream\<rparr> = Inr ()"
    by (simp add: check_response_def upload_stream_def d wire_cap_def default_settings_def sample_enc_def Let_def item_def
        json_int_def overhead_per_chunk_def iv_bytes_def gcm_tag_bytes_def ceil_div_def)
  have "sample_enc \<noteq> []" by (simp add: sample_enc_def)
  then have w: "write_body upload_env upload_job upload_stream = (Inr 29, [0x41])"
    by (simp add: write_body_def upload_stream_def sample_decrypted)
  have "fetch_file upload_env upload_job () =
      (case write_body upload_env upload_job upload_stream of (res, content) \<Rightarrow> (rbind res (\<lambda>_. Inr ()), Some content, ()))"
    by (rule drive_fetch [OF _ _ _ _ c])
       (simp_all add: upload_env_def upload_net_def upload_job_def sample_job_def drive_urls_def default_settings_def)
  then show ?thesis by (simp add: w)
qed

lemma upload_callback:
  assumes "scan_task upload_env upload_job ''p'' (\<lambda>_. 1) (Some 0) sample_world = (r, s')"
  shows "\<exists>url body. wo_outbox s' = wo_outbox sample_world @ [(url, body)] \<and> says_file_is_clean body"
proof -
  have w: "wo_net sample_world = ()" "wo_scan sample_world = ([], initial_metrics)" by (simp_all add: sample_world_def)
  obtain q where run: "run_scanners default_settings (shipped_builders default_settings sample_outside) [''clamav''] (\<lambda>_. Inr [0x41])
      (\<lambda>_. 1) (jb_client upload_job) ([], initial_metrics) = (Inr [q], snd (run_scanners default_settings
        (shipped_builders default_settings sample_outside) [''clamav''] (\<lambda>_. Inr [0x41]) (\<lambda>_. 1) (jb_client upload_job) ([], initial_metrics)))"
    and q: "sr_category q = ''malware''" "sr_kind q = Clean"
    by (rule sample_run)
  have "fst (scan_attempt upload_env upload_job ''p'' (\<lambda>_. 1) sample_world) = Inr [q]"
    unfolding scan_attempt_fst w upload_fetch upload_fields by (simp add: run [THEN arg_cong [where f = fst]])
  then obtain s1 where a: "scan_attempt upload_env upload_job ''p'' (\<lambda>_. 1) sample_world = (Inr [q], s1)"
    by (metis prod.collapse)
  have out: "wo_outbox s1 = wo_outbox sample_world" using scan_attempt_keeps(2) [OF a] by simp
  have ne: "\<not> all_errored [q]" using q by (auto simp: all_errored_iff results_of_def deciding_def)
  let ?p = "report_result upload_job [q] False"
  have cb: "callbacks upload_job ?p = [(''https://drive.example/hook'', serialize ?p v2)]"
    by (simp add: callbacks_def upload_job_def sample_job_def)
  have "(r, s') = finalize upload_env upload_job ?p (remove_file ''p'' s1)"
    using assms a ne by (simp add: scan_task_def deliver_def Let_def)
  then have o: "wo_outbox s' = wo_outbox sample_world @ [(''https://drive.example/hook'', serialize ?p v2)]"
    using out by (simp add: finalize_eq cb Let_def upload_env_def)
  have "map_of (verdicts [q]) ''malware'' = Some (reduce_category [q])" "cv_kind (reduce_category [q]) = Clean"
    using q by (simp_all add: map_of_verdicts results_of_def reduce_category_def is_detection_def blocker_of_def deciding_def
        incomplete_def Let_def)
  then have "says_file_is_clean (serialize ?p v2)"
    by (simp add: says_file_is_clean_def serialize_def v1_def v2_def result_gets member_of_def jget_def [of "verdicts_json [q]"]
        map_of_verdicts_json jget_verdict)
  with o show ?thesis by blast
qed


section \<open>The budget of a callback\<close>

definition actor_limit :: "actor \<Rightarrow> nat" where
  "actor_limit a = (case map_of (ac_options a) ''max_retries'' of None \<Rightarrow> 0 | Some k \<Rightarrow> nat k)"

text \<open>One attempt of a delivery at its time, with the POSTs made so far.\<close>

definition webhook_attempt ::
    "settings \<Rightarrow> 'w sender \<Rightarrow> string \<Rightarrow> payload \<Rightarrow> (nat \<Rightarrow> rat) \<Rightarrow> nat \<Rightarrow> 'w \<times> post list \<Rightarrow> unit result \<times> 'w \<times> post list" where
  "webhook_attempt cfg sd url p now n = (\<lambda>(w, ps).
     case run_webhook cfg sd url p (now n) w of
       (r, new, w') \<Rightarrow> (r, w', ps @ new))"

lemma failing_attempts:
  assumes "\<And>n w. \<exists>e po w'. run_webhook cfg sd url p (now n) w = (Inl e, [po], w')" and "n \<le> limit"
  shows "\<exists>e w' ps'. redeliver (webhook_attempt cfg sd url p now) limit n (w, ps) = (Inl e, limit, w', ps')
    \<and> length ps' = length ps + Suc (limit - n)"
  using assms(2)
proof (induction "limit - n" arbitrary: n w ps)
  case (0 n w ps)
  obtain e po w' where "run_webhook cfg sd url p (now n) w = (Inl e, [po], w')" using assms(1) by blast
  with 0 show ?case by (simp add: redeliver.simps [of _ _ n] webhook_attempt_def)
next
  case (Suc m n w ps)
  obtain e po w' where r: "run_webhook cfg sd url p (now n) w = (Inl e, [po], w')" using assms(1) by blast
  have "m = limit - Suc n" "Suc n \<le> limit" using Suc.hyps(2) by simp_all
  from Suc.hyps(1) [OF this, of w' "ps @ [po]"] r Suc.hyps(2) show ?case
    by (auto simp: redeliver.simps [of _ _ n] webhook_attempt_def)
qed

text \<open>C39: A callback that its receiver never accepts is attempted once more than configured. Under the
  task library's policy (a message is retried until its count has reached the actor's
  \<open>max_retries\<close>), a delivery whose every attempt reaches the receiver and fails is given up after
  exactly \<open>WEBHOOK_MAX_ATTEMPTS + 1\<close> POSTs, since the setting is passed as the number of retries.\<close>

theorem failing_callback_is_attempted_once_more:
  assumes "\<And>n w. \<exists>e po w'. run_webhook cfg sd url p (now n) w = (Inl e, [po], w')"
    and "0 \<le> cfg_webhook_max_attempts cfg"
  shows "\<exists>e k w' ps. redeliver (webhook_attempt cfg sd url p now) (actor_limit (webhook_actor cfg)) 0 (w, []) = (Inl e, k, w', ps)
    \<and> int (length ps) = cfg_webhook_max_attempts cfg + 1"
proof -
  have "int (actor_limit (webhook_actor cfg)) = cfg_webhook_max_attempts cfg"
    using assms(2) by (simp add: actor_limit_def webhook_actor_def register_task_def)
  with failing_attempts [where now = now and n = 0 and limit = "actor_limit (webhook_actor cfg)" and w = w and ps = "[]", OF assms(1)]
  show ?thesis by auto
qed

definition refusing_sender :: "unit sender" where
  "refusing_sender = hook_sender\<lparr>sd_post := (\<lambda>b h. answering \<lparr>wr_status = 500, wr_location = None, wr_data = []\<rparr>)\<rparr>"

lemma refused: "\<exists>e po. run_webhook cfg refusing_sender ''https://drive.example/hook'' p now () = (Inl e, [po], ())"
  using answered [where sd = refusing_sender and cfg = cfg and p = p and now = now and url = "''https://drive.example/hook''"
      and a = "\<lparr>wr_status = 500, wr_location = None, wr_data = []\<rparr>"]
  by (auto simp: refusing_sender_def drive_urls_def webhook_answer_def webhook_outcome_def)

theorem failing_callback_is_attempted_once_more_witness:
  "\<exists>e k w' ps. redeliver (webhook_attempt default_settings refusing_sender ''https://drive.example/hook'' [] (\<lambda>n. of_nat n))
       (actor_limit (webhook_actor default_settings)) 0 ((), []) = (Inl e, k, w', ps)
     \<and> length ps = 4"
proof -
  have "cfg_webhook_max_attempts default_settings = 3" by (simp add: default_settings_def)
  moreover have "\<exists>e po w'. run_webhook default_settings refusing_sender ''https://drive.example/hook'' [] (of_nat n) w = (Inl e, [po], w')" for n w
    using refused by (cases w) blast
  ultimately show ?thesis
    using failing_callback_is_attempted_once_more [of default_settings refusing_sender "''https://drive.example/hook''" "[]" of_nat "()"]
    by fastforce
qed

end
